(* ===== verification/Prelude.thy ===== *)
theory Prelude
  imports Main "HOL-Library.Word" "HOL-Library.Monad_Syntax"
begin

text \<open>
  What every component of the development shares: the types of bytes and of
  results, the generic facts on lists and options, the weakest-precondition
  reading of fallible state-passing code, and the interface of a codec (an
  encoder with a decoder that hands the rest of its input back).

  Fallible Python code is a function into \<open>option\<close>, where \<open>None\<close> is a raised
  exception. Stateful fallible code is a function from a state into
  \<open>('a \<times> 's) option\<close>, composed with the \<open>do\<close> notation of the option monad.
\<close>

named_theorems wp_intro \<open>rules that establish a postcondition of a fallible operation\<close>
named_theorems py_simps \<open>evaluation of the Python primitives\<close>

type_synonym byte = "8 word"
type_synonym bytes = "byte list"

section \<open>Postconditions of fallible state-passing code\<close>

definition ok :: "('a \<times> 's) option \<Rightarrow> ('a \<Rightarrow> 's \<Rightarrow> bool) \<Rightarrow> bool" where
  "ok r Q = (case r of None \<Rightarrow> False | Some (x, s) \<Rightarrow> Q x s)"

text \<open>\<open>ok r Q\<close> is total correctness: the operation does not raise, and its result satisfies \<open>Q\<close>.\<close>

lemma ok_None [simp]: "\<not> ok None Q"
  by (simp add: ok_def)

lemma ok_Some [simp]: "ok (Some (x, s)) Q = Q x s"
  by (simp add: ok_def)

lemma ok_bind [simp]: "ok (Option.bind r (\<lambda>(x, s). f x s)) Q = ok r (\<lambda>x s. ok (f x s) Q)"
  by (cases r) (auto simp: ok_def)

lemma ok_if [simp]: "ok (if b then r1 else r2) Q = (if b then ok r1 Q else ok r2 Q)"
  by simp

lemma ok_bindI: "ok r (\<lambda>x s. ok (f x s) Q) \<Longrightarrow> ok (Option.bind r (\<lambda>(x, s). f x s)) Q"
  by simp

lemma ok_ifI: "(b \<Longrightarrow> ok r1 Q) \<Longrightarrow> (\<not> b \<Longrightarrow> ok r2 Q) \<Longrightarrow> ok (if b then r1 else r2) Q"
  by simp

lemma ok_SomeI: "Q x s \<Longrightarrow> ok (Some (x, s)) Q"
  by simp

lemma ok_mono: "ok r P \<Longrightarrow> (\<And>x s. P x s \<Longrightarrow> Q x s) \<Longrightarrow> ok r Q"
  by (auto simp: ok_def split: option.splits)

lemma okD: "ok r Q \<Longrightarrow> \<exists>x s. r = Some (x, s) \<and> Q x s"
  by (auto simp: ok_def split: option.splits)

lemma ok_SomeD: "ok r Q \<Longrightarrow> r = Some (x, s) \<Longrightarrow> Q x s"
  by simp

lemma okI: "r = Some (x, s) \<Longrightarrow> Q x s \<Longrightarrow> ok r Q"
  by simp

section \<open>Codecs\<close>

text \<open>
  An encoder of values satisfying \<open>valid\<close> and a decoder that returns the value
  and the rest of the input.
\<close>

locale codec =
  fixes enc :: "'a \<Rightarrow> 'b list"
    and dec :: "'b list \<Rightarrow> ('a \<times> 'b list) option"
    and valid :: "'a \<Rightarrow> bool"
  assumes dec_enc: "valid x \<Longrightarrow> dec (enc x @ rest) = Some (x, rest)"
begin

primrec dec_n :: "nat \<Rightarrow> 'b list \<Rightarrow> ('a list \<times> 'b list) option" where
  "dec_n 0 bs = Some ([], bs)"
| "dec_n (Suc n) bs =
     (case dec bs of None \<Rightarrow> None
      | Some (x, bs') \<Rightarrow>
          (case dec_n n bs' of None \<Rightarrow> None | Some (xs, bs'') \<Rightarrow> Some (x # xs, bs'')))"

lemma dec_n_enc:
  "list_all valid xs \<Longrightarrow> dec_n (length xs) (concat (map enc xs) @ rest) = Some (xs, rest)"
  by (induction xs) (simp_all add: dec_enc)

lemma enc_inj: "valid x \<Longrightarrow> valid y \<Longrightarrow> enc x = enc y \<Longrightarrow> x = y"
  by (metis dec_enc option.inject prod.inject)

lemma enc_prefix_free: "valid x \<Longrightarrow> valid y \<Longrightarrow> enc x @ r = enc y @ r' \<Longrightarrow> x = y \<and> r = r'"
  by (metis dec_enc option.inject prod.inject)

end

section \<open>Lists and options\<close>

lemma those_Some_length: "those xs = Some ys \<Longrightarrow> length ys = length xs"
  by (induction xs arbitrary: ys) (auto split: option.splits)

lemma sum_list_map_concat: "sum_list (map f (concat xss)) = sum_list (map (\<lambda>xs. sum_list (map f xs)) xss)"
  by (induction xss) simp_all

lemma takeWhile_append_stop: "list_all P xs \<Longrightarrow> \<not> P y \<Longrightarrow> takeWhile P (xs @ y # ys) = xs"
  by (induction xs) simp_all

lemma dropWhile_append_stop: "list_all P xs \<Longrightarrow> \<not> P y \<Longrightarrow> dropWhile P (xs @ y # ys) = y # ys"
  by (induction xs) simp_all

end
