(* ===== verification/Rng.thy ===== *)
theory Rng
  imports Prelude
begin

text \<open>
  \<open>random.Random\<close> as the scripts use it. The generator's bits are an arbitrary
  infinite tape of numbers with a read position; each method reads one number
  and reduces it into the range the method documents. Every sequence of results
  the methods can return is the result of some tape, so a theorem for all tapes
  holds for every seed. An empty range or sequence raises (\<open>None\<close>).

  \<open>random()\<close> returns a multiple of \<open>2 ^ -53\<close> below 1; the model returns the
  numerator. A probability is the exact ratio of the Python float literal
  (\<open>float.as_integer_ratio\<close>), so \<open>random() < p\<close> is compared without rounding.
\<close>

record rng =
  tape :: "nat \<Rightarrow> nat"
  pos :: nat

type_synonym prob = "nat \<times> nat"

definition p_0 :: prob where "p_0 = (0, 1)"
definition p_0_02 :: prob where "p_0_02 = (5764607523034235, 288230376151711744)"
definition p_0_05 :: prob where "p_0_05 = (3602879701896397, 72057594037927936)"
definition p_0_06 :: prob where "p_0_06 = (1080863910568919, 18014398509481984)"
definition p_0_1 :: prob where "p_0_1 = (3602879701896397, 36028797018963968)"
definition p_0_15 :: prob where "p_0_15 = (5404319552844595, 36028797018963968)"
definition p_0_2 :: prob where "p_0_2 = (3602879701896397, 18014398509481984)"
definition p_0_25 :: prob where "p_0_25 = (1, 4)"
definition p_0_3 :: prob where "p_0_3 = (5404319552844595, 18014398509481984)"
definition p_0_35 :: prob where "p_0_35 = (3152519739159347, 9007199254740992)"
definition p_0_45 :: prob where "p_0_45 = (8106479329266893, 18014398509481984)"
definition p_0_5 :: prob where "p_0_5 = (1, 2)"
definition p_0_65 :: prob where "p_0_65 = (5854679515581645, 9007199254740992)"
definition p_0_7 :: prob where "p_0_7 = (3152519739159347, 4503599627370496)"
definition p_0_85 :: prob where "p_0_85 = (7656119366529843, 9007199254740992)"

lemmas prob_defs = p_0_def p_0_02_def p_0_05_def p_0_06_def p_0_1_def p_0_15_def p_0_2_def
  p_0_25_def p_0_3_def p_0_35_def p_0_45_def p_0_5_def p_0_65_def p_0_7_def p_0_85_def

definition below :: "nat \<Rightarrow> prob \<Rightarrow> bool" where
  "below k p \<longleftrightarrow> k * snd p < fst p * 2 ^ 53"

definition draw :: "'s rng_scheme \<Rightarrow> nat \<times> 's rng_scheme" where
  "draw s = (tape s (pos s), s\<lparr>pos := Suc (pos s)\<rparr>)"

definition random :: "'s rng_scheme \<Rightarrow> (nat \<times> 's rng_scheme) option" where
  "random s = (let (k, s') = draw s in Some (k mod 2 ^ 53, s'))"

definition getrandbits :: "nat \<Rightarrow> 's rng_scheme \<Rightarrow> (nat \<times> 's rng_scheme) option" where
  "getrandbits n s = (let (k, s') = draw s in Some (k mod 2 ^ n, s'))"

text \<open>\<open>randrange(a, b)\<close> and \<open>randint(a, b)\<close> on ints, \<open>randrange(n)\<close> on naturals.\<close>

definition randrange :: "int \<Rightarrow> int \<Rightarrow> 's rng_scheme \<Rightarrow> (int \<times> 's rng_scheme) option" where
  "randrange a b s =
     (if b \<le> a then None else let (k, s') = draw s in Some (a + int k mod (b - a), s'))"

definition randint :: "int \<Rightarrow> int \<Rightarrow> 's rng_scheme \<Rightarrow> (int \<times> 's rng_scheme) option" where
  "randint a b s = randrange a (b + 1) s"

definition randnat :: "nat \<Rightarrow> nat \<Rightarrow> 's rng_scheme \<Rightarrow> (nat \<times> 's rng_scheme) option" where
  "randnat a b s =
     (if b \<le> a then None else let (k, s') = draw s in Some (a + k mod (b - a), s'))"

definition choice :: "'a list \<Rightarrow> 's rng_scheme \<Rightarrow> ('a \<times> 's rng_scheme) option" where
  "choice xs s =
     (if xs = [] then None else let (k, s') = draw s in Some (xs ! (k mod length xs), s'))"

text \<open>
  \<open>choices(cats, weights)[0]\<close>: one \<open>random()\<close>, scaled to the total weight, and a
  bisection in the cumulative weights, capped at the last index. Weights are
  naturals here (the scripts' weights, doubled).
\<close>

fun pick :: "'a list \<Rightarrow> nat list \<Rightarrow> nat \<Rightarrow> nat \<Rightarrow> 'a option" where
  "pick [] ws acc k = None"
| "pick xs [] acc k = None"
| "pick [x] ws acc k = Some x"
| "pick (x # y # xs) (w # ws) acc k =
     (if k < (acc + w) * 2 ^ 53 then Some x else pick (y # xs) ws (acc + w) k)"

definition choices :: "'a list \<Rightarrow> nat list \<Rightarrow> 's rng_scheme \<Rightarrow> ('a \<times> 's rng_scheme) option" where
  "choices xs ws s =
     (if sum_list ws = 0 then None
      else do {
        (k, s') \<leftarrow> random s;
        x \<leftarrow> pick xs ws 0 (k * sum_list ws);
        Some (x, s')
      })"

section \<open>Postconditions of the methods\<close>

text \<open>Each method only moves the read position.\<close>

lemma ok_random [wp_intro]:
  "(\<And>k q. k < 2 ^ 53 \<Longrightarrow> Q k (s\<lparr>pos := q\<rparr>)) \<Longrightarrow> ok (random s) Q"
  by (simp add: random_def draw_def)

lemma ok_getrandbits [wp_intro]:
  "(\<And>k q. k < 2 ^ n \<Longrightarrow> Q k (s\<lparr>pos := q\<rparr>)) \<Longrightarrow> ok (getrandbits n s) Q"
  by (simp add: getrandbits_def draw_def)

lemma ok_randrange [wp_intro]:
  assumes "a < b" "\<And>x q. a \<le> x \<Longrightarrow> x < b \<Longrightarrow> Q x (s\<lparr>pos := q\<rparr>)"
  shows "ok (randrange a b s) Q"
proof -
  have "0 \<le> k mod (b - a)" "k mod (b - a) < b - a" for k using assms(1) by simp_all
  then have "a \<le> a + k mod (b - a)" "a + k mod (b - a) < b" for k by (simp, metis add_less_cancel_left diff_add_cancel add.commute)
  with assms show ?thesis by (simp add: randrange_def draw_def)
qed

lemma ok_randint [wp_intro]:
  "a \<le> b \<Longrightarrow> (\<And>x q. a \<le> x \<Longrightarrow> x \<le> b \<Longrightarrow> Q x (s\<lparr>pos := q\<rparr>)) \<Longrightarrow> ok (randint a b s) Q"
  unfolding randint_def by (rule ok_randrange) auto

lemma ok_randnat [wp_intro]:
  assumes "a < b" "\<And>x q. a \<le> x \<Longrightarrow> x < b \<Longrightarrow> Q x (s\<lparr>pos := q\<rparr>)"
  shows "ok (randnat a b s) Q"
proof -
  have "k mod (b - a) < b - a" for k using assms(1) by simp
  then have "a + k mod (b - a) < b" for k by (metis add.commute less_diff_conv)
  with assms show ?thesis by (simp add: randnat_def draw_def)
qed

lemma ok_choice [wp_intro]:
  "xs \<noteq> [] \<Longrightarrow> (\<And>x q. x \<in> set xs \<Longrightarrow> Q x (s\<lparr>pos := q\<rparr>)) \<Longrightarrow> ok (choice xs s) Q"
  by (simp add: choice_def draw_def)

lemma pick_set: "length xs = length ws \<Longrightarrow> xs \<noteq> [] \<Longrightarrow> \<exists>x \<in> set xs. pick xs ws acc k = Some x"
  by (induction xs ws acc k rule: pick.induct) auto

lemma ok_choices [wp_intro]:
  assumes "length xs = length ws" "sum_list ws \<noteq> 0"
    and "\<And>x q. x \<in> set xs \<Longrightarrow> Q x (s\<lparr>pos := q\<rparr>)"
  shows "ok (choices xs ws s) Q"
proof -
  obtain k where r: "random s = Some (k, s\<lparr>pos := Suc (pos s)\<rparr>)"
    by (simp add: random_def draw_def)
  have "xs \<noteq> []" using assms(1,2) by auto
  then obtain x where "x \<in> set xs" "pick xs ws 0 (k * sum_list ws) = Some x"
    using pick_set [OF assms(1)] by blast
  with r assms(2,3) show ?thesis by (simp add: choices_def)
qed

end
