(* ===== verification/PyText.thy ===== *)
theory PyText
  imports Prelude
begin

text \<open>
  The text primitives of Python that the scripts use: number formatting
  (\<open>str(n)\<close>, \<open>f"{n:x}"\<close>, \<open>f"{n:08x}"\<close>) with \<open>int(s)\<close> and \<open>int(s, 16)\<close>
  as their readers, \<open>sep.join\<close>, \<open>str.find\<close>, \<open>str.count\<close>, \<open>str.replace\<close>,
  \<open>str.split\<close>, \<open>str.splitlines\<close>, \<open>startswith\<close> and \<open>endswith\<close>.
  Strings are character lists; the scripts' own text is ASCII.
\<close>

section \<open>Positional notation\<close>

fun to_base :: "nat \<Rightarrow> nat \<Rightarrow> nat list" where
  "to_base b n = (if b < 2 \<or> n < b then [n] else to_base b (n div b) @ [n mod b])"

declare to_base.simps [simp del]

definition of_base :: "nat \<Rightarrow> nat list \<Rightarrow> nat" where
  "of_base b ds = foldl (\<lambda>a d. a * b + d) 0 ds"

lemma of_base_snoc [simp]: "of_base b (ds @ [d]) = of_base b ds * b + d"
  by (simp add: of_base_def)

lemma of_base_single [simp]: "of_base b [d] = d"
  by (simp add: of_base_def)

lemma of_base_to_base: "2 \<le> b \<Longrightarrow> of_base b (to_base b n) = n"
proof (induction b n rule: to_base.induct)
  case (1 b n)
  then show ?case by (cases "n < b") (simp_all add: to_base.simps [of b n])
qed

lemma to_base_digits: "2 \<le> b \<Longrightarrow> d \<in> set (to_base b n) \<Longrightarrow> d < b"
proof (induction b n rule: to_base.induct)
  case (1 b n)
  then show ?case by (cases "n < b") (auto simp: to_base.simps [of b n])
qed

lemma to_base_nonempty [simp]: "to_base b n \<noteq> []"
  by (subst to_base.simps) simp

text \<open>A notation: an alphabet of digits for one base, and its reader.\<close>

locale notation_base =
  fixes b :: nat
    and dig :: "nat \<Rightarrow> char"
    and undig :: "char \<Rightarrow> nat option"
  assumes base_ge_2: "2 \<le> b"
    and undig_dig: "d < b \<Longrightarrow> undig (dig d) = Some d"
begin

lemma those_undig: "(\<And>d. d \<in> set ds \<Longrightarrow> d < b) \<Longrightarrow> those (map (undig \<circ> dig) ds) = Some ds"
  by (induction ds) (simp_all add: undig_dig)

lemma read_show: "map_option (of_base b) (those (map undig (map dig (to_base b n)))) = Some n"
  using those_undig [of "to_base b n"] to_base_digits [OF base_ge_2] of_base_to_base [OF base_ge_2]
  by simp

lemma show_chars: "set (map dig (to_base b n)) \<subseteq> dig ` {..<b}"
  using to_base_digits [OF base_ge_2] by auto

end

definition dec_dig :: "nat \<Rightarrow> char" where
  "dec_dig d = char_of (48 + d)"

definition dec_undig :: "char \<Rightarrow> nat option" where
  "dec_undig c = (let n = of_char c :: nat in if 48 \<le> n \<and> n < 58 then Some (n - 48) else None)"

definition hex_dig :: "nat \<Rightarrow> char" where
  "hex_dig d = (if d < 10 then char_of (48 + d) else char_of (87 + d))"

definition hex_undig :: "char \<Rightarrow> nat option" where
  "hex_undig c = (let n = of_char c :: nat in
     if 48 \<le> n \<and> n < 58 then Some (n - 48)
     else if 97 \<le> n \<and> n < 103 then Some (n - 87)
     else if 65 \<le> n \<and> n < 71 then Some (n - 55) else None)"

interpretation decimal: notation_base 10 dec_dig dec_undig
  by unfold_locales (auto simp: dec_dig_def dec_undig_def Let_def of_char_of)

interpretation hexadecimal: notation_base 16 hex_dig hex_undig
  by unfold_locales (auto simp: hex_dig_def hex_undig_def Let_def of_char_of)

section \<open>Formatting and reading numbers\<close>

definition dec_nat :: "nat \<Rightarrow> string" where
  "dec_nat n = map dec_dig (to_base 10 n)"

definition dec_int :: "int \<Rightarrow> string" where
  "dec_int i = (if i < 0 then CHR ''-'' # dec_nat (nat (- i)) else dec_nat (nat i))"

definition hex_nat :: "nat \<Rightarrow> string" where
  "hex_nat n = map hex_dig (to_base 16 n)"

definition hex_int :: "int \<Rightarrow> string" where
  "hex_int i = (if i < 0 then CHR ''-'' # hex_nat (nat (- i)) else hex_nat (nat i))"

definition zfill :: "nat \<Rightarrow> string \<Rightarrow> string" where
  "zfill w s = replicate (w - length s) (CHR ''0'') @ s"

definition read_dec :: "string \<Rightarrow> nat option" where
  "read_dec s = (if s = [] then None else map_option (of_base 10) (those (map dec_undig s)))"

definition read_hex :: "string \<Rightarrow> nat option" where
  "read_hex s = (if s = [] then None else map_option (of_base 16) (those (map hex_undig s)))"

lemma read_dec_dec_nat [simp]: "read_dec (dec_nat n) = Some n"
  using decimal.read_show [of n] by (simp add: read_dec_def dec_nat_def)

lemma read_hex_hex_nat [simp]: "read_hex (hex_nat n) = Some n"
  using hexadecimal.read_show [of n] by (simp add: read_hex_def hex_nat_def)

lemma of_base_Cons_0 [simp]: "of_base b (0 # ds) = of_base b ds"
  by (simp add: of_base_def)

lemma hex_undig_0 [simp]: "hex_undig (CHR ''0'') = Some 0"
  by (simp add: hex_undig_def)

lemma read_hex_Cons_0: "read_hex s = Some n \<Longrightarrow> read_hex (CHR ''0'' # s) = Some n"
  by (auto simp: read_hex_def split: if_splits)

lemma read_hex_zfill: "read_hex s = Some n \<Longrightarrow> read_hex (zfill w s) = Some n"
proof -
  have "read_hex s = Some n \<Longrightarrow> read_hex (replicate k (CHR ''0'') @ s) = Some n" for k
    by (induction k) (simp_all add: read_hex_Cons_0)
  then show "read_hex s = Some n \<Longrightarrow> read_hex (zfill w s) = Some n" by (simp add: zfill_def)
qed

lemma dec_nat_inj [simp]: "dec_nat m = dec_nat n \<longleftrightarrow> m = n"
  by (metis option.inject read_dec_dec_nat)

lemma dec_nat_nonempty [simp]: "dec_nat n \<noteq> []"
  by (simp add: dec_nat_def)

lemma hex_nat_nonempty [simp]: "hex_nat n \<noteq> []"
  by (simp add: hex_nat_def)

section \<open>join, startswith, endswith\<close>

fun join :: "string \<Rightarrow> string list \<Rightarrow> string" where
  "join sep [] = []"
| "join sep [x] = x"
| "join sep (x # y # xs) = x @ sep @ join sep (y # xs)"

fun startswith :: "'a list \<Rightarrow> 'a list \<Rightarrow> bool" where
  "startswith s [] = True"
| "startswith [] (p # ps) = False"
| "startswith (c # s) (p # ps) = (c = p \<and> startswith s ps)"

definition endswith :: "'a list \<Rightarrow> 'a list \<Rightarrow> bool" where
  "endswith s p = startswith (rev s) (rev p)"

lemma startswith_iff: "startswith s p \<longleftrightarrow> (\<exists>t. s = p @ t)"
  by (induction s p rule: startswith.induct) auto

lemma startswith_append [simp]: "startswith (p @ t) p"
  by (auto simp: startswith_iff)

lemma startswith_drop: "startswith s p \<Longrightarrow> s = p @ drop (length p) s"
  by (auto simp: startswith_iff)

section \<open>find, count, replace\<close>

text \<open>The index of the first occurrence (\<open>str.find\<close>, with \<open>None\<close> for -1).\<close>

fun find_sub :: "'a list \<Rightarrow> 'a list \<Rightarrow> nat option" where
  "find_sub s p =
     (if startswith s p then Some 0
      else case s of [] \<Rightarrow> None | c # s' \<Rightarrow> map_option Suc (find_sub s' p))"

declare find_sub.simps [simp del]

lemma find_sub_Nil: "find_sub [] p = (if p = [] then Some 0 else None)"
  by (cases p) (simp_all add: find_sub.simps)

lemma find_sub_Cons:
  "find_sub (c # s) p = (if startswith (c # s) p then Some 0 else map_option Suc (find_sub s p))"
  by (subst find_sub.simps) simp

lemma find_sub_Some:
  "find_sub s p = Some i \<Longrightarrow> s = take i s @ p @ drop (i + length p) s"
proof (induction s arbitrary: i)
  case Nil
  then show ?case by (auto simp: find_sub_Nil split: if_splits)
next
  case (Cons c s)
  show ?case
  proof (cases "startswith (c # s) p")
    case True
    with Cons.prems have "i = 0" by (simp add: find_sub_Cons)
    with startswith_drop [OF True] show ?thesis by simp
  next
    case False
    with Cons.prems obtain j where "find_sub s p = Some j" "i = Suc j"
      by (auto simp: find_sub_Cons)
    with Cons.IH show ?thesis by simp
  qed
qed

lemma find_sub_bound: "find_sub s p = Some i \<Longrightarrow> i + length p \<le> length s"
proof (induction s arbitrary: i)
  case Nil
  then show ?case by (auto simp: find_sub_Nil split: if_splits)
next
  case (Cons c s)
  then show ?case by (auto simp: find_sub_Cons startswith_iff split: if_splits)
      (metis length_Cons length_append le_add1)
qed

lemma find_sub_startswith [simp]: "find_sub (p @ v) p = Some 0"
  by (subst find_sub.simps) simp

lemma find_sub_append: "\<exists>i. find_sub (u @ p @ v) p = Some i"
  by (induction u) (auto simp: find_sub_Cons)

lemma find_sub_None: "find_sub s p = None \<longleftrightarrow> (\<nexists>u v. s = u @ p @ v)"
  by (metis find_sub_Some find_sub_append option.distinct(1) option.exhaust)

text \<open>
  \<open>s.count(p)\<close> counts non-overlapping occurrences from the left: after a match the
  search goes on behind it. For an empty \<open>p\<close> Python counts \<open>len(s) + 1\<close>.
\<close>

function count_from :: "'a list \<Rightarrow> 'a list \<Rightarrow> nat" where
  "count_from s p =
     (if p = [] then length s + 1
      else case find_sub s p of None \<Rightarrow> 0
      | Some i \<Rightarrow> Suc (count_from (drop (i + length p) s) p))"
  by pat_completeness auto
termination
proof (relation "measure (\<lambda>(s, p). length s)", goal_cases)
  case (2 s p i)
  then show ?case using find_sub_bound [of s p i] by (cases p) auto
qed simp

declare count_from.simps [simp del]

definition count_sub :: "'a list \<Rightarrow> 'a list \<Rightarrow> nat" where
  "count_sub s p = count_from s p"

text \<open>\<open>s.replace(p, r, 1)\<close> replaces the first occurrence.\<close>

definition replace1 :: "'a list \<Rightarrow> 'a list \<Rightarrow> 'a list \<Rightarrow> 'a list" where
  "replace1 s p r =
     (case find_sub s p of None \<Rightarrow> s
      | Some i \<Rightarrow> take i s @ r @ drop (i + length p) s)"

lemma count_sub_0: "p \<noteq> [] \<Longrightarrow> count_sub s p = 0 \<longleftrightarrow> (\<nexists>u v. s = u @ p @ v)"
  using find_sub_None [of s p]
  by (cases "find_sub s p") (auto simp: count_sub_def count_from.simps [of s p])

lemma count_sub_1E:
  assumes "p \<noteq> []" "count_sub s p = 1"
  obtains i where "find_sub s p = Some i" "s = take i s @ p @ drop (i + length p) s"
    "count_sub (drop (i + length p) s) p = 0"
  using assms find_sub_Some [of s p]
  by (auto simp: count_sub_def count_from.simps [of s p] split: option.splits)

section \<open>split and splitlines\<close>

text \<open>\<open>str.isspace\<close> on the characters below 256, and the blanks of ASCII.\<close>

definition is_space :: "char \<Rightarrow> bool" where
  "is_space c \<longleftrightarrow> c \<in> {CHR '' '', CHR 0x09, CHR 0x0A, CHR 0x0B, CHR 0x0C, CHR 0x0D,
     CHR 0x1C, CHR 0x1D, CHR 0x1E, CHR 0x1F, CHR 0x85, CHR 0xA0}"

definition ascii_space :: "char \<Rightarrow> bool" where
  "ascii_space c \<longleftrightarrow> c \<in> {CHR '' '', CHR 0x09, CHR 0x0A, CHR 0x0B, CHR 0x0C, CHR 0x0D}"

text \<open>\<open>s.split()\<close>: the maximal runs of non-blank characters.\<close>

function split_ws :: "string \<Rightarrow> string list" where
  "split_ws s =
     (let t = dropWhile is_space s in
      if t = [] then []
      else takeWhile (\<lambda>c. \<not> is_space c) t # split_ws (dropWhile (\<lambda>c. \<not> is_space c) t))"
  by pat_completeness auto
termination
proof (relation "measure length", goal_cases)
  case (2 s t)
  then obtain c u where cu: "t = c # u" "\<not> is_space c"
    by (metis dropWhile_eq_Cons_conv neq_Nil_conv)
  have "length (dropWhile (\<lambda>c. \<not> is_space c) t) \<le> length u"
    using cu by (simp add: length_dropWhile_le)
  moreover have "length t \<le> length s" using 2 by (simp add: length_dropWhile_le)
  ultimately show ?case using cu by simp
qed simp

declare split_ws.simps [simp del]

text \<open>\<open>s.split(c)\<close> for a single character \<open>c\<close>: fields may be empty.\<close>

fun split_char :: "char \<Rightarrow> string \<Rightarrow> string list" where
  "split_char c [] = [[]]"
| "split_char c (x # xs) =
     (if x = c then [] # split_char c xs
      else case split_char c xs of [] \<Rightarrow> [[x]] | f # fs \<Rightarrow> (x # f) # fs)"

text \<open>\<open>s.splitlines()\<close>: a carriage return and a newline together end one line.\<close>

definition line_end :: "char \<Rightarrow> bool" where
  "line_end c \<longleftrightarrow> c \<in> {CHR 0x0A, CHR 0x0B, CHR 0x0C, CHR 0x0D, CHR 0x1C, CHR 0x1D, CHR 0x1E, CHR 0x85}"

definition after_end :: "string \<Rightarrow> string" where
  "after_end r = (if startswith r [CHR 0x0D, CHR 0x0A] then drop 2 r else drop 1 r)"

function splitlines :: "string \<Rightarrow> string list" where
  "splitlines s =
     (if s = [] then []
      else takeWhile (\<lambda>c. \<not> line_end c) s # splitlines (after_end (dropWhile (\<lambda>c. \<not> line_end c) s)))"
  by pat_completeness auto
termination
proof (relation "measure length", goal_cases)
  case (2 s)
  have "length (dropWhile (\<lambda>c. \<not> line_end c) s) \<le> length s" by (rule length_dropWhile_le)
  with 2 show ?case by (cases s) (auto simp: after_end_def)
qed simp

declare splitlines.simps [simp del]

lemma splitlines_Nil [simp]: "splitlines [] = []"
  by (simp add: splitlines.simps)

lemma splitlines_newline:
  "list_all (\<lambda>c. \<not> line_end c) l \<Longrightarrow> splitlines (l @ CHR 0x0A # s) = l # splitlines s"
  by (subst splitlines.simps)
     (simp add: takeWhile_append_stop dropWhile_append_stop line_end_def after_end_def)

lemma split_char_nonempty [simp]: "split_char c s \<noteq> []"
  by (induction s) (auto split: list.splits)

lemma split_char_field: "c \<notin> set f \<Longrightarrow> split_char c f = [f]"
  by (induction f) auto

lemma split_char_append:
  "c \<notin> set f \<Longrightarrow> split_char c (f @ c # s) = f # split_char c s"
  by (induction f) auto

lemma split_char_join:
  "fs \<noteq> [] \<Longrightarrow> list_all (\<lambda>f. c \<notin> set f) fs \<Longrightarrow> split_char c (join [c] fs) = fs"
  by (induction "[c]" fs rule: join.induct) (auto simp: split_char_field split_char_append)

end
