(* ===== verification/Asm.thy ===== *)
theory Asm
  imports PyText
begin

text \<open>
  The assembly lines the generator writes, as data instead of text: a mnemonic
  and its operands, a label, a directive. \<open>render\<close> gives the text of a line, the
  way the f-strings of \<^verbatim>\<open>tools/spike_diff/gen.py\<close> do, with \<open>{L}\<close> for a target
  that is not placed yet.

  On this form stand the analyses the theorems use: the bytes a line assembles to
  (with relaxation off, as the header of the programs asks), the registers it
  writes and reads, its memory access, and a machine that executes straight-line
  code. The machine interprets the three instructions that compute addresses
  (\<open>andi\<close>, \<open>add\<close>, \<open>addi\<close>); every other instruction writes an arbitrary value
  to its destination, so what holds on this machine holds for any meaning of
  the other instructions.
\<close>

section \<open>Lines and their text\<close>

datatype lref = Hole | To string

datatype opnd =
    Reg nat \<comment> \<open>\<open>x5\<close>\<close>
  | Imm int \<comment> \<open>decimal\<close>
  | Hex nat \<comment> \<open>\<open>0x1f\<close>\<close>
  | Mem int nat \<comment> \<open>\<open>-4(x5)\<close>\<close>
  | MemR nat \<comment> \<open>\<open>(x5)\<close>\<close>
  | Sp \<comment> \<open>\<open>sp\<close>\<close>
  | MemSp int \<comment> \<open>\<open>8(sp)\<close>\<close>
  | Lab lref \<comment> \<open>a label, or \<open>{L}\<close>\<close>
  | LabOff lref int int \<comment> \<open>\<open>{L}-(imm)+odd\<close>\<close>
  | Sym string

datatype asm =
    Ins string "opnd list"
  | Label string
  | OptRvc
  | OptNorvc
  | Half nat \<comment> \<open>\<open>.2byte 0x....\<close>\<close>
  | Word nat \<comment> \<open>\<open>.4byte 0x........\<close>\<close>
  | Comment string

fun render_lref :: "lref \<Rightarrow> string" where
  "render_lref Hole = ''{L}''"
| "render_lref (To l) = l"

fun render_op :: "opnd \<Rightarrow> string" where
  "render_op (Reg r) = ''x'' @ dec_nat r"
| "render_op (Imm i) = dec_int i"
| "render_op (Hex n) = ''0x'' @ hex_nat n"
| "render_op (Mem i r) = dec_int i @ ''(x'' @ dec_nat r @ '')''"
| "render_op (MemR r) = ''(x'' @ dec_nat r @ '')''"
| "render_op Sp = ''sp''"
| "render_op (MemSp i) = dec_int i @ ''(sp)''"
| "render_op (Lab l) = render_lref l"
| "render_op (LabOff l i d) = render_lref l @ ''-('' @ dec_int i @ '')+'' @ dec_int d"
| "render_op (Sym s) = s"

fun render :: "asm \<Rightarrow> string" where
  "render (Ins m ops) = (if ops = [] then m else m @ '' '' @ join '', '' (map render_op ops))"
| "render (Label l) = l @ '':''"
| "render OptRvc = ''.option rvc''"
| "render OptNorvc = ''.option norvc''"
| "render (Half n) = ''.2byte 0x'' @ zfill 4 (hex_nat n)"
| "render (Word n) = ''.4byte 0x'' @ zfill 8 (hex_nat n)"
| "render (Comment t) = ''# '' @ t"

text \<open>\<open>line.replace("{L}", label)\<close>\<close>

fun place_lref :: "string \<Rightarrow> lref \<Rightarrow> lref" where
  "place_lref l Hole = To l"
| "place_lref l (To l') = To l'"

fun place_op :: "string \<Rightarrow> opnd \<Rightarrow> opnd" where
  "place_op l (Lab r) = Lab (place_lref l r)"
| "place_op l (LabOff r i d) = LabOff (place_lref l r) i d"
| "place_op l x = x"

fun place :: "string \<Rightarrow> asm \<Rightarrow> asm" where
  "place l (Ins m ops) = Ins m (map (place_op l) ops)"
| "place l x = x"

section \<open>Sizes, destinations, sources\<close>

definition isize :: "string \<Rightarrow> nat" where
  "isize m = (if startswith m ''c.'' then 2 else if m = ''la'' then 8 else 4)"

fun lsize :: "asm \<Rightarrow> nat" where
  "lsize (Ins m ops) = isize m"
| "lsize (Half n) = 2"
| "lsize (Word n) = 4"
| "lsize _ = 0"

definition lines_size :: "asm list \<Rightarrow> nat" where
  "lines_size ls = sum_list (map lsize ls)"

lemma lines_size_simps [simp]:
  "lines_size [] = 0" "lines_size (l # ls) = lsize l + lines_size ls"
  "lines_size (ls @ ms) = lines_size ls + lines_size ms"
  by (simp_all add: lines_size_def)

definition stores :: "string list" where
  "stores = [''sb'', ''sh'', ''sw'', ''c.sw'', ''c.swsp'']"

definition loads :: "string list" where
  "loads = [''lb'', ''lbu'', ''lh'', ''lhu'', ''lw'', ''c.lw'', ''c.lwsp'']"

definition branches :: "string list" where
  "branches = [''beq'', ''bne'', ''blt'', ''bge'', ''bltu'', ''bgeu'', ''bnez'', ''c.beqz'', ''c.bnez'']"

definition jumps :: "string list" where
  "jumps = [''jal'', ''jalr'', ''c.j'', ''c.jal'', ''c.jr'', ''c.jalr'']"

definition stops :: "string list" where
  "stops = [''ebreak'', ''ecall'', ''c.ebreak'']"

definition is_ctrl :: "asm \<Rightarrow> bool" where
  "is_ctrl l = (case l of Ins m _ \<Rightarrow> m \<in> set branches \<or> m \<in> set jumps \<or> m \<in> set stops | _ \<Rightarrow> False)"

text \<open>The register an instruction writes, if any: the link registers and \<open>sp\<close> where they are implicit.\<close>

fun dest :: "asm \<Rightarrow> nat option" where
  "dest (Ins m ops) =
     (if m \<in> set stores \<or> m \<in> set branches \<or> m \<in> set stops
        \<or> m = ''c.j'' \<or> m = ''c.jr'' \<or> m = ''c.nop'' \<or> m = ''csrw'' \<or> startswith m ''fence'' then None
      else if m = ''c.jal'' \<or> m = ''c.jalr'' then Some 1
      else case ops of Reg r # _ \<Rightarrow> Some r | Sp # _ \<Rightarrow> Some 2 | _ \<Rightarrow> None)"
| "dest (Half e) =
     (if e mod 4 = 1 \<and> e div 2 ^ 13 = 4 then Some (8 + e div 2 ^ 7 mod 8) else Some (e div 2 ^ 7 mod 32))"
| "dest _ = None"

fun op_regs :: "opnd \<Rightarrow> nat list" where
  "op_regs (Reg r) = [r]"
| "op_regs (Mem i r) = [r]"
| "op_regs (MemR r) = [r]"
| "op_regs Sp = [2]"
| "op_regs (MemSp i) = [2]"
| "op_regs _ = []"

text \<open>The registers an instruction reads: every operand, less the destination of a three-address form.\<close>

fun sources :: "asm \<Rightarrow> nat list" where
  "sources (Ins m ops) =
     concat (map op_regs (if dest (Ins m ops) = None \<or> startswith m ''c.'' then ops else tl ops))"
| "sources (Half e) = (case dest (Half e) of Some r \<Rightarrow> [r] | None \<Rightarrow> [])"
| "sources _ = []"

definition writes :: "asm list \<Rightarrow> nat set" where
  "writes ls = {r. \<exists>l \<in> set ls. dest l = Some r}"

lemma writes_simps [simp]:
  "writes [] = {}" "writes (l # ls) = set_option (dest l) \<union> writes ls"
  "writes (ls @ ms) = writes ls \<union> writes ms"
  by (auto simp: writes_def)

section \<open>Memory accesses and straight-line execution\<close>

type_synonym u32 = "32 word"
type_synonym regs = "nat \<Rightarrow> u32"

definition width :: "string \<Rightarrow> nat" where
  "width m =
     (if m \<in> {''lb'', ''lbu'', ''sb''} then 1
      else if m \<in> {''lh'', ''lhu'', ''sh''} then 2
      else if m \<in> {''lw'', ''sw'', ''c.lw'', ''c.sw'', ''c.lwsp'', ''c.swsp''}
        \<or> startswith m ''amo'' \<or> startswith m ''lr.w'' \<or> startswith m ''sc.w'' then 4
      else 0)"

fun op_addr :: "opnd \<Rightarrow> regs \<Rightarrow> u32 option" where
  "op_addr (Mem i r) rs = Some (rs r + word_of_int i)"
| "op_addr (MemR r) rs = Some (rs r)"
| "op_addr (MemSp i) rs = Some (rs 2 + word_of_int i)"
| "op_addr _ rs = None"

text \<open>The address and the width of the access of a line: the memory operand is the last one.\<close>

fun access :: "asm \<Rightarrow> regs \<Rightarrow> (u32 \<times> nat) option" where
  "access (Ins m ops) rs =
     (if width m = 0 \<or> ops = [] then None
      else map_option (\<lambda>a. (a, width m)) (op_addr (last ops) rs))"
| "access _ rs = None"

definition set_reg :: "nat \<Rightarrow> u32 \<Rightarrow> regs \<Rightarrow> regs" where
  "set_reg r v rs = (if r = 0 then rs else rs(r := v))"

text \<open>The value an interpreted instruction writes; \<open>h\<close> for any other.\<close>

fun value_of :: "u32 \<Rightarrow> asm \<Rightarrow> regs \<Rightarrow> u32" where
  "value_of h (Ins m [Reg d, Reg a, Imm i]) rs =
     (if m = ''andi'' then and (rs a) (word_of_int i)
      else if m = ''addi'' then rs a + word_of_int i else h)"
| "value_of h (Ins m [Reg d, Reg a, Reg b]) rs = (if m = ''add'' then rs a + rs b else h)"
| "value_of h _ rs = h"

definition exec1 :: "u32 \<Rightarrow> asm \<Rightarrow> regs \<Rightarrow> regs" where
  "exec1 h l rs = (case dest l of None \<Rightarrow> rs | Some d \<Rightarrow> set_reg d (value_of h l rs) rs)"

fun run :: "(nat \<Rightarrow> u32) \<Rightarrow> asm list \<Rightarrow> regs \<Rightarrow> regs" where
  "run h [] rs = rs"
| "run h (l # ls) rs = run (\<lambda>n. h (Suc n)) ls (exec1 (h 0) l rs)"

fun accesses :: "(nat \<Rightarrow> u32) \<Rightarrow> asm list \<Rightarrow> regs \<Rightarrow> (u32 \<times> nat) set" where
  "accesses h [] rs = {}"
| "accesses h (l # ls) rs =
     set_option (access l rs) \<union> accesses (\<lambda>n. h (Suc n)) ls (exec1 (h 0) l rs)"

lemma run_append: "run h (ls @ ms) rs = run (\<lambda>n. h (length ls + n)) ms (run h ls rs)"
  by (induction ls arbitrary: h rs) simp_all

lemma accesses_append:
  "accesses h (ls @ ms) rs = accesses h ls rs \<union> accesses (\<lambda>n. h (length ls + n)) ms (run h ls rs)"
  by (induction ls arbitrary: h rs) (simp_all add: Un_assoc)

lemma exec1_frame: "dest l \<noteq> Some r \<Longrightarrow> exec1 h l rs r = rs r"
  by (auto simp: exec1_def set_reg_def split: option.splits)

lemma run_frame: "r \<notin> writes ls \<Longrightarrow> run h ls rs r = rs r"
  by (induction ls arbitrary: h rs) (auto simp: exec1_frame)

section \<open>The data region\<close>

text \<open>
  The region is the 2 KiB around BASE. An access is inside and aligned when its
  offset from the start of the region is; the start itself is 64-byte aligned.
\<close>

definition in_region :: "u32 \<Rightarrow> u32 \<times> nat \<Rightarrow> bool" where
  "in_region B a \<longleftrightarrow>
     unat (fst a - (B - 1024)) + snd a \<le> 2048 \<and> snd a dvd unat (fst a - (B - 1024))"

text \<open>Straight-line code started with BASE in register \<open>b\<close> only touches the region.\<close>

definition mem_safe :: "nat \<Rightarrow> asm list \<Rightarrow> bool" where
  "mem_safe b ls \<longleftrightarrow> (\<forall>h rs. \<forall>a \<in> accesses h ls rs. in_region (rs b) a)"

lemma mem_safe_append:
  "mem_safe b ls \<Longrightarrow> b \<notin> writes ls \<Longrightarrow> mem_safe b ms \<Longrightarrow> mem_safe b (ls @ ms)"
  unfolding mem_safe_def accesses_append by (metis UnE run_frame)

lemma mem_safe_Nil [simp]: "mem_safe b []"
  by (simp add: mem_safe_def)

lemma no_access_safe: "(\<And>l rs. l \<in> set ls \<Longrightarrow> access l rs = None) \<Longrightarrow> mem_safe b ls"
proof -
  assume "\<And>l rs. l \<in> set ls \<Longrightarrow> access l rs = None"
  then have "accesses h ls rs = {}" for h rs by (induction ls arbitrary: h rs) simp_all
  then show ?thesis by (simp add: mem_safe_def)
qed

text \<open>After \<open>ls\<close>, register \<open>t\<close> holds BASE + (something and mask) + k.\<close>

definition points :: "nat \<Rightarrow> nat \<Rightarrow> int \<Rightarrow> int \<Rightarrow> asm list \<Rightarrow> bool" where
  "points b t m k ls \<longleftrightarrow>
     (\<forall>h rs. \<exists>x. run h ls rs t = rs b + and x (word_of_int m) + word_of_int k)"

lemma points_append: "points b t m k ls \<Longrightarrow> t \<notin> writes ms \<Longrightarrow> points b t m k (ls @ ms)"
  unfolding points_def by (simp add: run_append run_frame)


lemma masked_bounds:
  fixes x :: u32
  assumes "0 \<le> m" "m < 2 ^ 31"
  shows "0 \<le> uint (and x (word_of_int m))" "uint (and x (word_of_int m)) \<le> m"
    and "take_bit n m = 0 \<Longrightarrow> 2 ^ n dvd uint (and x (word_of_int m))"
proof -
  have "take_bit 32 m = m" using assms by (simp add: take_bit_int_eq_self)
  then have eq: "uint (and x (word_of_int m)) = and (uint x) m"
    by (simp add: uint_and uint_word_of_int_eq)
  show "0 \<le> uint (and x (word_of_int m))" by simp
  show "uint (and x (word_of_int m)) \<le> m" unfolding eq using assms by simp
  assume "take_bit n m = 0"
  then have "take_bit n (and (uint x) m) = 0" by (simp add: take_bit_and)
  then show "2 ^ n dvd uint (and x (word_of_int m))"
    unfolding eq by (simp only: take_bit_eq_0_iff)
qed

text \<open>The arithmetic behind every access of the generator.\<close>

lemma in_region_masked:
  fixes B x :: u32
  assumes m: "0 \<le> m" "m < 2 ^ 31" "take_bit n m = 0"
    and d: "2 ^ n dvd k + i" "2 ^ n dvd (1024 :: int)"
    and lo: "0 \<le> 1024 + k + i" and hi: "1024 + m + k + i + 2 ^ n \<le> 2048"
    and a: "a = B + and x (word_of_int m) + word_of_int k + word_of_int i"
  shows "in_region B (a, 2 ^ n)"
proof -
  define z where "z = 1024 + uint (and x (word_of_int m)) + (k + i)"
  note y = masked_bounds [OF m(1,2), where x = x]
  have off: "a - (B - 1024) = word_of_int z"
    by (simp add: a z_def algebra_simps)
  have z: "0 \<le> z" "z + 2 ^ n \<le> 2048" using y(1,2) lo hi unfolding z_def by linarith+
  moreover have "(0 :: int) \<le> 2 ^ n" by simp
  ultimately have "z \<le> 2048" by linarith
  then have u: "unat (a - (B - 1024)) = nat z"
    unfolding off using z(1) by (simp add: unsigned_of_int take_bit_int_eq_self)
  have "2 ^ n dvd z" using y(3) [OF m(3)] d unfolding z_def by (simp add: add.assoc)
  then have "int (2 ^ n) dvd z" by simp
  then have "2 ^ n dvd nat z" using z(1) by (simp add: nat_dvd_iff flip: int_dvd_int_iff)
  moreover have "int (nat z + 2 ^ n) \<le> int 2048" using z by simp
  then have "nat z + 2 ^ n \<le> 2048" by (simp only: of_nat_le_iff)
  ultimately show ?thesis by (simp add: in_region_def u)
qed

section \<open>The reach of a jump\<close>

text \<open>The displacements a control transfer can encode; \<open>la\<close> and the register jumps reach everything.\<close>

fun reach :: "asm \<Rightarrow> int \<Rightarrow> bool" where
  "reach (Ins m ops) d =
     (if m \<in> {''c.beqz'', ''c.bnez''} then - 256 \<le> d \<and> d \<le> 254
      else if m \<in> {''c.j'', ''c.jal''} then - 2048 \<le> d \<and> d \<le> 2046
      else if m \<in> set branches then - 4096 \<le> d \<and> d \<le> 4094
      else if m = ''jal'' then - (2 ^ 20) \<le> d \<and> d \<le> 2 ^ 20 - 2
      else True)"
| "reach _ d = True"

text \<open>The labels an instruction refers to.\<close>

fun op_refs :: "opnd \<Rightarrow> lref list" where
  "op_refs (Lab r) = [r]"
| "op_refs (LabOff r i d) = [r]"
| "op_refs _ = []"

fun refs :: "asm \<Rightarrow> lref list" where
  "refs (Ins m ops) = concat (map op_refs ops)"
| "refs _ = []"

text \<open>The byte distance from line \<open>j\<close> to line \<open>k\<close>.\<close>

definition span :: "asm list \<Rightarrow> nat \<Rightarrow> nat \<Rightarrow> int" where
  "span ls j k = int (lines_size (take k ls)) - int (lines_size (take j ls))"

text \<open>Every label that a line refers to is defined, and within its reach.\<close>

definition in_range :: "asm list \<Rightarrow> bool" where
  "in_range ls \<longleftrightarrow> (\<forall>j < length ls. \<forall>r \<in> set (refs (ls ! j)).
     \<exists>l k. r = To l \<and> k < length ls \<and> ls ! k = Label l \<and> reach (ls ! j) (span ls j k))"

lemma span_prefix: "span (ls @ ms) (length ls + j) (length ls + k) = span ms j k"
  by (simp add: span_def)

lemma span_suffix: "j \<le> length ls \<Longrightarrow> k \<le> length ls \<Longrightarrow> span (ls @ ms) j k = span ls j k"
  by (simp add: span_def)

lemma in_range_no_refs: "(\<And>l. l \<in> set ls \<Longrightarrow> refs l = []) \<Longrightarrow> in_range ls"
  by (simp add: in_range_def)

lemma in_range_append:
  assumes "in_range ls" "in_range ms"
  shows "in_range (ls @ ms)"
  unfolding in_range_def
proof (intro allI impI ballI)
  fix j r assume j: "j < length (ls @ ms)" and r: "r \<in> set (refs ((ls @ ms) ! j))"
  show "\<exists>l k. r = To l \<and> k < length (ls @ ms) \<and> (ls @ ms) ! k = Label l \<and> reach ((ls @ ms) ! j) (span (ls @ ms) j k)"
  proof (cases "j < length ls")
    case True
    then obtain l k where "r = To l" "k < length ls" "ls ! k = Label l" "reach (ls ! j) (span ls j k)"
      using assms(1) r by (fastforce simp: in_range_def nth_append)
    with True show ?thesis by (intro exI [of _ l] exI [of _ k]) (simp add: nth_append span_suffix)
  next
    case False
    define i where "i = j - length ls"
    with False j have i: "j = length ls + i" "i < length ms" by auto
    then obtain l k where "r = To l" "k < length ms" "ms ! k = Label l" "reach (ms ! i) (span ms i k)"
      using assms(2) r by (fastforce simp: in_range_def)
    with i show ?thesis by (intro exI [of _ l] exI [of _ "length ls + k"]) (simp add: span_prefix)
  qed
qed

lemma in_range_concat: "(\<And>ls. ls \<in> set lss \<Longrightarrow> in_range ls) \<Longrightarrow> in_range (concat lss)"
  by (induction lss) (auto intro: in_range_append in_range_no_refs)

end
