(* ===== verification/Template.thy ===== *)
theory Template
  imports PyText
begin

text \<open>
  \<^verbatim>\<open>tools/spike_diff/template.py\<close>: the skeleton of every test program. Constants,
  the fixed header, Spike's trap handler, the data section and the signature
  tail, as the text the scripts write. \<open>data_section\<close> asserts the number of data
  words, so assembling a program may raise (\<open>None\<close>).
\<close>

definition ISA_AS :: string where "ISA_AS = ''rv32imac_zicsr_zifencei_zba_zbb_zbs''"
definition ISA_SPIKE :: string where "ISA_SPIKE = ''rv32imac_zicsr_zifencei_zicntr_zba_zbb_zbs''"
definition LOAD_ADDR :: nat where "LOAD_ADDR = 0x10000"
definition SPIKE_MEM_BASE :: nat where "SPIKE_MEM_BASE = 0x10000"
definition SPIKE_MEM_SIZE :: nat where "SPIKE_MEM_SIZE = 0x40000"
definition DUMP_MARKER :: nat where "DUMP_MARKER = 0x600DC0DE"
definition SPIKE_INSTRET_OFFSET :: nat where "SPIKE_INSTRET_OFFSET = 9"
definition DATA_SIZE :: nat where "DATA_SIZE = 2048"

definition SPIKE_MEM :: string where
  "SPIKE_MEM = ''0x'' @ hex_nat SPIKE_MEM_BASE @ '':0x'' @ hex_nat SPIKE_MEM_SIZE"

definition nl :: string where "nl = [CHR 0x0A]"

text \<open>\<open>"\n".join(lines) + "\n"\<close>\<close>

definition text_of :: "string list \<Rightarrow> string" where
  "text_of ls = join nl ls @ nl"

definition HEADER :: string where
  \<open>HEADER = text_of
    [''  .option norelax'', ''  .option norvc'', ''  .section .text.init, "ax"'',
     ''  .globl _start'', ''  .globl begin_signature'', ''_start:'', ''begin_signature:'',
     ''  la t0, trap_handler'', ''  csrw mtvec, t0'', ''  .globl test_start'', ''test_start:'']\<close>

text \<open>The stores of the trap handler: \<open>sw x{i}, {4 * i}(t6)\<close>.\<close>

definition dump_line :: "nat \<Rightarrow> string" where
  "dump_line i = ''  sw x'' @ dec_nat i @ '', '' @ dec_nat (4 * i) @ ''(t6)''"

definition trap_handler_lines :: "string list" where
  "trap_handler_lines =
     [''  .option norvc'', ''  .align 2'', ''trap_handler:'', ''  csrw sscratch, t6'',
      ''  csrr t6, minstret'', ''  csrw stval, t6'', ''  la t6, trap_dump'']
     @ map dump_line [1..<31]
     @ [''  csrr x1, sscratch'', ''  sw x1, 124(t6)'', ''  csrr x1, mscratch'', ''  sw x1, 128(t6)'',
        ''  csrr x1, mcause'', ''  sw x1, 132(t6)'', ''  csrr x1, mepc'', ''  sw x1, 136(t6)'',
        ''  csrr x1, mtval'', ''  sw x1, 140(t6)'', ''  csrr x1, stval'', ''  sw x1, 144(t6)'',
        ''  li x1, 0x'' @ hex_nat DUMP_MARKER, ''  sw x1, 0(t6)'', ''  li x1, 1'', ''  la t6, tohost'',
        ''  sw x1, 0(t6)'', ''  sw x0, 4(t6)'', ''1: j 1b'']"

definition trap_handler :: string where
  "trap_handler = text_of trap_handler_lines"

definition signature_tail :: string where
  \<open>signature_tail = text_of
    [''  .align 6'', ''  .globl trap_dump'', ''trap_dump:'', ''  .space 192'', ''  .align 6'',
     ''  .globl end_signature'', ''end_signature:'', ''  .section .tohost, "aw", @progbits'',
     ''  .align 6'', ''  .globl tohost'', ''tohost: .dword 0'', ''  .align 6'',
     ''  .globl fromhost'', ''fromhost: .dword 0'']\<close>

function chunks :: "nat \<Rightarrow> 'a list \<Rightarrow> 'a list list" where
  "chunks n xs = (if xs = [] \<or> n = 0 then [] else take n xs # chunks n (drop n xs))"
  by pat_completeness auto
termination
  by (relation "measure (\<lambda>(n, xs). length xs)") auto

declare chunks.simps [simp del]

definition word_line :: "nat list \<Rightarrow> string" where
  "word_line ws = ''  .word '' @ join '', '' (map (\<lambda>w. ''0x'' @ zfill 8 (hex_nat w)) ws)"

definition data_section :: "nat list \<Rightarrow> string option" where
  "data_section data_words =
     (if length data_words \<noteq> DATA_SIZE div 4 then None
      else Some (text_of ([''  .data'', ''  .align 6'', ''  .globl data_region'', ''data_region:'']
                          @ map word_line (chunks 8 data_words))
                 @ signature_tail))"

text \<open>Labels (\<open>name:\<close>) stay in column 0.\<close>

definition indent :: "string list \<Rightarrow> string list" where
  "indent ls = map (\<lambda>line. if endswith line '':'' then line else ''  '' @ line) ls"

definition assemble_program :: "string list \<Rightarrow> nat list \<Rightarrow> string option" where
  "assemble_program body_lines data_words = do {
     d \<leftarrow> data_section data_words;
     Some (HEADER @ join nl (indent body_lines) @ nl @ trap_handler @ d) }"

section \<open>Lemmas\<close>

lemma chunks_concat: "0 < n \<Longrightarrow> concat (chunks n xs) = xs"
proof (induction n xs rule: chunks.induct)
  case (1 n xs)
  then show ?case by (cases "xs = []") (simp add: chunks.simps, simp add: chunks.simps [of n xs])
qed

lemma chunks_length: "c \<in> set (chunks n xs) \<Longrightarrow> 0 < length c \<and> length c \<le> n"
proof (induction n xs rule: chunks.induct)
  case (1 n xs)
  then show ?case by (auto simp: chunks.simps [of n xs] split: if_splits)
qed

end
