(* ===== verification/Gen.thy ===== *)
theory Gen
  imports Rng Asm Template
begin

text \<open>
  \<^verbatim>\<open>tools/spike_diff/gen.py\<close>: the seeded generator of random programs. The class
  \<open>Gen\<close> is a record that extends the state of its random generator; every method is
  a function on that record which may raise, and draws its random numbers in the
  order Python evaluates them. Items hold structured lines (theory Asm) whose
  text is the text of the source's f-strings.

  \<open>g_loop\<close> calls \<open>block\<close>, which may call \<open>g_loop\<close> again, where the flag
  \<open>in_loop\<close> stops the recursion. The dispatcher \<open>g_cat\<close> carries a depth, and
  depth 2 is proved to be enough for every run.
\<close>

section \<open>Tables\<close>

definition M32 :: nat where "M32 = 0xFFFFFFFF"

definition SPECIAL :: "nat list" where
  "SPECIAL = [0, 1, 2, 3, 0xFFFFFFFF, 0xFFFFFFFE, 0x80000000, 0x7FFFFFFF, 0x80000001,
     31, 32, 33, 63, 64, 0x7F, 0x80, 0xFF, 0x100, 0x7FFF, 0x8000, 0xFFFF,
     0x10000, 0xFFFF8000, 0xFFFFFF80, 0xFFFF0000, 0x00FF00FF, 0xFF00FF00,
     0x01010101, 0x80808080, 0x7F7F7F7F, 0xAAAAAAAA, 0x55555555, 0x00000800,
     0xFFFFF800, 0x000007FF]"

definition IMM_SPECIAL :: "int list" where
  "IMM_SPECIAL = [0, 1, -1, 2047, -2048, 2, -2, 31, 32, 0x7FF, -0x800, 0x400, -0x400]"

definition ALU_R :: "string list" where
  "ALU_R = [''add'', ''sub'', ''sll'', ''slt'', ''sltu'', ''xor'', ''srl'', ''sra'', ''or'', ''and'']"
definition ALU_I :: "string list" where
  "ALU_I = [''addi'', ''slti'', ''sltiu'', ''xori'', ''ori'', ''andi'']"
definition SHIFT_I :: "string list" where "SHIFT_I = [''slli'', ''srli'', ''srai'']"
definition M_OPS :: "string list" where
  "M_OPS = [''mul'', ''mulh'', ''mulhsu'', ''mulhu'', ''div'', ''divu'', ''rem'', ''remu'']"
definition ZBA :: "string list" where "ZBA = [''sh1add'', ''sh2add'', ''sh3add'']"
definition ZBB_R :: "string list" where
  "ZBB_R = [''andn'', ''orn'', ''xnor'', ''max'', ''maxu'', ''min'', ''minu'', ''rol'', ''ror'']"
definition ZBB_U :: "string list" where
  "ZBB_U = [''clz'', ''ctz'', ''cpop'', ''sext.b'', ''sext.h'', ''zext.h'', ''orc.b'', ''rev8'']"
definition ZBS_R :: "string list" where "ZBS_R = [''bclr'', ''bext'', ''binv'', ''bset'']"
definition ZBS_I :: "string list" where "ZBS_I = [''bclri'', ''bexti'', ''binvi'', ''bseti'']"
definition BRANCHES :: "string list" where
  "BRANCHES = [''beq'', ''bne'', ''blt'', ''bge'', ''bltu'', ''bgeu'']"
definition AMOS :: "string list" where
  "AMOS = [''amoswap'', ''amoadd'', ''amoxor'', ''amoand'', ''amoor'', ''amomin'', ''amomax'',
     ''amominu'', ''amomaxu'']"
definition LOADS :: "(string \<times> int) list" where
  "LOADS = [(''lb'', 1), (''lbu'', 1), (''lh'', 2), (''lhu'', 2), (''lw'', 4)]"
definition STORES :: "(string \<times> int) list" where
  "STORES = [(''sb'', 1), (''sh'', 2), (''sw'', 4)]"
definition COUNTERS :: "string list" where "COUNTERS = [''cycle'', ''instret'']"
definition COUNTERS_H :: "string list" where "COUNTERS_H = [''cycleh'', ''instreth'']"

definition RESERVED_32 :: "nat list" where
  "RESERVED_32 = [0x0000000B, 0x0000200F, 0x00001067, 0x00002063, 0x00003003, 0x00006003,
     0x00003023, 0x0000302F, 0x0000003B, 0x0200D013, 0x02001013, 0x0A000033,
     0x1051A52F, 0x000000F3, 0x00108073]"
definition RESERVED_16 :: "nat list" where
  "RESERVED_16 = [0x0000, 0x4002, 0x8002, 0x6101, 0x9C01, 0x6000, 0x8000, 0x1082]"

definition CATS :: "string list" where
  "CATS = [''alu_r'', ''alu_i'', ''lui_auipc'', ''m'', ''zba'', ''zbb'', ''zbs'', ''li_special'', ''c_alu'',
     ''c_hint'', ''load'', ''store'', ''c_mem'', ''amo'', ''lrsc'', ''sc_only'', ''branch'',
     ''c_branch'', ''jal'', ''c_jump'', ''jalr'', ''c_jr'', ''loop'', ''csr_scratch'',
     ''csr_counter'', ''fence'']"

text \<open>Category weights per mix, doubled so that the halves are whole.\<close>

definition MIXES :: "(string \<times> (string \<times> nat) list) list" where
  "MIXES =
     [(''mixed'', map (\<lambda>c. (c, 2)) CATS),
      (''alu'', [(''alu_r'', 8), (''alu_i'', 8), (''lui_auipc'', 2), (''m'', 8), (''zba'', 4), (''zbb'', 8),
         (''zbs'', 6), (''li_special'', 6), (''c_alu'', 2), (''branch'', 1), (''load'', 1), (''store'', 1)]),
      (''mem'', [(''load'', 10), (''store'', 10), (''c_mem'', 8), (''amo'', 2), (''alu_r'', 2), (''alu_i'', 2),
         (''m'', 1), (''li_special'', 2), (''branch'', 1), (''loop'', 1), (''lrsc'', 1)]),
      (''comp'', [(''c_alu'', 12), (''c_hint'', 4), (''c_mem'', 6), (''c_branch'', 4), (''c_jump'', 4),
         (''c_jr'', 2), (''alu_r'', 2), (''alu_i'', 2), (''li_special'', 2), (''loop'', 1)]),
      (''amo'', [(''amo'', 10), (''lrsc'', 8), (''sc_only'', 2), (''load'', 2), (''store'', 2), (''alu_r'', 2),
         (''alu_i'', 2), (''li_special'', 2)]),
      (''branch'', [(''branch'', 8), (''c_branch'', 4), (''jal'', 4), (''c_jump'', 4), (''jalr'', 4), (''c_jr'', 4),
         (''loop'', 4), (''alu_r'', 2), (''alu_i'', 2), (''li_special'', 2), (''m'', 1), (''load'', 1), (''store'', 1)]),
      (''csr'', [(''csr_scratch'', 8), (''csr_counter'', 6), (''alu_r'', 2), (''alu_i'', 2), (''li_special'', 2),
         (''fence'', 2), (''branch'', 1)])]"

definition s12 :: "int \<Rightarrow> int" where
  "s12 v = (let u = v mod 0x1000 in if u div 0x800 mod 2 = 1 then u - 0x1000 else u)"

section \<open>Items and the generator's state\<close>

record item =
  lines :: "asm list"
  isz :: nat
  branch :: bool
  maxdist :: nat

definition Item :: "asm list \<Rightarrow> nat \<Rightarrow> item" where
  "Item ls n = \<lparr>lines = ls, isz = n, branch = False, maxdist = 0\<rparr>"

definition BranchItem :: "asm list \<Rightarrow> nat \<Rightarrow> nat \<Rightarrow> item" where
  "BranchItem ls n d = \<lparr>lines = ls, isz = n, branch = True, maxdist = d\<rparr>"

definition rvc :: "asm \<Rightarrow> asm list" where
  "rvc l = [OptRvc, l, OptNorvc]"

record gen = rng +
  weights :: "(string \<times> nat) list"
  base :: nat
  reserved :: "nat set"
  noread :: "nat set"
  nlabel :: nat
  in_loop :: bool

type_synonym 'a gm = "gen \<Rightarrow> ('a \<times> gen) option"

text \<open>\<open>Gen(seed, mix)\<close>; the tape stands for the seeded generator. An unknown mix raises.\<close>

definition Gen_init :: "(nat \<Rightarrow> nat) \<Rightarrow> string \<Rightarrow> gen option" where
  "Gen_init tp mix = do {
     w \<leftarrow> map_of MIXES mix;
     (b, r) \<leftarrow> randnat 3 32 \<lparr>tape = tp, pos = 0\<rparr>;
     Some \<lparr>tape = tape r, pos = pos r, weights = w, base = b, reserved = {b}, noread = {},
           nlabel = 0, in_loop = False\<rparr> }"

section \<open>Random helpers\<close>

definition chance :: "prob \<Rightarrow> bool gm" where
  "chance p s = do { (k, s) \<leftarrow> random s; Some (below k p, s) }"

definition val :: "nat gm" where
  "val s = do {
     (p, s) \<leftarrow> random s;
     if below p p_0_25 then choice SPECIAL s
     else if below p p_0_35 then do { (i, s) \<leftarrow> randint (-64) 64 s; Some (nat (i mod 2 ^ 32), s) }
     else if below p p_0_45 then do {
       (n, s) \<leftarrow> randnat 0 32 s;
       choice [2 ^ n, nat ((- (2 ^ n)) mod 2 ^ 32), 2 ^ n - 1, nat ((- (2 ^ n) - 1) mod 2 ^ 32)] s }
     else getrandbits 32 s }"

definition imm12 :: "int gm" where
  "imm12 s = do {
     (c, s) \<leftarrow> chance p_0_3 s;
     if c then choice IMM_SPECIAL s else randint (-2048) 2047 s }"

definition label :: "string gm" where
  "label s = (let n = Suc (nlabel s) in Some (''L'' @ dec_nat n, s\<lparr>nlabel := n\<rparr>))"

definition wreg :: "prob \<Rightarrow> nat gm" where
  "wreg p s = do {
     (c, s) \<leftarrow> chance p s;
     if c then Some (0, s) else choice [r \<leftarrow> [1..<32]. r \<notin> reserved s] s }"

definition tmp :: "nat list \<Rightarrow> nat gm" where
  "tmp rs s = choice [r \<leftarrow> rs. r \<noteq> 0 \<and> r \<notin> reserved s] s"

definition rreg :: "nat gm" where
  "rreg s = do {
     (c, s) \<leftarrow> chance p_0_05 s;
     if c then Some (0, s) else choice [r \<leftarrow> [1..<32]. r \<notin> noread s] s }"

definition rpair :: "(nat \<times> nat) gm" where
  "rpair s = do {
     (a, s) \<leftarrow> rreg s;
     (c, s) \<leftarrow> chance p_0_1 s;
     if c then Some ((a, a), s) else do { (b, s) \<leftarrow> rreg s; Some ((a, b), s) } }"

definition cw :: "nat gm" where
  "cw s = tmp [8..<16] s"

definition cr :: "nat gm" where
  "cr s = choice [r \<leftarrow> [8..<16]. r \<notin> noread s] s"

definition li :: "nat \<Rightarrow> nat \<Rightarrow> asm list" where
  "li rd v0 =
     (let v = int (v0 mod 2 ^ 32); lo = s12 v; hi = (v - lo) div 2 ^ 12 mod 2 ^ 20
      in [Ins ''lui'' [Reg rd, Hex (nat hi)], Ins ''addi'' [Reg rd, Reg rd, Imm lo]])"

section \<open>Categories without control flow or memory\<close>

definition g_alu_r :: "item gm" where
  "g_alu_r s = do {
     (op, s) \<leftarrow> choice ALU_R s;
     ((a, b), s) \<leftarrow> rpair s;
     (rd, s) \<leftarrow> wreg p_0_06 s;
     Some (Item [Ins op [Reg rd, Reg a, Reg b]] 4, s) }"

definition g_alu_i :: "item gm" where
  "g_alu_i s = do {
     (c, s) \<leftarrow> chance p_0_35 s;
     if c then do {
       (op, s) \<leftarrow> choice SHIFT_I s;
       (x, s) \<leftarrow> randnat 0 32 s;
       (sh, s) \<leftarrow> choice [0, 1, 31, x] s;
       (rd, s) \<leftarrow> wreg p_0_06 s;
       (rs, s) \<leftarrow> rreg s;
       Some (Item [Ins op [Reg rd, Reg rs, Imm (int sh)]] 4, s) }
     else do {
       (op, s) \<leftarrow> choice ALU_I s;
       (rd, s) \<leftarrow> wreg p_0_06 s;
       (rs, s) \<leftarrow> rreg s;
       (i, s) \<leftarrow> imm12 s;
       Some (Item [Ins op [Reg rd, Reg rs, Imm i]] 4, s) } }"

definition g_lui_auipc :: "item gm" where
  "g_lui_auipc s = do {
     (op, s) \<leftarrow> choice [''lui'', ''auipc''] s;
     (x, s) \<leftarrow> getrandbits 20 s;
     (imm, s) \<leftarrow> choice [0, 1, 0xFFFFF, 0x80000, 0x7FFFF, x] s;
     (rd, s) \<leftarrow> wreg p_0_06 s;
     Some (Item [Ins op [Reg rd, Hex imm]] 4, s) }"

definition g_m :: "item gm" where
  "g_m s = do {
     (op, s) \<leftarrow> choice M_OPS s;
     ((a, b), s) \<leftarrow> rpair s;
     (rd, s) \<leftarrow> wreg p_0_06 s;
     Some (Item [Ins op [Reg rd, Reg a, Reg b]] 4, s) }"

definition g_zba :: "item gm" where
  "g_zba s = do {
     (op, s) \<leftarrow> choice ZBA s;
     ((a, b), s) \<leftarrow> rpair s;
     (rd, s) \<leftarrow> wreg p_0_06 s;
     Some (Item [Ins op [Reg rd, Reg a, Reg b]] 4, s) }"

definition g_zbb :: "item gm" where
  "g_zbb s = do {
     (p, s) \<leftarrow> random s;
     if below p p_0_45 then do {
       (op, s) \<leftarrow> choice ZBB_R s;
       ((a, b), s) \<leftarrow> rpair s;
       (rd, s) \<leftarrow> wreg p_0_06 s;
       Some (Item [Ins op [Reg rd, Reg a, Reg b]] 4, s) }
     else if below p p_0_85 then do {
       (op, s) \<leftarrow> choice ZBB_U s;
       (rd, s) \<leftarrow> wreg p_0_06 s;
       (rs, s) \<leftarrow> rreg s;
       Some (Item [Ins op [Reg rd, Reg rs]] 4, s) }
     else do {
       (x, s) \<leftarrow> randnat 0 32 s;
       (sh, s) \<leftarrow> choice [0, 1, 31, x] s;
       (rd, s) \<leftarrow> wreg p_0_06 s;
       (rs, s) \<leftarrow> rreg s;
       Some (Item [Ins ''rori'' [Reg rd, Reg rs, Imm (int sh)]] 4, s) } }"

definition g_zbs :: "item gm" where
  "g_zbs s = do {
     (c, s) \<leftarrow> chance p_0_5 s;
     if c then do {
       (op, s) \<leftarrow> choice ZBS_R s;
       ((a, b), s) \<leftarrow> rpair s;
       (rd, s) \<leftarrow> wreg p_0_06 s;
       Some (Item [Ins op [Reg rd, Reg a, Reg b]] 4, s) }
     else do {
       (op, s) \<leftarrow> choice ZBS_I s;
       (x, s) \<leftarrow> randnat 0 32 s;
       (sh, s) \<leftarrow> choice [0, 31, x] s;
       (rd, s) \<leftarrow> wreg p_0_06 s;
       (rs, s) \<leftarrow> rreg s;
       Some (Item [Ins op [Reg rd, Reg rs, Imm (int sh)]] 4, s) } }"

text \<open>One non-control, non-memory instruction: \<open>getattr(self, "g_" + cat)()\<close> over seven names.\<close>

definition alu_one :: "item gm" where
  "alu_one s = do {
     (cat, s) \<leftarrow> choice [''alu_r'', ''alu_i'', ''m'', ''zba'', ''zbb'', ''zbs'', ''lui_auipc''] s;
     if cat = ''alu_r'' then g_alu_r s
     else if cat = ''alu_i'' then g_alu_i s
     else if cat = ''m'' then g_m s
     else if cat = ''zba'' then g_zba s
     else if cat = ''zbb'' then g_zbb s
     else if cat = ''zbs'' then g_zbs s
     else g_lui_auipc s }"

definition g_li_special :: "item gm" where
  "g_li_special s = do {
     (rd, s) \<leftarrow> wreg p_0_02 s;
     (v, s) \<leftarrow> val s;
     Some (Item (li rd v) 8, s) }"

definition nz32 :: "int list" where
  "nz32 = [i \<leftarrow> [-32..31]. i \<noteq> 0]"

definition g_c_alu :: "item gm" where
  "g_c_alu s = do {
     (k, s) \<leftarrow> randnat 0 16 s;
     if k = 0 then do {
       (rd, s) \<leftarrow> wreg p_0 s;
       (imm, s) \<leftarrow> choice nz32 s;
       Some (Item (rvc (Ins ''c.addi'' [Reg rd, Imm imm])) 2, s) }
     else if k = 1 then do {
       (rd, s) \<leftarrow> wreg p_0 s;
       (imm, s) \<leftarrow> randint (-32) 31 s;
       Some (Item (rvc (Ins ''c.li'' [Reg rd, Imm imm])) 2, s) }
     else if k = 2 then do {
       (rd, s) \<leftarrow> tmp [r \<leftarrow> [1..<32]. r \<noteq> 2] s;
       (imm, s) \<leftarrow> choice nz32 s;
       Some (Item (rvc (Ins ''c.lui'' [Reg rd, Hex (nat (imm mod 2 ^ 20))])) 2, s) }
     else if k = 3 \<and> 2 \<notin> reserved s then do {
       (x, s) \<leftarrow> choice nz32 s;
       Some (Item (rvc (Ins ''c.addi16sp'' [Sp, Imm (16 * x)])) 2, s) }
     else if k = 4 then do {
       (rd, s) \<leftarrow> cw s;
       (x, s) \<leftarrow> randint 1 255 s;
       Some (Item (rvc (Ins ''c.addi4spn'' [Reg rd, Sp, Imm (4 * x)])) 2, s) }
     else if k = 5 \<or> k = 6 then do {
       (rd, s) \<leftarrow> cw s;
       (x, s) \<leftarrow> randint 1 31 s;
       Some (Item (rvc (Ins (if k = 5 then ''c.srli'' else ''c.srai'') [Reg rd, Imm x])) 2, s) }
     else if k = 7 then do {
       (rd, s) \<leftarrow> cw s;
       (x, s) \<leftarrow> randint (-32) 31 s;
       Some (Item (rvc (Ins ''c.andi'' [Reg rd, Imm x])) 2, s) }
     else if k = 8 \<or> k = 9 \<or> k = 10 \<or> k = 11 then do {
       (rd, s) \<leftarrow> cw s;
       (rs, s) \<leftarrow> cr s;
       Some (Item (rvc (Ins ([''c.sub'', ''c.xor'', ''c.or'', ''c.and''] ! (k - 8)) [Reg rd, Reg rs])) 2, s) }
     else if k = 12 then do {
       (rd, s) \<leftarrow> wreg p_0 s;
       (x, s) \<leftarrow> randint 1 31 s;
       Some (Item (rvc (Ins ''c.slli'' [Reg rd, Imm x])) 2, s) }
     else if k = 13 then do {
       (rd, s) \<leftarrow> wreg p_0 s;
       (rs, s) \<leftarrow> randnat 1 32 s;
       Some (Item (rvc (Ins ''c.mv'' [Reg rd, Reg rs])) 2, s) }
     else if k = 14 then do {
       (rd, s) \<leftarrow> wreg p_0 s;
       (rs, s) \<leftarrow> randnat 1 32 s;
       Some (Item (rvc (Ins ''c.add'' [Reg rd, Reg rs])) 2, s) }
     else Some (Item (rvc (Ins ''c.nop'' [])) 2, s) }"

text \<open>The two immediate fields of a CI encoding: bit 12 and bits 6 to 2.\<close>

definition imm6_bits :: "nat \<Rightarrow> nat" where
  "imm6_bits imm6 = (imm6 div 32 mod 2) * 2 ^ 12 + (imm6 mod 32) * 2 ^ 2"

definition hint_enc :: "nat \<Rightarrow> nat \<Rightarrow> nat gm" where
  "hint_enc k imm6 s =
     (if k = 0 then Some (imm6_bits (if imm6 = 0 then 1 else imm6) + 1, s)
      else if k = 1 then do { (r, s) \<leftarrow> wreg p_0 s; Some (r * 2 ^ 7 + 1, s) }
      else if k = 2 then Some (2 * 2 ^ 13 + imm6_bits imm6 + 1, s)
      else if k = 3 then Some (3 * 2 ^ 13 + imm6_bits (if imm6 = 0 then 1 else imm6) + 1, s)
      else if k = 4 then do { (r, s) \<leftarrow> randnat 1 32 s; Some (8 * 2 ^ 12 + r * 2 ^ 2 + 2, s) }
      else if k = 5 then do { (r, s) \<leftarrow> randnat 1 32 s; Some (9 * 2 ^ 12 + r * 2 ^ 2 + 2, s) }
      else if k = 6 then do { (r, s) \<leftarrow> randnat 0 32 s; Some (r * 2 ^ 2 + 2, s) }
      else if k = 7 then do { (r, s) \<leftarrow> wreg p_0 s; Some (r * 2 ^ 7 + 2, s) }
      else if k = 8 then do { (r, s) \<leftarrow> cw s; Some (4 * 2 ^ 13 + (r - 8) * 2 ^ 7 + 1, s) }
      else do { (r, s) \<leftarrow> cw s; Some (4 * 2 ^ 13 + 1 * 2 ^ 10 + (r - 8) * 2 ^ 7 + 1, s) })"

definition g_c_hint :: "item gm" where
  "g_c_hint s = do {
     (k, s) \<leftarrow> randnat 0 10 s;
     (imm6, s) \<leftarrow> randnat 0 64 s;
     (enc, s) \<leftarrow> hint_enc k imm6 s;
     Some (Item [Half enc] 2, s) }"

section \<open>Memory\<close>

definition addr :: "nat \<Rightarrow> int \<Rightarrow> asm list gm" where
  "addr t m s = do {
     (r, s) \<leftarrow> rreg s;
     Some ([Ins ''andi'' [Reg t, Reg r, Imm m], Ins ''add'' [Reg t, Reg t, Reg (base s)]], s) }"

definition mem_addr :: "nat \<Rightarrow> int \<Rightarrow> (asm list \<times> int \<times> nat) gm" where
  "mem_addr t w s = do {
     (ls, s) \<leftarrow> addr t (0x400 - w) s;
     (c, s) \<leftarrow> chance p_0_3 s;
     if c then do {
       (x, s) \<leftarrow> randint (1024 div w) (2047 div w) s;
       Some ((ls @ [Ins ''addi'' [Reg t, Reg t, Imm (-2048)]], w * x, 12), s) }
     else do {
       (x, s) \<leftarrow> randint 0 (1024 div w) s;
       Some ((ls, - w * x, 8), s) } }"

definition g_load :: "item gm" where
  "g_load s = do {
     ((op, w), s) \<leftarrow> choice LOADS s;
     (t, s) \<leftarrow> tmp [1..<32] s;
     ((ls, imm, sz), s) \<leftarrow> mem_addr t w s;
     (rd, s) \<leftarrow> wreg p_0_06 s;
     Some (Item (ls @ [Ins op [Reg rd, Mem imm t]]) (sz + 4), s) }"

definition g_store :: "item gm" where
  "g_store s = do {
     ((op, w), s) \<leftarrow> choice STORES s;
     (t, s) \<leftarrow> tmp [1..<32] s;
     ((ls, imm, sz), s) \<leftarrow> mem_addr t w s;
     (rs, s) \<leftarrow> rreg s;
     Some (Item (ls @ [Ins op [Reg rs, Mem imm t]]) (sz + 4), s) }"

definition g_c_mem :: "item gm" where
  "g_c_mem s = do {
     (k, s) \<leftarrow> randnat 0 4 s;
     if k < 2 then do {
       (t, s) \<leftarrow> cw s;
       (x, s) \<leftarrow> randnat 0 32 s;
       (ls, s) \<leftarrow> addr t 0x37C s;
       if k = 0 then do {
         (rd, s) \<leftarrow> cw s;
         Some (Item (ls @ rvc (Ins ''c.lw'' [Reg rd, Mem (4 * int x) t])) 10, s) }
       else do {
         (rs, s) \<leftarrow> cr s;
         Some (Item (ls @ rvc (Ins ''c.sw'' [Reg rs, Mem (4 * int x) t])) 10, s) } }
     else if 2 \<in> reserved s then g_load s
     else do {
       (x, s) \<leftarrow> randnat 0 64 s;
       (ls, s) \<leftarrow> addr 2 0x2FC s;
       if k = 2 then do {
         (rd, s) \<leftarrow> wreg p_0 s;
         Some (Item (ls @ rvc (Ins ''c.lwsp'' [Reg rd, MemSp (4 * int x)])) 10, s) }
       else do {
         (rs, s) \<leftarrow> rreg s;
         Some (Item (ls @ rvc (Ins ''c.swsp'' [Reg rs, MemSp (4 * int x)])) 10, s) } } }"

definition aqrl :: "string gm" where
  "aqrl s = choice ['''', '''', ''.aq'', ''.rl'', ''.aqrl''] s"

definition g_amo :: "item gm" where
  "g_amo s = do {
     (op, s) \<leftarrow> choice AMOS s;
     (t, s) \<leftarrow> tmp [1..<32] s;
     (ls, s) \<leftarrow> addr t 0x3FC s;
     (aq, s) \<leftarrow> aqrl s;
     (rd, s) \<leftarrow> wreg p_0_06 s;
     (rs, s) \<leftarrow> rreg s;
     Some (Item (ls @ [Ins (op @ ''.w'' @ aq) [Reg rd, Reg rs, MemR t]]) 12, s) }"

text \<open>The instructions between LR and SC: up to three loads or ALU instructions.\<close>

fun lrsc_window :: "nat \<Rightarrow> asm list \<Rightarrow> nat \<Rightarrow> (asm list \<times> nat) gm" where
  "lrsc_window 0 ls sz s = Some ((ls, sz), s)"
| "lrsc_window (Suc n) ls sz s = do {
     (c, s) \<leftarrow> chance p_0_25 s;
     (it, s) \<leftarrow> (if c then g_load s else alu_one s);
     lrsc_window n (ls @ lines it) (sz + isz it) s }"

definition reserve :: "nat \<Rightarrow> gen \<Rightarrow> gen" where
  "reserve r s = s\<lparr>reserved := insert r (reserved s)\<rparr>"

definition unreserve :: "nat set \<Rightarrow> gen \<Rightarrow> gen" where
  "unreserve rs s = s\<lparr>reserved := reserved s - rs\<rparr>"

text \<open>The end of the pair: one SC or two, on the register \<open>sc_reg\<close>.\<close>

definition sc_tail :: "nat \<Rightarrow> nat \<Rightarrow> asm list \<Rightarrow> nat \<Rightarrow> item gm" where
  "sc_tail t sc_reg ls sz s = do {
     (second, s) \<leftarrow> chance p_0_2 s;
     s \<leftarrow> Some (if second then s else unreserve {t, sc_reg} s);
     (aq, s) \<leftarrow> aqrl s;
     (rd, s) \<leftarrow> wreg p_0_06 s;
     (rs, s) \<leftarrow> rreg s;
     ls \<leftarrow> Some (ls @ [Ins (''sc.w'' @ aq) [Reg rd, Reg rs, MemR sc_reg]]);
     sz \<leftarrow> Some (sz + 4);
     if second then do {
       s \<leftarrow> Some (unreserve {t, sc_reg} s);
       (rd, s) \<leftarrow> wreg p_0_06 s;
       (rs, s) \<leftarrow> rreg s;
       Some (Item (ls @ [Ins ''sc.w'' [Reg rd, Reg rs, MemR sc_reg]]) (sz + 4), s) }
     else Some (Item ls sz, s) }"

definition g_lrsc :: "item gm" where
  "g_lrsc s = do {
     (t, s) \<leftarrow> tmp [1..<32] s;
     (ls, s) \<leftarrow> addr t 0x3FC s;
     s \<leftarrow> Some (reserve t s);
     (aq, s) \<leftarrow> aqrl s;
     (rd, s) \<leftarrow> wreg p_0_06 s;
     (n, s) \<leftarrow> randnat 0 4 s;
     ((ls, sz), s) \<leftarrow> lrsc_window n (ls @ [Ins (''lr.w'' @ aq) [Reg rd, MemR t]]) 12 s;
     (c, s) \<leftarrow> chance p_0_25 s;
     ((sc_reg, ls, sz), s) \<leftarrow>
       (if c then do {
          (sc_reg, s) \<leftarrow> tmp [1..<32] s;
          (ls2, s) \<leftarrow> addr sc_reg 0x3FC s;
          Some ((sc_reg, ls @ ls2, sz + 8), reserve sc_reg s) }
        else Some ((t, ls, sz), s));
     sc_tail t sc_reg ls sz s }"

definition g_sc_only :: "item gm" where
  "g_sc_only s = do {
     (t, s) \<leftarrow> tmp [1..<32] s;
     (ls, s) \<leftarrow> addr t 0x3FC s;
     (rd, s) \<leftarrow> wreg p_0_06 s;
     (rs, s) \<leftarrow> rreg s;
     Some (Item (ls @ [Ins ''sc.w'' [Reg rd, Reg rs, MemR t]]) 12, s) }"

section \<open>Control flow\<close>

definition g_branch :: "item gm" where
  "g_branch s = do {
     (op, s) \<leftarrow> choice BRANCHES s;
     (a, s) \<leftarrow> rreg s;
     (c, s) \<leftarrow> chance p_0_15 s;
     (b, s) \<leftarrow> (if c then Some (a, s) else rreg s);
     Some (BranchItem [Ins op [Reg a, Reg b, Lab Hole]] 4 3500, s) }"

definition g_c_branch :: "item gm" where
  "g_c_branch s = do {
     (op, s) \<leftarrow> choice [''c.beqz'', ''c.bnez''] s;
     (r, s) \<leftarrow> cr s;
     Some (BranchItem (rvc (Ins op [Reg r, Lab Hole])) 2 230, s) }"

definition g_jal :: "item gm" where
  "g_jal s = do {
     (rd, s) \<leftarrow> wreg p_0_3 s;
     Some (BranchItem [Ins ''jal'' [Reg rd, Lab Hole]] 4 100000, s) }"

text \<open>\<open>1 in self.reserved or self.chance(0.5)\<close>: the draw happens only when \<open>ra\<close> is free.\<close>

definition plain_jump :: "bool gm" where
  "plain_jump s = (if 1 \<in> reserved s then Some (True, s) else chance p_0_5 s)"

definition g_c_jump :: "item gm" where
  "g_c_jump s = do {
     (c, s) \<leftarrow> plain_jump s;
     if c then Some (BranchItem (rvc (Ins ''c.j'' [Lab Hole])) 2 1800, s)
     else Some (BranchItem (rvc (Ins ''c.jal'' [Lab Hole])) 2 1800, s) }"

definition g_jalr :: "item gm" where
  "g_jalr s = do {
     (t, s) \<leftarrow> tmp [1..<32] s;
     (x, s) \<leftarrow> imm12 s;
     (imm, s) \<leftarrow> choice [0, 0, 4, -4, 2, -2, x - x mod 2] s;
     (d, s) \<leftarrow> choice [0, 0, 1] s;
     (rd, s) \<leftarrow> wreg p_0_25 s;
     Some (BranchItem [Ins ''la'' [Reg t, LabOff Hole imm d], Ins ''jalr'' [Reg rd, Mem imm t]] 12 100000, s) }"

definition g_c_jr :: "item gm" where
  "g_c_jr s = do {
     (t, s) \<leftarrow> tmp [1..<32] s;
     (c, s) \<leftarrow> plain_jump s;
     if c then Some (BranchItem (Ins ''la'' [Reg t, Lab Hole] # rvc (Ins ''c.jr'' [Reg t])) 10 100000, s)
     else Some (BranchItem (Ins ''la'' [Reg t, Lab Hole] # rvc (Ins ''c.jalr'' [Reg t])) 10 100000, s) }"

section \<open>CSRs and fences\<close>

definition g_csr_scratch :: "item gm" where
  "g_csr_scratch s = do {
     (op, s) \<leftarrow> choice [''csrrw'', ''csrrs'', ''csrrc'', ''csrrwi'', ''csrrsi'', ''csrrci''] s;
     (src, s) \<leftarrow> (if endswith op ''i'' then do { (x, s) \<leftarrow> randnat 0 32 s; Some (Imm (int x), s) }
                    else do { (r, s) \<leftarrow> rreg s; Some (Reg r, s) });
     (rd, s) \<leftarrow> wreg p_0_2 s;
     Some (Item [Ins op [Reg rd, Sym ''mscratch'', src]] 4, s) }"

fun alu_window :: "nat \<Rightarrow> asm list \<Rightarrow> nat \<Rightarrow> (asm list \<times> nat) gm" where
  "alu_window 0 ls sz s = Some ((ls, sz), s)"
| "alu_window (Suc n) ls sz s = do {
     (it, s) \<leftarrow> alu_one s;
     alu_window n (ls @ lines it) (sz + isz it) s }"

definition ctr_reads :: "string \<Rightarrow> (string \<times> opnd) list" where
  "ctr_reads ctr = [(''csrrs'', Reg 0), (''csrrc'', Reg 0), (''csrrsi'', Imm 0), (''csrrci'', Imm 0)]"

definition g_csr_counter :: "item gm" where
  "g_csr_counter s = do {
     (c, s) \<leftarrow> chance p_0_2 s;
     if c then do {
       (rd, s) \<leftarrow> wreg p_0_06 s;
       (ctr, s) \<leftarrow> choice COUNTERS_H s;
       Some (Item [Ins ''csrr'' [Reg rd, Sym ctr]] 4, s) }
     else do {
       (ctr, s) \<leftarrow> choice COUNTERS s;
       (a, s) \<leftarrow> tmp [1..<32] s;
       s \<leftarrow> Some ((reserve a s)\<lparr>noread := insert a (noread s)\<rparr>);
       (b, s) \<leftarrow> tmp [1..<32] s;
       ((op1, z1), s) \<leftarrow> choice (ctr_reads ctr) s;
       (n, s) \<leftarrow> randnat 0 4 s;
       ((ls, sz), s) \<leftarrow> alu_window n [Ins op1 [Reg a, Sym ctr, z1]] 4 s;
       s \<leftarrow> Some ((unreserve {a} s)\<lparr>noread := noread s - {a}\<rparr>);
       ((op2, z2), s) \<leftarrow> choice (ctr_reads ctr) s;
       Some (Item (ls @ [Ins op2 [Reg b, Sym ctr, z2], Ins ''sub'' [Reg b, Reg b, Reg a],
                         Ins ''addi'' [Reg a, Reg b, Imm 0]]) (sz + 12), s) } }"

definition g_fence :: "item gm" where
  "g_fence s = do {
     (l, s) \<leftarrow> choice [Ins ''fence'' [], Ins ''fence'' [Sym ''rw'', Sym ''rw''], Ins ''fence.tso'' [],
        Ins ''fence'' [Sym ''i'', Sym ''o''], Ins ''fence.i'' [], Word 0x0100000f,
        Ins ''fence'' [Sym ''r'', Sym ''w'']] s;
     Some (Item [l] 4, s) }"

section \<open>Placing forward labels\<close>

text \<open>
  The item boundaries a branch may jump to: at most eight items ahead, while the
  distance in bytes stays within \<open>maxdist\<close>. \<open>rest\<close> holds the items from
  boundary \<open>t\<close> on.
\<close>

fun cands :: "item list \<Rightarrow> nat \<Rightarrow> nat \<Rightarrow> nat \<Rightarrow> nat \<Rightarrow> nat list" where
  "cands rest t 0 dist md = []"
| "cands rest t (Suc n) dist md =
     (if dist > md then []
      else t # (case rest of [] \<Rightarrow> [] | it # rest' \<Rightarrow> cands rest' (Suc t) n (dist + isz it) md))"

type_synonym marks = "nat \<rightharpoonup> string"

text \<open>The label of boundary \<open>t\<close>: the one it has, the given end label, or a fresh one.\<close>

definition label_at :: "string option \<Rightarrow> nat \<Rightarrow> nat \<Rightarrow> marks \<Rightarrow> (string \<times> marks) gm" where
  "label_at el n t labels s =
     (case labels t of
        Some l \<Rightarrow> Some ((l, labels), s)
      | None \<Rightarrow>
          if t = n \<and> el \<noteq> None then Some ((the el, labels(t \<mapsto> the el)), s)
          else do { (l, s) \<leftarrow> label s; Some ((l, labels(t \<mapsto> l)), s) })"

fun place_labels :: "string option \<Rightarrow> nat \<Rightarrow> nat \<Rightarrow> item list \<Rightarrow> marks \<Rightarrow> marks \<Rightarrow> (marks \<times> marks) gm" where
  "place_labels el n i [] labels targets s = Some ((labels, targets), s)"
| "place_labels el n i (it # rest) labels targets s =
     (if \<not> branch it then place_labels el n (Suc i) rest labels targets s
      else do {
        (t, s) \<leftarrow> choice (cands rest (Suc i) 8 (isz it) (maxdist it)) s;
        ((l, labels), s) \<leftarrow> label_at el n t labels s;
        place_labels el n (Suc i) rest labels (targets(i \<mapsto> l)) s })"

definition label_line :: "marks \<Rightarrow> nat \<Rightarrow> asm list" where
  "label_line labels i = (case labels i of None \<Rightarrow> [] | Some l \<Rightarrow> [Label l])"

fun placed_lines :: "marks \<Rightarrow> marks \<Rightarrow> nat \<Rightarrow> item list \<Rightarrow> asm list" where
  "placed_lines labels targets i [] = []"
| "placed_lines labels targets i (it # rest) =
     label_line labels i
     @ (case targets i of None \<Rightarrow> lines it | Some l \<Rightarrow> map (place l) (lines it))
     @ placed_lines labels targets (Suc i) rest"

definition resolve :: "item list \<Rightarrow> string option \<Rightarrow> asm list gm" where
  "resolve items end_label s = do {
     ((labels, targets), s) \<leftarrow> place_labels end_label (length items) 0 items Map.empty Map.empty s;
     out \<leftarrow> Some (placed_lines labels targets 0 items);
     Some (if labels (length items) \<noteq> None \<and> labels (length items) \<noteq> end_label
           then out @ label_line labels (length items) else out, s) }"

section \<open>Blocks and loops\<close>

fun repeat_items :: "(string \<Rightarrow> item gm) \<Rightarrow> string list \<Rightarrow> nat list \<Rightarrow> nat \<Rightarrow> item list gm" where
  "repeat_items g cats ws 0 s = Some ([], s)"
| "repeat_items g cats ws (Suc n) s = do {
     (c, s) \<leftarrow> choices cats ws s;
     (it, s) \<leftarrow> g c s;
     (its, s) \<leftarrow> repeat_items g cats ws n s;
     Some (it # its, s) }"

definition weight :: "(string \<times> nat) list \<Rightarrow> string \<Rightarrow> nat" where
  "weight w c = (case map_of w c of None \<Rightarrow> 0 | Some n \<Rightarrow> n)"

text \<open>\<open>block\<close>, over the method table \<open>g\<close>.\<close>

definition block_with :: "(string \<Rightarrow> item gm) \<Rightarrow> nat \<Rightarrow> item list gm" where
  "block_with g n s =
     (let cats = [c \<leftarrow> CATS. weight (weights s) c > 0]
      in repeat_items g cats (map (weight (weights s)) cats) n s)"

text \<open>The rest of \<open>g_loop\<close> once the body is made: its labels, the counter and the backward branch.\<close>

definition loop_close :: "nat \<Rightarrow> nat \<Rightarrow> item list \<Rightarrow> item gm" where
  "loop_close c n body s = do {
     (top, s) \<leftarrow> label s;
     (cont, s) \<leftarrow> label s;
     (ls, s) \<leftarrow> resolve body (Some cont) s;
     ls \<leftarrow> Some (li c n @ [Label top] @ ls @ [Label cont, Ins ''addi'' [Reg c, Reg c, Imm (-1)]]);
     body_size \<leftarrow> Some (sum_list (map isz body) + 4);
     (short, s) \<leftarrow> (if 8 \<le> c \<and> c \<le> 15 \<and> body_size < 200 then chance p_0_5 s else Some (False, s));
     if short then
       Some (Item (ls @ rvc (Ins ''c.bnez'' [Reg c, Lab (To top)])) (8 + body_size + 2), s)
     else do {
       (l, s) \<leftarrow> choice [Ins ''bnez'' [Reg c, Lab (To top)], Ins ''blt'' [Reg 0, Reg c, Lab (To top)],
                         Ins ''bne'' [Reg c, Reg 0, Lab (To top)], Ins ''bltu'' [Reg 0, Reg c, Lab (To top)]] s;
       Some (Item (ls @ [l]) (8 + body_size + 4), s) } }"

definition g_loop_with :: "(string \<Rightarrow> item gm) \<Rightarrow> item gm" where
  "g_loop_with g s =
     (if in_loop s then alu_one s
      else do {
        (c, s) \<leftarrow> tmp [3..<32] s;
        (n, s) \<leftarrow> randnat 1 7 s;
        s \<leftarrow> Some (reserve c s);
        s \<leftarrow> Some (s\<lparr>in_loop := True\<rparr>);
        (k, s) \<leftarrow> randnat 1 11 s;
        (body, s) \<leftarrow> block_with g k s;
        s \<leftarrow> Some (s\<lparr>in_loop := False\<rparr>);
        s \<leftarrow> Some (unreserve {c} s);
        loop_close c n body s })"

text \<open>\<open>getattr(self, "g_" + cat)()\<close>; an unknown name raises. The depth counts nested loops.\<close>

primrec g_cat :: "nat \<Rightarrow> string \<Rightarrow> item gm" where
  "g_cat 0 cat s = None"
| "g_cat (Suc d) cat s =
     (if cat = ''alu_r'' then g_alu_r s
      else if cat = ''alu_i'' then g_alu_i s
      else if cat = ''lui_auipc'' then g_lui_auipc s
      else if cat = ''m'' then g_m s
      else if cat = ''zba'' then g_zba s
      else if cat = ''zbb'' then g_zbb s
      else if cat = ''zbs'' then g_zbs s
      else if cat = ''li_special'' then g_li_special s
      else if cat = ''c_alu'' then g_c_alu s
      else if cat = ''c_hint'' then g_c_hint s
      else if cat = ''load'' then g_load s
      else if cat = ''store'' then g_store s
      else if cat = ''c_mem'' then g_c_mem s
      else if cat = ''amo'' then g_amo s
      else if cat = ''lrsc'' then g_lrsc s
      else if cat = ''sc_only'' then g_sc_only s
      else if cat = ''branch'' then g_branch s
      else if cat = ''c_branch'' then g_c_branch s
      else if cat = ''jal'' then g_jal s
      else if cat = ''c_jump'' then g_c_jump s
      else if cat = ''jalr'' then g_jalr s
      else if cat = ''c_jr'' then g_c_jr s
      else if cat = ''loop'' then g_loop_with (g_cat d) s
      else if cat = ''csr_scratch'' then g_csr_scratch s
      else if cat = ''csr_counter'' then g_csr_counter s
      else if cat = ''fence'' then g_fence s
      else None)"

definition block :: "nat \<Rightarrow> item list gm" where
  "block n s = block_with (g_cat 2) n s"

definition g_loop :: "item gm" where
  "g_loop s = g_loop_with (g_cat 1) s"

section \<open>Terminators and whole programs\<close>

definition misaligned_off :: "int \<Rightarrow> int gm" where
  "misaligned_off w s = do {
     (x, s) \<leftarrow> randint (-100) 100 s;
     (y, s) \<leftarrow> randrange 1 w s;
     Some (w * x + y, s) }"

definition fault_end :: "nat \<Rightarrow> nat \<Rightarrow> nat \<Rightarrow> nat \<Rightarrow> nat \<Rightarrow> asm list gm" where
  "fault_end k b t rd rs s =
     (if k = 0 then do {
        ((op, w), s) \<leftarrow> choice [(''lw'', 4), (''lh'', 2), (''lhu'', 2)] s;
        (off, s) \<leftarrow> misaligned_off w s;
        Some ([Ins op [Reg rd, Mem off b]], s) }
      else if k = 1 then do {
        ((op, w), s) \<leftarrow> choice [(''sw'', 4), (''sh'', 2)] s;
        (off, s) \<leftarrow> misaligned_off w s;
        Some ([Ins op [Reg rs, Mem off b]], s) }
      else if k = 2 then do {
        (l, s) \<leftarrow> choice [Ins ''amoadd.w'' [Reg rd, Reg rs, MemR t], Ins ''amoswap.w'' [Reg rd, Reg rs, MemR t],
                          Ins ''lr.w'' [Reg rd, MemR t], Ins ''sc.w'' [Reg rd, Reg rs, MemR t]] s;
        (i, s) \<leftarrow> choice [1, 2, 3, -1, -2, 6] s;
        Some ([Ins ''addi'' [Reg t, Reg b, Imm i], l], s) }
      else do {
        (x, s) \<leftarrow> randint 0x50 0xFFFFF s;
        (hi, s) \<leftarrow> choice [0x50, 0x51, 0x60, 0x80000, 0xFFFFF, nat x] s;
        if k = 3 then do {
          (op, s) \<leftarrow> choice [''lb'', ''lbu'', ''lh'', ''lhu'', ''lw''] s;
          (i, s) \<leftarrow> choice [0, 4, 8, 2047] s;
          Some ([Ins ''lui'' [Reg t, Hex hi], Ins op [Reg rd, Mem i t]], s) }
        else if k = 4 then do {
          (op, s) \<leftarrow> choice [''sb'', ''sh'', ''sw''] s;
          (i, s) \<leftarrow> choice [0, 4, 8] s;
          Some ([Ins ''lui'' [Reg t, Hex hi], Ins op [Reg rs, Mem i t]], s) }
        else if k = 5 then do {
          (l, s) \<leftarrow> choice [Ins ''amoor.w'' [Reg rd, Reg rs, MemR t], Ins ''lr.w'' [Reg rd, MemR t],
                            Ins ''sc.w'' [Reg rd, Reg rs, MemR t]] s;
          Some ([Ins ''lui'' [Reg t, Hex hi], l], s) }
        else if k = 6 then do {
          (i, s) \<leftarrow> choice [0, 2, 4] s;
          Some ([Ins ''lui'' [Reg t, Hex hi], Ins ''jalr'' [Reg rd, Mem i t]], s) }
        else if k = 7 then do {
          (l, s) \<leftarrow> choice [Ins ''csrrw'' [Reg rd, Sym ''cycle'', Reg rs], Ins ''csrrwi'' [Reg 0, Sym ''instret'', Imm 0],
                            Ins ''csrrsi'' [Reg rd, Sym ''cycleh'', Imm 1],
                            Ins ''csrrc'' [Reg rd, Sym ''instreth'', Reg (max rs 1)]] s;
          Some ([l], s) }
        else if k = 8 then do {
          (l, s) \<leftarrow> choice [Ins ''csrrs'' [Reg rd, Hex 0x7c0, Reg 0], Ins ''csrr'' [Reg rd, Sym ''hpmcounter3''],
                            Ins ''csrr'' [Reg rd, Hex 0x8ff]] s;
          Some ([l], s) }
        else if k = 9 then do { (e, s) \<leftarrow> choice RESERVED_32 s; Some ([Word e], s) }
        else if k = 10 then do { (e, s) \<leftarrow> choice RESERVED_16 s; Some ([Half e], s) }
        else Some ([Ins ''ecall'' []], s) })"

definition terminator :: "asm list gm" where
  "terminator s = do {
     (c, s) \<leftarrow> chance p_0_7 s;
     if c then choice [[Ins ''ebreak'' []], [Ins ''ebreak'' []], [Ins ''ebreak'' []], [Ins ''ecall'' []],
                       [OptRvc, Ins ''c.ebreak'' [], OptNorvc]] s
     else do {
       (t, s) \<leftarrow> tmp [1..<32] s;
       (rd, s) \<leftarrow> wreg p_0_06 s;
       (rs, s) \<leftarrow> rreg s;
       (k, s) \<leftarrow> randnat 0 12 s;
       fault_end k (base s) t rd rs s } }"

fun li_regs :: "nat list \<Rightarrow> asm list gm" where
  "li_regs [] s = Some ([], s)"
| "li_regs (r # rs) s = do {
     (v, s) \<leftarrow> val s;
     (ls, s) \<leftarrow> li_regs rs s;
     Some (li r v @ ls, s) }"

fun vals :: "nat \<Rightarrow> nat list gm" where
  "vals 0 s = Some ([], s)"
| "vals (Suc n) s = do { (v, s) \<leftarrow> val s; (vs, s) \<leftarrow> vals n s; Some (v # vs, s) }"

definition prologue_lines :: "asm list gm" where
  "prologue_lines s = do {
     (ls, s) \<leftarrow> li_regs [1..<32] s;
     (r, s) \<leftarrow> randnat 1 32 s;
     Some (Comment ''prologue: randomize all registers and mscratch'' # ls
           @ [Ins ''csrw'' [Sym ''mscratch'', Reg r]] @ li (base s) 0
           @ [Ins ''la'' [Reg (base s), Sym ''data_region+1024'']], s) }"

text \<open>The body and the data words of \<open>program(n_items)\<close>.\<close>

definition program_parts :: "nat \<Rightarrow> (asm list \<times> asm list \<times> asm list \<times> nat list) gm" where
  "program_parts n_items s = do {
     (pro, s) \<leftarrow> prologue_lines s;
     (items, s) \<leftarrow> block n_items s;
     (body, s) \<leftarrow> resolve items None s;
     (fin, s) \<leftarrow> terminator s;
     (data, s) \<leftarrow> vals (DATA_SIZE div 4) s;
     Some ((pro, body, fin, data), s) }"

definition program :: "nat \<Rightarrow> gen \<Rightarrow> string option" where
  "program n_items s = do {
     ((pro, body, fin, data), s) \<leftarrow> program_parts n_items s;
     assemble_program (map render (pro @ body @ fin)) data }"

end
