(* ===== verification/Gen_Contract.thy ===== *)
theory Gen_Contract
  imports Gen
begin

text \<open>
  The contract that every category of the generator meets, and the proof that it
  does: an item's declared size is the size of its lines, it writes no reserved
  register, its accesses stay in the data region, LR/SC pairs are undisturbed,
  only branch items have an open target, and the labels it defines are fresh.
\<close>

section \<open>The helpers\<close>

text \<open>At most \<open>k\<close> registers are reserved, BASE among them, and at most one is not to be read.\<close>

definition room :: "nat \<Rightarrow> gen \<Rightarrow> bool" where
  "room k s \<longleftrightarrow> finite (reserved s) \<and> card (reserved s) \<le> k \<and> finite (noread s) \<and> card (noread s) \<le> 1
     \<and> base s \<in> reserved s \<and> base s \<noteq> 0 \<and> 0 \<notin> reserved s \<and> noread s \<subseteq> reserved s"

lemma room_pos [simp]: "room k (s\<lparr>pos := q\<rparr>) = room k s"
  by (simp add: room_def)

lemma room_mono: "room k s \<Longrightarrow> k \<le> k' \<Longrightarrow> room k' s"
  by (simp add: room_def)

lemma room_reserve [simp]: "room k s \<Longrightarrow> r \<noteq> 0 \<Longrightarrow> room (Suc k) (reserve r s)"
  by (auto simp: room_def reserve_def card_insert_if)

lemma free_register:
  assumes "finite R" "card R < length xs" "distinct xs"
  shows "[r \<leftarrow> xs. r \<notin> R] \<noteq> []"
proof
  assume "[r \<leftarrow> xs. r \<notin> R] = []"
  then have "set xs \<subseteq> R" by (auto simp: filter_empty_conv)
  then have "card (set xs) \<le> card R" using assms(1) by (rule card_mono [rotated])
  with assms(2,3) show False by (simp add: distinct_card)
qed

lemma ok_chance [wp_intro]: "(\<And>b q. Q b (s\<lparr>pos := q\<rparr>)) \<Longrightarrow> ok (chance p s) Q"
  unfolding chance_def by (auto intro!: wp_intro)

lemma ok_chance_0 [wp_intro]: "(\<And>q. Q False (s\<lparr>pos := q\<rparr>)) \<Longrightarrow> ok (chance p_0 s) Q"
  unfolding chance_def by (auto intro!: wp_intro simp: below_def p_0_def)

lemma ok_imm12 [wp_intro]:
  "(\<And>i q. -2048 \<le> i \<Longrightarrow> i \<le> 2047 \<Longrightarrow> Q i (s\<lparr>pos := q\<rparr>)) \<Longrightarrow> ok (imm12 s) Q"
  unfolding imm12_def by (auto intro!: wp_intro simp: IMM_SPECIAL_def)

lemma ok_tmp:
  assumes "room 4 s" "5 < length [r \<leftarrow> xs. r \<noteq> 0]" "distinct xs"
    and "\<And>r q. r \<in> set xs \<Longrightarrow> r \<noteq> 0 \<Longrightarrow> r \<notin> reserved s \<Longrightarrow> Q r (s\<lparr>pos := q\<rparr>)"
  shows "ok (tmp xs s) Q"
proof -
  have "[r \<leftarrow> [r \<leftarrow> xs. r \<noteq> 0]. r \<notin> reserved s] \<noteq> []"
    using assms(1-3) by (intro free_register) (auto simp: room_def)
  with assms(4) show ?thesis
    unfolding tmp_def by (auto intro!: wp_intro simp: conj_commute)
qed

lemma ok_tmp_any [wp_intro]:
  assumes "room 4 s" "\<And>r q. r < 32 \<Longrightarrow> r \<noteq> 0 \<Longrightarrow> r \<notin> reserved s \<Longrightarrow> Q r (s\<lparr>pos := q\<rparr>)"
  shows "ok (tmp [1..<32] s) Q"
  by (rule ok_tmp) (use assms in \<open>auto simp: upt_rec\<close>)

lemma ok_tmp_loop [wp_intro]:
  assumes "room 4 s" "\<And>r q. 3 \<le> r \<Longrightarrow> r < 32 \<Longrightarrow> r \<notin> reserved s \<Longrightarrow> Q r (s\<lparr>pos := q\<rparr>)"
  shows "ok (tmp [3..<32] s) Q"
  by (rule ok_tmp) (use assms in \<open>auto simp: upt_rec\<close>)

lemma ok_tmp_lui [wp_intro]:
  assumes "room 4 s" "\<And>r q. r < 32 \<Longrightarrow> r \<notin> reserved s \<Longrightarrow> Q r (s\<lparr>pos := q\<rparr>)"
  shows "ok (tmp [r \<leftarrow> [1..<32]. r \<noteq> 2] s) Q"
  by (rule ok_tmp) (use assms in \<open>auto simp: upt_rec\<close>)

lemma ok_cw [wp_intro]:
  assumes "room 4 s"
    and "\<And>r q. 8 \<le> r \<Longrightarrow> r < 16 \<Longrightarrow> r \<notin> reserved s \<Longrightarrow> Q r (s\<lparr>pos := q\<rparr>)"
  shows "ok (cw s) Q"
  unfolding cw_def by (rule ok_tmp) (use assms in \<open>auto simp: upt_rec\<close>)

lemma ok_wreg [wp_intro]:
  assumes "room 4 s"
    and "\<And>r q. r < 32 \<Longrightarrow> r \<notin> reserved s \<Longrightarrow> Q r (s\<lparr>pos := q\<rparr>)"
  shows "ok (wreg p s) Q"
proof -
  have "[r \<leftarrow> [1..<32]. r \<notin> reserved s] \<noteq> []"
    using assms(1) by (intro free_register) (auto simp: room_def)
  with assms show ?thesis
    unfolding wreg_def by (auto intro!: wp_intro simp: room_def)
qed

lemma ok_rreg [wp_intro]:
  assumes "room 4 s"
    and "\<And>r q. r < 32 \<Longrightarrow> r \<notin> noread s \<Longrightarrow> Q r (s\<lparr>pos := q\<rparr>)"
  shows "ok (rreg s) Q"
proof -
  have "[r \<leftarrow> [1..<32]. r \<notin> noread s] \<noteq> []"
    using assms(1) by (intro free_register) (auto simp: room_def)
  moreover have "0 \<notin> noread s" using assms(1) by (auto simp: room_def)
  ultimately show ?thesis
    unfolding rreg_def using assms(2) by (auto intro!: wp_intro)
qed

lemma ok_cr [wp_intro]:
  assumes "room 4 s"
    and "\<And>r q. r < 16 \<Longrightarrow> r \<notin> noread s \<Longrightarrow> Q r (s\<lparr>pos := q\<rparr>)"
  shows "ok (cr s) Q"
proof -
  have "[r \<leftarrow> [8..<16]. r \<notin> noread s] \<noteq> []"
    using assms(1) by (intro free_register) (auto simp: room_def)
  with assms show ?thesis
    unfolding cr_def by (auto intro!: wp_intro)
qed

lemma ok_rpair [wp_intro]:
  assumes "room 4 s"
    and "\<And>a b q. a \<notin> noread s \<Longrightarrow> b \<notin> noread s \<Longrightarrow> Q (a, b) (s\<lparr>pos := q\<rparr>)"
  shows "ok (rpair s) Q"
  unfolding rpair_def using assms by (auto intro!: wp_intro)

definition aqrls :: "string list" where
  "aqrls = ['''', ''.aq'', ''.rl'', ''.aqrl'']"

lemma ok_aqrl [wp_intro]:
  "(\<And>a q. a \<in> set aqrls \<Longrightarrow> Q a (s\<lparr>pos := q\<rparr>)) \<Longrightarrow> ok (aqrl s) Q"
  unfolding aqrl_def by (auto intro!: wp_intro simp: aqrls_def)

lemma ok_label [wp_intro]:
  "Q (''L'' @ dec_nat (Suc (nlabel s))) (s\<lparr>nlabel := Suc (nlabel s)\<rparr>) \<Longrightarrow> ok (label s) Q"
  by (simp add: label_def Let_def)

lemma ok_val [wp_intro]:
  assumes "\<And>v q. v < 2 ^ 32 \<Longrightarrow> Q v (s\<lparr>pos := q\<rparr>)"
  shows "ok (val s) Q"
proof -
  have pow: "(2 :: nat) ^ n < 2 ^ 32" if "n < 32" for n using that by (rule power_strict_increasing) simp
  have neg: "nat ((- (2 ^ n)) mod 2 ^ 32) < 2 ^ 32" "nat ((- (2 ^ n) - 1) mod 2 ^ 32) < 2 ^ 32" for n :: nat
    by (simp_all add: nat_less_iff)
  show ?thesis unfolding val_def
    using assms pow neg by (auto intro!: wp_intro simp: SPECIAL_def nat_less_iff less_imp_diff_less)
qed


section \<open>What a line may do\<close>

definition is_label :: "asm \<Rightarrow> bool" where
  "is_label l = (case l of Label _ \<Rightarrow> True | _ \<Rightarrow> False)"

fun label_defs :: "asm list \<Rightarrow> string list" where
  "label_defs [] = []"
| "label_defs (Label l # ls) = l # label_defs ls"
| "label_defs (_ # ls) = label_defs ls"

lemma label_defs_append [simp]: "label_defs (ls @ ms) = label_defs ls @ label_defs ms"
  by (induction ls rule: label_defs.induct) simp_all

lemma label_defs_no_label: "list_all (\<lambda>l. \<not> is_label l) ls \<Longrightarrow> label_defs ls = []"
  by (induction ls rule: label_defs.induct) (simp_all add: is_label_def)

definition is_lr :: "asm \<Rightarrow> bool" where
  "is_lr l = (case l of Ins m _ \<Rightarrow> startswith m ''lr.w'' | _ \<Rightarrow> False)"

definition is_sc :: "asm \<Rightarrow> bool" where
  "is_sc l = (case l of Ins m _ \<Rightarrow> startswith m ''sc.w'' | _ \<Rightarrow> False)"

text \<open>A plain store or an AMO, which would drop the reservation, or a jump, a label or a stop.\<close>

definition disturbs :: "asm \<Rightarrow> bool" where
  "disturbs l = (is_label l \<or> is_ctrl l \<or>
     (case l of Ins m _ \<Rightarrow> m \<in> set stores \<or> startswith m ''amo'' | _ \<Rightarrow> False))"

text \<open>Every LR has an SC behind it, with nothing in between that disturbs the reservation.\<close>

fun lrsc_ok :: "asm list \<Rightarrow> bool" where
  "lrsc_ok [] = True"
| "lrsc_ok (l # ls) =
     ((is_lr l \<longrightarrow> list_ex is_sc ls \<and> list_all (\<lambda>x. \<not> disturbs x) (takeWhile (\<lambda>x. \<not> is_sc x) ls)) \<and> lrsc_ok ls)"

lemma lrsc_ok_append: "lrsc_ok ls \<Longrightarrow> lrsc_ok ms \<Longrightarrow> lrsc_ok (ls @ ms)"
proof (induction ls)
  case (Cons l ls)
  show ?case
  proof (cases "is_lr l")
    case True
    with Cons.prems obtain x where "x \<in> set ls" "is_sc x" by (auto simp: list_ex_iff)
    then have "takeWhile (\<lambda>x. \<not> is_sc x) (ls @ ms) = takeWhile (\<lambda>x. \<not> is_sc x) ls"
      by (simp add: takeWhile_append1)
    with Cons True show ?thesis by simp
  qed (use Cons in simp)
qed simp

lemma lrsc_ok_no_lr: "list_all (\<lambda>l. \<not> is_lr l) ls \<Longrightarrow> lrsc_ok ls"
  by (induction ls) simp_all

section \<open>Safe code\<close>

text \<open>
  Code that may be entered at any of its labels: it splits into chunks, each a
  single label or label-free straight-line code that is safe and keeps BASE.
\<close>

definition chunk_ok :: "nat \<Rightarrow> asm list \<Rightarrow> bool" where
  "chunk_ok b c \<longleftrightarrow> mem_safe b c \<and> b \<notin> writes c \<and>
     (list_all (\<lambda>l. \<not> is_label l) c \<or> length c = 1)"

definition safe_code :: "nat \<Rightarrow> asm list \<Rightarrow> bool" where
  "safe_code b ls \<longleftrightarrow> (\<exists>cs. ls = concat cs \<and> list_all (chunk_ok b) cs)"

lemma safe_code_append: "safe_code b ls \<Longrightarrow> safe_code b ms \<Longrightarrow> safe_code b (ls @ ms)"
  unfolding safe_code_def by (metis concat_append list_all_append)

lemma safe_code_Nil [simp]: "safe_code b []"
  unfolding safe_code_def by (rule exI [of _ "[]"]) simp

lemma safe_code_chunk: "chunk_ok b c \<Longrightarrow> safe_code b c"
  unfolding safe_code_def by (rule exI [of _ "[c]"]) simp

lemma safe_code_label: "safe_code b [Label l]"
  by (rule safe_code_chunk) (simp add: chunk_ok_def mem_safe_def)

section \<open>The contract\<close>

definition frame :: "gen \<Rightarrow> gen \<Rightarrow> bool" where
  "frame s s' \<longleftrightarrow> reserved s' = reserved s \<and> noread s' = noread s \<and> base s' = base s \<and>
     weights s' = weights s \<and> in_loop s' = in_loop s \<and> nlabel s \<le> nlabel s'"

lemma frame_pos [simp]: "frame s (s\<lparr>pos := q\<rparr>)"
  by (simp add: frame_def)

lemma frame_refl [simp]: "frame s s"
  by (simp add: frame_def)

lemma frame_trans: "frame s s1 \<Longrightarrow> frame s1 s2 \<Longrightarrow> frame s s2"
  by (simp add: frame_def)

lemma frame_room: "frame s s' \<Longrightarrow> room k s' = room k s"
  by (simp add: frame_def room_def)

text \<open>The labels \<open>L{n}\<close> with a number in \<open>(lo, hi]\<close>.\<close>

definition labels_in :: "nat \<Rightarrow> nat \<Rightarrow> string set" where
  "labels_in lo hi = (\<lambda>n. ''L'' @ dec_nat n) ` {lo <.. hi}"

text \<open>
  \<open>good s it s'\<close>: what a category called in state \<open>s\<close> and ending in \<open>s'\<close> promises
  of its item.
\<close>

definition good :: "gen \<Rightarrow> item \<Rightarrow> gen \<Rightarrow> bool" where
  "good s it s' \<longleftrightarrow>
     isz it = lines_size (lines it)
     \<and> (in_loop s \<longrightarrow> isz it \<le> 80)
     \<and> writes (lines it) \<inter> reserved s = {}
     \<and> safe_code (base s) (lines it)
     \<and> lrsc_ok (lines it)
     \<and> (branch it \<longrightarrow> isz it \<le> maxdist it \<and> list_all (\<lambda>l. \<not> is_label l) (lines it)
          \<and> (\<forall>l \<in> set (lines it). set (refs l) \<subseteq> {Hole} \<and> (\<forall>d. 0 \<le> d \<and> d \<le> int (maxdist it) \<longrightarrow> reach l d)))
     \<and> (\<not> branch it \<longrightarrow> in_range (lines it))
     \<and> distinct (label_defs (lines it))
     \<and> set (label_defs (lines it)) \<subseteq> labels_in (nlabel s) (nlabel s')"

text \<open>The contract of a category that runs in the states satisfying \<open>pre\<close>.\<close>

definition contract :: "(gen \<Rightarrow> bool) \<Rightarrow> item gm \<Rightarrow> bool" where
  "contract pre g \<longleftrightarrow> (\<forall>s. pre s \<longrightarrow> ok (g s) (\<lambda>it s'. frame s s' \<and> good s it s'))"

lemma contractI: "(\<And>s. pre s \<Longrightarrow> ok (g s) (\<lambda>it s'. frame s s' \<and> good s it s')) \<Longrightarrow> contract pre g"
  by (simp add: contract_def)

lemma contractD: "contract pre g \<Longrightarrow> pre s \<Longrightarrow> ok (g s) (\<lambda>it s'. frame s s' \<and> good s it s')"
  by (simp add: contract_def)

text \<open>Label-free items with no reservation: the common case.\<close>

lemma good_plain:
  assumes "isz it = lines_size (lines it)" "writes (lines it) \<inter> reserved s = {}"
    and "mem_safe (base s) (lines it)" "base s \<in> reserved s"
    and "list_all (\<lambda>l. \<not> is_label l) (lines it)" "lrsc_ok (lines it)"
    and "isz it \<le> 80"
    and "branch it \<Longrightarrow> isz it \<le> maxdist it \<and> (\<forall>l \<in> set (lines it). set (refs l) \<subseteq> {Hole}
       \<and> (\<forall>d. 0 \<le> d \<and> d \<le> int (maxdist it) \<longrightarrow> reach l d))"
    and "\<not> branch it \<Longrightarrow> (\<forall>l \<in> set (lines it). refs l = [])"
  shows "good s it s'"
proof -
  have "safe_code (base s) (lines it)"
    using assms(2-5) by (intro safe_code_chunk) (auto simp: chunk_ok_def)
  moreover have "\<not> branch it \<Longrightarrow> in_range (lines it)"
    using assms(9) by (intro in_range_no_refs) auto
  ultimately show ?thesis using assms label_defs_no_label [OF assms(5)] by (auto simp: good_def)
qed


section \<open>Instructions that only write their destination\<close>

definition plain :: "string \<Rightarrow> bool" where
  "plain m \<longleftrightarrow> m \<notin> set stores \<and> m \<notin> set branches \<and> m \<notin> set stops \<and> m \<notin> set jumps
     \<and> m \<noteq> ''c.nop'' \<and> m \<noteq> ''csrw'' \<and> m \<noteq> ''la'' \<and> \<not> startswith m ''fence'' \<and> width m = 0
     \<and> \<not> startswith m ''lr.w'' \<and> \<not> startswith m ''amo''"

definition alu_mnemonics :: "string list" where
  "alu_mnemonics = ALU_R @ ALU_I @ SHIFT_I @ M_OPS @ ZBA @ ZBB_R @ ZBB_U @ ZBS_R @ ZBS_I
     @ [''rori'', ''lui'', ''auipc'']"

definition c_mnemonics :: "string list" where
  "c_mnemonics = [''c.addi'', ''c.li'', ''c.lui'', ''c.addi16sp'', ''c.addi4spn'', ''c.srli'', ''c.srai'', ''c.andi'',
     ''c.sub'', ''c.xor'', ''c.or'', ''c.and'', ''c.slli'', ''c.mv'', ''c.add'']"

definition csr_mnemonics :: "string list" where
  "csr_mnemonics = [''csrrw'', ''csrrs'', ''csrrc'', ''csrrwi'', ''csrrsi'', ''csrrci'', ''csrr'']"

lemmas alu_tables = ALU_R_def ALU_I_def SHIFT_I_def M_OPS_def ZBA_def ZBB_R_def ZBB_U_def ZBS_R_def ZBS_I_def

lemma alu_plain: "m \<in> set alu_mnemonics \<Longrightarrow> plain m \<and> \<not> startswith m ''c.''"
proof -
  have "list_all (\<lambda>m. plain m \<and> \<not> startswith m ''c.'') alu_mnemonics"
    by code_simp
  then show "m \<in> set alu_mnemonics \<Longrightarrow> plain m \<and> \<not> startswith m ''c.''" by (simp add: list_all_iff)
qed

lemma csr_plain: "m \<in> set csr_mnemonics \<Longrightarrow> plain m \<and> \<not> startswith m ''c.''"
proof -
  have "list_all (\<lambda>m. plain m \<and> \<not> startswith m ''c.'') csr_mnemonics" by code_simp
  then show "m \<in> set csr_mnemonics \<Longrightarrow> plain m \<and> \<not> startswith m ''c.''" by (simp add: list_all_iff)
qed

lemma c_plain: "m \<in> set c_mnemonics \<Longrightarrow> plain m \<and> startswith m ''c.''"
proof -
  have "list_all (\<lambda>m. plain m \<and> startswith m ''c.'') c_mnemonics" by code_simp
  then show "m \<in> set c_mnemonics \<Longrightarrow> plain m \<and> startswith m ''c.''" by (simp add: list_all_iff)
qed

lemma plain_dest:
  "plain m \<Longrightarrow> dest (Ins m (Reg r # ops)) = Some r" "plain m \<Longrightarrow> dest (Ins m (Sp # ops)) = Some 2"
  by (auto simp: plain_def jumps_def)

lemma plain_width [simp]: "plain m \<Longrightarrow> width m = 0"
  by (simp add: plain_def)

lemma plain_lr: "plain m \<Longrightarrow> \<not> is_lr (Ins m ops)"
  by (simp add: plain_def is_lr_def)

lemma plain_quiet: "plain m \<Longrightarrow> \<not> disturbs (Ins m ops)"
  by (simp add: plain_def disturbs_def is_label_def is_ctrl_def)

lemma directive_simps [simp]:
  "\<not> is_lr OptRvc" "\<not> is_lr OptNorvc" "\<not> is_lr (Label l)" "\<not> is_lr (Half e)" "\<not> is_lr (Word e)"
  "\<not> is_sc OptRvc" "\<not> is_sc OptNorvc" "\<not> is_sc (Label l)" "\<not> is_sc (Half e)" "\<not> is_sc (Word e)"
  "\<not> is_label OptRvc" "\<not> is_label OptNorvc" "is_label (Label l)" "\<not> is_label (Half e)" "\<not> is_label (Word e)"
  "\<not> is_label (Ins m ops)"
  by (simp_all add: is_lr_def is_sc_def is_label_def)

lemma good_ins:
  assumes "plain m" "\<not> startswith m ''c.''" "r \<notin> reserved s" "base s \<in> reserved s" "concat (map op_refs ops) = []"
  shows "good s (Item [Ins m (Reg r # ops)] 4) s'"
proof (rule good_plain)
  have "isize m = 4" using assms(1,2) by (simp add: isize_def plain_def)
  then show "isz (Item [Ins m (Reg r # ops)] 4) = lines_size (lines (Item [Ins m (Reg r # ops)] 4))"
    by (simp add: Item_def)
  show "mem_safe (base s) (lines (Item [Ins m (Reg r # ops)] 4))"
    by (rule no_access_safe) (use assms(1) in \<open>auto simp: Item_def\<close>)
qed (use assms in \<open>auto simp: Item_def plain_dest plain_lr\<close>)

lemma good_rvc:
  assumes "plain m" "startswith m ''c.''" "set_option (dest (Ins m ops)) \<inter> reserved s = {}"
    and "base s \<in> reserved s" "concat (map op_refs ops) = []"
  shows "good s (Item (rvc (Ins m ops)) 2) s'"
proof (rule good_plain)
  have "isize m = 2" using assms(2) by (simp add: isize_def)
  then show "isz (Item (rvc (Ins m ops)) 2) = lines_size (lines (Item (rvc (Ins m ops)) 2))"
    by (simp add: Item_def rvc_def)
  show "mem_safe (base s) (lines (Item (rvc (Ins m ops)) 2))"
    by (rule no_access_safe) (use assms(1) in \<open>auto simp: Item_def rvc_def\<close>)
qed (use assms in \<open>auto simp: Item_def rvc_def plain_lr simp del: dest.simps(1)\<close>)

section \<open>ALU categories\<close>

text \<open>
  What an LR/SC window or a counter delta may contain: one plain instruction of
  four bytes that reads no register of \<open>noread\<close>.
\<close>

definition alu_item :: "gen \<Rightarrow> item \<Rightarrow> bool" where
  "alu_item s it \<longleftrightarrow> (\<exists>m r ops. it = Item [Ins m (Reg r # ops)] 4 \<and> plain m \<and> \<not> startswith m ''c.''
     \<and> r \<notin> reserved s \<and> concat (map op_refs ops) = [] \<and> set (concat (map op_regs ops)) \<inter> noread s = {})"

lemma alu_itemI:
  "m \<in> set alu_mnemonics \<Longrightarrow> r \<notin> reserved s \<Longrightarrow> concat (map op_refs ops) = [] \<Longrightarrow>
   set (concat (map op_regs ops)) \<inter> noread s = {} \<Longrightarrow> alu_item s (Item [Ins m (Reg r # ops)] 4)"
  unfolding alu_item_def using alu_plain by blast

lemma alu_item_good: "alu_item s it \<Longrightarrow> base s \<in> reserved s \<Longrightarrow> good s it s'"
  by (auto simp: alu_item_def intro: good_ins)

lemma in_alu_mnemonics [simp]:
  "m \<in> set ALU_R \<Longrightarrow> m \<in> set alu_mnemonics" "m \<in> set ALU_I \<Longrightarrow> m \<in> set alu_mnemonics"
  "m \<in> set SHIFT_I \<Longrightarrow> m \<in> set alu_mnemonics" "m \<in> set M_OPS \<Longrightarrow> m \<in> set alu_mnemonics"
  "m \<in> set ZBA \<Longrightarrow> m \<in> set alu_mnemonics" "m \<in> set ZBB_R \<Longrightarrow> m \<in> set alu_mnemonics"
  "m \<in> set ZBB_U \<Longrightarrow> m \<in> set alu_mnemonics" "m \<in> set ZBS_R \<Longrightarrow> m \<in> set alu_mnemonics"
  "m \<in> set ZBS_I \<Longrightarrow> m \<in> set alu_mnemonics" "''rori'' \<in> set alu_mnemonics"
  "''lui'' \<in> set alu_mnemonics" "''auipc'' \<in> set alu_mnemonics"
  by (simp_all add: alu_mnemonics_def)

lemma tables_nonempty [simp]:
  "ALU_R \<noteq> []" "ALU_I \<noteq> []" "SHIFT_I \<noteq> []" "M_OPS \<noteq> []" "ZBA \<noteq> []" "ZBB_R \<noteq> []" "ZBB_U \<noteq> []"
  "ZBS_R \<noteq> []" "ZBS_I \<noteq> []" "BRANCHES \<noteq> []" "AMOS \<noteq> []" "LOADS \<noteq> []" "STORES \<noteq> []"
  "COUNTERS \<noteq> []" "COUNTERS_H \<noteq> []" "RESERVED_32 \<noteq> []" "RESERVED_16 \<noteq> []"
  by (simp_all add: alu_tables BRANCHES_def AMOS_def LOADS_def STORES_def COUNTERS_def COUNTERS_H_def
      RESERVED_32_def RESERVED_16_def)

definition alu_post :: "gen \<Rightarrow> item \<Rightarrow> gen \<Rightarrow> bool" where
  "alu_post s it s' \<longleftrightarrow> alu_item s it \<and> (\<exists>q. s' = s\<lparr>pos := q\<rparr>)"

lemma alu_postI: "alu_item s it \<Longrightarrow> alu_post s it (s\<lparr>pos := q\<rparr>)"
  by (auto simp: alu_post_def)

lemma ok_alu:
  assumes "room 4 s"
  shows "ok (g_alu_r s) (alu_post s)" "ok (g_alu_i s) (alu_post s)" "ok (g_m s) (alu_post s)"
    "ok (g_zba s) (alu_post s)" "ok (g_zbb s) (alu_post s)" "ok (g_zbs s) (alu_post s)"
    "ok (g_lui_auipc s) (alu_post s)"
  using assms
  unfolding g_alu_r_def g_alu_i_def g_m_def g_zba_def g_zbb_def g_zbs_def g_lui_auipc_def
  by (auto intro!: wp_intro alu_postI alu_itemI)

lemma alu_post_pos [simp]: "alu_post (s\<lparr>pos := q\<rparr>) = alu_post s"
  by (rule ext)+ (auto simp: alu_post_def alu_item_def)

lemma ok_alu_one: "room 4 s \<Longrightarrow> ok (alu_one s) (alu_post s)"
proof -
  assume "room 4 s"
  then have "ok (g_alu_r (s\<lparr>pos := q\<rparr>)) (alu_post s)" "ok (g_alu_i (s\<lparr>pos := q\<rparr>)) (alu_post s)"
    "ok (g_m (s\<lparr>pos := q\<rparr>)) (alu_post s)" "ok (g_zba (s\<lparr>pos := q\<rparr>)) (alu_post s)"
    "ok (g_zbb (s\<lparr>pos := q\<rparr>)) (alu_post s)" "ok (g_zbs (s\<lparr>pos := q\<rparr>)) (alu_post s)"
    "ok (g_lui_auipc (s\<lparr>pos := q\<rparr>)) (alu_post s)" for q
    using ok_alu [of "s\<lparr>pos := q\<rparr>"] by simp_all
  then show ?thesis unfolding alu_one_def ok_bind by (intro ok_choice) simp_all
qed

lemma ok_alu_oneI [wp_intro]:
  "room 4 s \<Longrightarrow> (\<And>it q. alu_item s it \<Longrightarrow> Q it (s\<lparr>pos := q\<rparr>)) \<Longrightarrow> ok (alu_one s) Q"
  by (rule ok_mono [OF ok_alu_one]) (auto simp: alu_post_def)

lemma room_base: "room k s \<Longrightarrow> base s \<in> reserved s"
  by (simp add: room_def)

lemma alu_contract: 
  assumes "\<And>s. room 4 s \<Longrightarrow> ok (g s) (alu_post s)"
  shows "contract (room 4) g"
proof (rule contractI)
  fix s assume r: "room 4 s"
  show "ok (g s) (\<lambda>it s'. frame s s' \<and> good s it s')"
    by (rule ok_mono [OF assms [OF r]]) (auto simp: alu_post_def intro: alu_item_good room_base [OF r])
qed

section \<open>Constants, compressed ALU instructions and hints\<close>

lemma li_contract: "contract (room 4) g_li_special"
proof (rule contractI)
  fix s assume r: "room 4 s"
  have "good s (Item (li rd v) 8) s'" if "rd \<notin> reserved s" for rd v s'
    using that room_base [OF r]
    by (intro good_plain no_access_safe)
       (auto simp: Item_def li_def Let_def isize_def stores_def branches_def stops_def width_def is_lr_def)
  with r show "ok (g_li_special s) (\<lambda>it s'. frame s s' \<and> good s it s')"
    unfolding g_li_special_def by (auto intro!: wp_intro)
qed

lemma in_c_mnemonics [simp]:
  "''c.addi'' \<in> set c_mnemonics" "''c.li'' \<in> set c_mnemonics" "''c.lui'' \<in> set c_mnemonics"
  "''c.addi16sp'' \<in> set c_mnemonics" "''c.addi4spn'' \<in> set c_mnemonics" "''c.srli'' \<in> set c_mnemonics"
  "''c.srai'' \<in> set c_mnemonics" "''c.andi'' \<in> set c_mnemonics" "''c.slli'' \<in> set c_mnemonics"
  "''c.mv'' \<in> set c_mnemonics" "''c.add'' \<in> set c_mnemonics"
  "''c.sub'' \<in> set c_mnemonics" "''c.xor'' \<in> set c_mnemonics" "''c.or'' \<in> set c_mnemonics"
  "''c.and'' \<in> set c_mnemonics"
  by (simp_all add: c_mnemonics_def)

lemma good_c:
  "m \<in> set c_mnemonics \<Longrightarrow> base s \<in> reserved s \<Longrightarrow> concat (map op_refs ops) = [] \<Longrightarrow>
   r \<notin> reserved s \<Longrightarrow> good s (Item (rvc (Ins m (Reg r # ops))) 2) s'"
  "m \<in> set c_mnemonics \<Longrightarrow> base s \<in> reserved s \<Longrightarrow> concat (map op_refs ops) = [] \<Longrightarrow>
   2 \<notin> reserved s \<Longrightarrow> good s (Item (rvc (Ins m (Sp # ops))) 2) s'"
  using c_plain [of m] by (auto intro!: good_rvc simp: plain_dest simp del: dest.simps(1))

lemma good_c_nop: "base s \<in> reserved s \<Longrightarrow> good s (Item (rvc (Ins ''c.nop'' [])) 2) s'"
  by (intro good_plain no_access_safe)
     (auto simp: Item_def rvc_def isize_def width_def is_lr_def stores_def branches_def stops_def)

lemma nz32_nonempty [simp]: "nz32 \<noteq> []"
  by (simp add: nz32_def upto_rec1)

lemma c_alu_contract: "contract (room 4) g_c_alu"
proof (rule contractI)
  fix s assume r: "room 4 s"
  note b = room_base [OF r]
  show "ok (g_c_alu s) (\<lambda>it s'. frame s s' \<and> good s it s')"
    unfolding g_c_alu_def
    by (intro ok_bindI ok_ifI ok_SomeI wp_intro) (use r b in \<open>auto intro: good_c good_c_nop\<close>)
qed

end
