(* ===== verification/Gen_Mem.thy ===== *)
theory Gen_Mem
  imports Gen_Contract
begin

text \<open>
  The categories that access memory, and the hints: every access is at BASE plus
  a masked register plus a bounded displacement, so it stays in the region.
\<close>

section \<open>Hints\<close>

text \<open>A CI-format halfword by its fields: funct3, bit 12, register, immediate, quadrant.\<close>

definition ci :: "nat \<Rightarrow> nat \<Rightarrow> nat \<Rightarrow> nat \<Rightarrow> nat \<Rightarrow> nat" where
  "ci f b r i q = f * 2 ^ 13 + b * 2 ^ 12 + r * 2 ^ 7 + i * 2 ^ 2 + q"

lemma ci_fields:
  assumes "b < 2" "r < 32" "i < 32" "q < 4"
  shows "ci f b r i q mod 4 = q" "ci f b r i q div 2 ^ 2 mod 32 = i" "ci f b r i q div 2 ^ 7 mod 32 = r"
    "ci f b r i q div 2 ^ 12 mod 2 = b" "ci f b r i q div 2 ^ 13 = f" "ci f b r i q div 2 ^ 7 mod 8 = r mod 8"
proof -
  have ci: "ci f b r i q = q + 4 * (i + 32 * (r + 32 * (b + 2 * f)))" by (simp add: ci_def)
  have step: "(x + n * y) div n = y" "(x + n * y) mod n = x" if "x < n" for x n y :: nat
    using that by simp_all
  have d2: "ci f b r i q div 2 ^ 2 = i + 32 * (r + 32 * (b + 2 * f))"
    unfolding ci using step(1) [OF assms(4)] by simp
  have "ci f b r i q div 2 ^ 7 = ci f b r i q div 2 ^ 2 div 32" by (simp flip: div_mult2_eq)
  then have d7: "ci f b r i q div 2 ^ 7 = r + 32 * (b + 2 * f)"
    unfolding d2 using step(1) [OF assms(3)] by simp
  have "ci f b r i q div 2 ^ 12 = ci f b r i q div 2 ^ 7 div 32" by (simp flip: div_mult2_eq)
  then have d12: "ci f b r i q div 2 ^ 12 = b + 2 * f"
    unfolding d7 using step(1) [OF assms(2)] by simp
  have "ci f b r i q div 2 ^ 13 = ci f b r i q div 2 ^ 12 div 2" by (simp flip: div_mult2_eq)
  then show "ci f b r i q div 2 ^ 13 = f" unfolding d12 using step(1) [OF assms(1)] by simp
  show "ci f b r i q mod 4 = q" unfolding ci by (rule step(2) [OF assms(4)])
  show "ci f b r i q div 2 ^ 2 mod 32 = i" unfolding d2 by (rule step(2) [OF assms(3)])
  show "ci f b r i q div 2 ^ 7 mod 32 = r" unfolding d7 by (rule step(2) [OF assms(2)])
  show "ci f b r i q div 2 ^ 12 mod 2 = b" unfolding d12 by (rule step(2) [OF assms(1)])
  have "r + 32 * (b + 2 * f) = r + 8 * (4 * (b + 2 * f))" by simp
  then show "ci f b r i q div 2 ^ 7 mod 8 = r mod 8" unfolding d7 by (simp only: mod_mult_self2)
qed

lemma dest_ci:
  assumes "b < 2" "r < 32" "i < 32" "q < 4"
  shows "dest (Half (ci f b r i q)) = (if q = 1 \<and> f = 4 then Some (8 + r mod 8) else Some r)"
  unfolding dest.simps ci_fields [OF assms] by simp

lemma imm6_ci: "f * 2 ^ 13 + imm6_bits x + q = ci f (x div 32 mod 2) 0 (x mod 32) q"
  by (simp add: imm6_bits_def ci_def)

text \<open>The encodings of \<open>hint_enc\<close> by their fields.\<close>

lemma hint_enc_ci:
  "hint_enc k x s =
     (if k = 0 then let y = if x = 0 then 1 else x in Some (ci 0 (y div 32 mod 2) 0 (y mod 32) 1, s)
      else if k = 1 then do { (r, s) \<leftarrow> wreg p_0 s; Some (ci 0 0 r 0 1, s) }
      else if k = 2 then Some (ci 2 (x div 32 mod 2) 0 (x mod 32) 1, s)
      else if k = 3 then let y = if x = 0 then 1 else x in Some (ci 3 (y div 32 mod 2) 0 (y mod 32) 1, s)
      else if k = 4 then do { (r, s) \<leftarrow> randnat 1 32 s; Some (ci 4 0 0 r 2, s) }
      else if k = 5 then do { (r, s) \<leftarrow> randnat 1 32 s; Some (ci 4 1 0 r 2, s) }
      else if k = 6 then do { (r, s) \<leftarrow> randnat 0 32 s; Some (ci 0 0 0 r 2, s) }
      else if k = 7 then do { (r, s) \<leftarrow> wreg p_0 s; Some (ci 0 0 r 0 2, s) }
      else if k = 8 then do { (r, s) \<leftarrow> cw s; Some (ci 4 0 (r - 8) 0 1, s) }
      else do { (r, s) \<leftarrow> cw s; Some (ci 4 0 (8 + (r - 8)) 0 1, s) })"
  by (simp add: hint_enc_def imm6_bits_def ci_def Let_def)

lemma ok_wreg_0 [wp_intro]:
  assumes "room 4 s"
    and "\<And>r q. 0 < r \<Longrightarrow> r < 32 \<Longrightarrow> r \<notin> reserved s \<Longrightarrow> Q r (s\<lparr>pos := q\<rparr>)"
  shows "ok (wreg p_0 s) Q"
proof -
  have "[r \<leftarrow> [1..<32]. r \<notin> reserved s] \<noteq> []"
    using assms(1) by (intro free_register) (auto simp: room_def)
  with assms show ?thesis
    unfolding wreg_def by (auto intro!: ok_chance_0 ok_choice simp: room_def)
qed

lemma cw_register: "8 \<le> r \<Longrightarrow> r < 16 \<Longrightarrow> 8 + r mod 8 = (r :: nat)"
  by presburger

lemma ok_hint_enc:
  assumes "room 4 s"
    and "\<And>e q. dest (Half e) = Some 0 \<or> (\<exists>r. r \<notin> reserved s \<and> dest (Half e) = Some r) \<Longrightarrow> Q e (s\<lparr>pos := q\<rparr>)"
  shows "ok (hint_enc k x s) Q"
proof -
  have pos0: "\<And>e. dest (Half e) = Some 0 \<Longrightarrow> Q e s" 
    using assms(2) [of _ "pos s"] by simp
  show ?thesis
    unfolding hint_enc_ci Let_def
    by (intro ok_bindI ok_ifI ok_SomeI wp_intro assms pos0)
       (simp_all add: dest_ci cw_register assms(1) del: dest.simps)
qed

lemma good_half:
  assumes "dest (Half e) = Some r" "r \<notin> reserved s" "base s \<in> reserved s"
  shows "good s (Item [Half e] 2) s'"
  by (intro good_plain no_access_safe) (use assms in \<open>simp_all add: Item_def del: dest.simps\<close>)

lemma hint_contract: "contract (room 4) g_c_hint"
proof (rule contractI)
  fix s assume r: "room 4 s"
  then have "0 \<notin> reserved s" by (simp add: room_def)
  with r show "ok (g_c_hint s) (\<lambda>it s'. frame s s' \<and> good s it s')"
    unfolding g_c_hint_def
    by (intro ok_bindI ok_SomeI wp_intro ok_hint_enc) (auto intro: good_half room_base simp del: dest.simps)
qed

section \<open>Addresses\<close>

lemma ok_addr [wp_intro]:
  assumes "room 4 s"
    and "\<And>r q. r \<notin> noread s \<Longrightarrow>
      Q [Ins ''andi'' [Reg t, Reg r, Imm m], Ins ''add'' [Reg t, Reg t, Reg (base s)]] (s\<lparr>pos := q\<rparr>)"
  shows "ok (addr t m s) Q"
  unfolding addr_def using assms by (auto intro!: wp_intro)

text \<open>A line that may stand between LR and SC.\<close>

definition quiet :: "asm \<Rightarrow> bool" where
  "quiet l \<longleftrightarrow> \<not> is_label l \<and> \<not> is_lr l \<and> \<not> is_sc l \<and> \<not> disturbs l \<and> refs l = []"

text \<open>
  \<open>addr_code b t m k n ls\<close>: label-free code of \<open>n\<close> bytes that writes only \<open>t\<close>, makes
  no access, and leaves BASE + (x and m) + k in \<open>t\<close>.
\<close>

definition addr_code :: "nat \<Rightarrow> nat \<Rightarrow> int \<Rightarrow> int \<Rightarrow> nat \<Rightarrow> asm list \<Rightarrow> bool" where
  "addr_code b t m k n ls \<longleftrightarrow> lines_size ls = n \<and> writes ls \<subseteq> {t} \<and> (\<forall>l \<in> set ls. \<forall>rs. access l rs = None)
     \<and> list_all quiet ls \<and> points b t m k ls"

lemma addr_code_andi:
  assumes "t \<noteq> 0" "t \<noteq> b"
  shows "addr_code b t m 0 8 [Ins ''andi'' [Reg t, Reg r, Imm m], Ins ''add'' [Reg t, Reg t, Reg b]]"
proof -
  have "run h [Ins ''andi'' [Reg t, Reg r, Imm m], Ins ''add'' [Reg t, Reg t, Reg b]] rs t
      = rs b + and (rs r) (word_of_int m)" for h rs
    using assms by (simp add: exec1_def set_reg_def stores_def branches_def stops_def)
  then show ?thesis
    by (auto simp: addr_code_def isize_def stores_def branches_def stops_def width_def points_def quiet_def is_lr_def is_sc_def
        disturbs_def is_ctrl_def jumps_def)
qed

lemma addr_code_addi:
  assumes "addr_code b t m k n ls" "t \<noteq> 0"
  shows "addr_code b t m (k + i) (n + 4) (ls @ [Ins ''addi'' [Reg t, Reg t, Imm i]])"
proof -
  have "points b t m (k + i) (ls @ [Ins ''addi'' [Reg t, Reg t, Imm i]])"
    unfolding points_def
  proof (intro allI)
    fix h rs
    obtain x where "run h ls rs t = rs b + and x (word_of_int m) + word_of_int k"
      using assms(1) unfolding addr_code_def points_def by blast
    then show "\<exists>x. run h (ls @ [Ins ''addi'' [Reg t, Reg t, Imm i]]) rs t = rs b + and x (word_of_int m) + word_of_int (k + i)"
      using assms(2)
      by (auto simp: run_append exec1_def set_reg_def stores_def branches_def stops_def add.assoc intro!: exI [of _ x])
  qed
  with assms show ?thesis
    by (auto simp: addr_code_def isize_def stores_def branches_def stops_def width_def quiet_def is_lr_def is_sc_def
        disturbs_def is_ctrl_def jumps_def)
qed


section \<open>Accesses\<close>

text \<open>An access of \<open>2 ^ e\<close> bytes at displacement \<open>i\<close> from BASE + (x and m) + k fits the region.\<close>

definition fits :: "int \<Rightarrow> int \<Rightarrow> int \<Rightarrow> nat \<Rightarrow> bool" where
  "fits m k i e \<longleftrightarrow> 0 \<le> m \<and> m < 2 ^ 31 \<and> take_bit e m = 0 \<and> 2 ^ e dvd k + i \<and> e \<le> 10
     \<and> 0 \<le> 1024 + k + i \<and> 1024 + m + k + i + 2 ^ e \<le> 2048"

lemma fits_in_region:
  assumes "fits m k i e" "a = B + and x (word_of_int m) + word_of_int k + word_of_int i"
  shows "in_region B (a, 2 ^ e)"
proof (rule in_region_masked)
  have "(2 :: int) ^ e dvd 2 ^ 10" using assms(1) by (intro le_imp_power_dvd) (simp add: fits_def)
  then show "(2 :: int) ^ e dvd 1024" by simp
qed (use assms in \<open>simp_all add: fits_def\<close>)

definition accesses_at :: "asm \<Rightarrow> nat \<Rightarrow> int \<Rightarrow> nat \<Rightarrow> bool" where
  "accesses_at l t i e \<longleftrightarrow> (\<forall>rs. access l rs = Some (rs t + word_of_int i, 2 ^ e))"

lemma mem_safe_access:
  assumes "points b t m k ls" "mem_safe b ls" "accesses_at l t i e" "fits m k i e"
  shows "mem_safe b (ls @ [l])"
  unfolding mem_safe_def
proof (intro allI ballI)
  fix h rs a assume "a \<in> accesses h (ls @ [l]) rs"
  then consider "a \<in> accesses h ls rs" | "a = (run h ls rs t + word_of_int i, 2 ^ e)"
    using assms(3) by (auto simp: accesses_append accesses_at_def)
  then show "in_region (rs b) a"
  proof cases
    case 2
    obtain x where "run h ls rs t = rs b + and x (word_of_int m) + word_of_int k"
      using assms(1) unfolding points_def by blast
    then show ?thesis unfolding 2 by (intro fits_in_region [OF assms(4), where x = x]) simp
  qed (use assms(2) in \<open>auto simp: mem_safe_def\<close>)
qed

lemma addr_codeD:
  assumes "addr_code b t m k n ls"
  shows "lines_size ls = n" "writes ls \<subseteq> {t}" "mem_safe b ls" "points b t m k ls"
    "list_all (\<lambda>l. \<not> is_label l) ls" "list_all (\<lambda>l. \<not> is_lr l) ls" "\<forall>l \<in> set ls. refs l = []"
    "list_all quiet ls"
  using assms by (auto simp: addr_code_def quiet_def list_all_iff intro: no_access_safe)

text \<open>What an access instruction is to the contract.\<close>

definition mem_line :: "gen \<Rightarrow> asm \<Rightarrow> bool" where
  "mem_line s l \<longleftrightarrow> \<not> is_label l \<and> \<not> is_lr l \<and> refs l = [] \<and> set_option (dest l) \<inter> reserved s = {}"

lemma mem_safe_opt: "mem_safe b ls \<Longrightarrow> mem_safe b (ls @ [OptRvc])" "mem_safe b ls \<Longrightarrow> mem_safe b (ls @ [OptNorvc])"
  by (simp_all add: mem_safe_def accesses_append)

lemma good_mem:
  assumes a: "addr_code (base s) t m k n ls" and "fits m k i e" "accesses_at l t i e" "mem_line s l"
    and "t \<notin> reserved s" "base s \<in> reserved s" "sz = n + lsize l" "sz \<le> 80"
  shows "good s (Item (ls @ [l]) sz) s'" "good s (Item (ls @ rvc l) sz) s'"
proof -
  note d = addr_codeD [OF a]
  have "mem_safe (base s) (ls @ [l])" by (rule mem_safe_access) (use assms d in auto)
  then show "good s (Item (ls @ [l]) sz) s'"
    by (intro good_plain lrsc_ok_no_lr) (use assms d in \<open>auto simp: Item_def mem_line_def list_all_iff\<close>)
  have "mem_safe (base s) ((ls @ [OptRvc]) @ [l])"
    by (rule mem_safe_access [where m = m and k = k]) (use assms d in \<open>auto intro: points_append mem_safe_opt\<close>)
  then have "mem_safe (base s) (ls @ rvc l)" using mem_safe_opt(2) by (fastforce simp: rvc_def)
  then show "good s (Item (ls @ rvc l) sz) s'"
    by (intro good_plain lrsc_ok_no_lr) (use assms d in \<open>auto simp: Item_def mem_line_def list_all_iff rvc_def\<close>)
qed

section \<open>Loads and stores\<close>

lemma fits_low:
  assumes "e \<le> 2" "0 \<le> x" "x \<le> 1024 div 2 ^ e"
  shows "fits (1024 - 2 ^ e) 0 (- (2 ^ e * x)) e"
proof -
  consider "e = 0" | "e = 1" | "e = 2" using assms(1) by linarith
  then show ?thesis using assms(2,3) by cases (simp_all add: fits_def)
qed

lemma fits_high:
  assumes "e \<le> 2" "1024 div 2 ^ e \<le> x" "x \<le> 2047 div 2 ^ e"
  shows "fits (1024 - 2 ^ e) (-2048) (2 ^ e * x) e"
proof -
  consider "e = 0" | "e = 1" | "e = 2" using assms(1) by linarith
  then show ?thesis using assms(2,3) by cases (simp_all add: fits_def)
qed

lemma ok_mem_addr [wp_intro]:
  assumes "room 4 s" "t \<noteq> 0" "t \<notin> reserved s" "e \<le> 2"
    and "\<And>ls i n k q. n \<le> 12 \<Longrightarrow> addr_code (base s) t (1024 - 2 ^ e) k n ls \<Longrightarrow> fits (1024 - 2 ^ e) k i e \<Longrightarrow>
      Q (ls, i, n) (s\<lparr>pos := q\<rparr>)"
  shows "ok (mem_addr t (2 ^ e) s) Q"
proof -
  have t: "t \<noteq> base s" using assms(1,3) by (auto simp: room_def)
  have e: "(1024 div 2 ^ e :: int) \<le> 2047 div 2 ^ e" "(0 :: int) \<le> 1024 div 2 ^ e"
    by (simp_all add: zdiv_mono1 pos_imp_zdiv_nonneg_iff)
  note a = addr_code_andi [OF assms(2) t] addr_code_addi [OF addr_code_andi [OF assms(2) t] assms(2), where i = "-2048"]
  show ?thesis unfolding mem_addr_def
    by (intro ok_bindI ok_ifI ok_SomeI wp_intro)
       (use assms(1,4) e a in \<open>auto intro!: assms(5) fits_low fits_high\<close>)
qed


text \<open>The access instructions of the tables, by width.\<close>

definition load_ok :: "string \<times> int \<Rightarrow> bool" where
  "load_ok p = (case p of (m, w) \<Rightarrow> w = int (width m) \<and> w \<in> {1, 2, 4} \<and> isize m = 4 \<and> \<not> disturbs (Ins m [])
     \<and> \<not> is_lr (Ins m []) \<and> \<not> is_sc (Ins m []) \<and> dest (Ins m [Reg 5]) = Some 5)"

definition store_ok :: "string \<times> int \<Rightarrow> bool" where
  "store_ok p = (case p of (m, w) \<Rightarrow> w = int (width m) \<and> w \<in> {1, 2, 4} \<and> isize m = 4
     \<and> \<not> is_lr (Ins m []) \<and> m \<in> set stores)"

lemma LOADS_ok: "p \<in> set LOADS \<Longrightarrow> load_ok p"
proof -
  have "list_all load_ok LOADS" by code_simp
  then show "p \<in> set LOADS \<Longrightarrow> load_ok p" by (simp add: list_all_iff)
qed

lemma STORES_ok: "p \<in> set STORES \<Longrightarrow> store_ok p"
proof -
  have "list_all store_ok STORES" by code_simp
  then show "p \<in> set STORES \<Longrightarrow> store_ok p" by (simp add: list_all_iff)
qed

lemma width_power: "w \<in> {1, 2, 4 :: int} \<Longrightarrow> w = int n \<Longrightarrow> \<exists>e \<le> 2. w = 2 ^ e \<and> n = 2 ^ e"
  by (auto intro: exI [of _ "0 :: nat"] exI [of _ "1 :: nat"] exI [of _ "2 :: nat"])

lemma dest_reg_cong: "dest (Ins m [Reg 5]) = Some 5 \<Longrightarrow> dest (Ins m (Reg r # ops)) = Some r"
  by (simp split: if_splits)

lemma is_lr_ops: "is_lr (Ins m ops) = is_lr (Ins m [])" and is_sc_ops: "is_sc (Ins m ops) = is_sc (Ins m [])"
  and disturbs_ops: "disturbs (Ins m ops) = disturbs (Ins m [])"
  by (simp_all add: is_lr_def is_sc_def disturbs_def is_label_def is_ctrl_def)

definition load_line :: "string \<Rightarrow> nat \<Rightarrow> bool" where
  "load_line m e \<longleftrightarrow> isize m = 4 \<and> (\<forall>r i t. quiet (Ins m [Reg r, Mem i t])) \<and> (\<forall>r i t. accesses_at (Ins m [Reg r, Mem i t]) t i e)
     \<and> (\<forall>s r i t. r \<notin> reserved s \<longrightarrow> mem_line s (Ins m [Reg r, Mem i t]))"

definition store_line :: "string \<Rightarrow> nat \<Rightarrow> bool" where
  "store_line m e \<longleftrightarrow> isize m = 4 \<and> (\<forall>r i t. accesses_at (Ins m [Reg r, Mem i t]) t i e)
     \<and> (\<forall>s r i t. mem_line s (Ins m [Reg r, Mem i t]))"

lemma load_lineI: "load_ok (m, w) \<Longrightarrow> \<exists>e \<le> 2. w = 2 ^ e \<and> load_line m e"
proof -
  assume l: "load_ok (m, w)"
  then obtain e where e: "e \<le> 2" "w = 2 ^ e" "width m = 2 ^ e"
    using width_power [of w "width m"] by (auto simp: load_ok_def)
  have "\<not> disturbs (Ins m ops)" "\<not> is_lr (Ins m ops)" "\<not> is_sc (Ins m ops)" "dest (Ins m (Reg r # ops)) = Some r"
    for ops r
    using l disturbs_ops [of m ops] is_sc_ops [of m ops] is_lr_ops [of m ops] dest_reg_cong [of m r ops] by (simp_all add: load_ok_def)
  then have "load_line m e"
    using l e unfolding load_line_def load_ok_def quiet_def mem_line_def accesses_at_def by (simp del: dest.simps)
  with e show ?thesis by blast
qed

lemma store_lineI: "store_ok (m, w) \<Longrightarrow> \<exists>e \<le> 2. w = 2 ^ e \<and> store_line m e"
proof -
  assume l: "store_ok (m, w)"
  then obtain e where e: "e \<le> 2" "w = 2 ^ e" "width m = 2 ^ e"
    using width_power [of w "width m"] by (auto simp: store_ok_def)
  have "\<not> is_lr (Ins m ops)" for ops using l is_lr_ops [of m ops] by (simp add: store_ok_def)
  then have "store_line m e"
    using l e unfolding store_line_def store_ok_def mem_line_def accesses_at_def by simp
  with e show ?thesis by blast
qed

lemma ok_LOADS:
  assumes "\<And>m e q. e \<le> 2 \<Longrightarrow> load_line m e \<Longrightarrow> Q (m, 2 ^ e) (s\<lparr>pos := q\<rparr>)"
  shows "ok (choice LOADS s) Q"
proof (rule ok_choice)
  fix p q assume "p \<in> set LOADS"
  then have "load_ok (fst p, snd p)" by (simp add: LOADS_ok)
  from load_lineI [OF this] assms [of _ "fst p" q] show "Q p (s\<lparr>pos := q\<rparr>)" by (metis prod.collapse)
qed simp

lemma ok_STORES:
  assumes "\<And>m e q. e \<le> 2 \<Longrightarrow> store_line m e \<Longrightarrow> Q (m, 2 ^ e) (s\<lparr>pos := q\<rparr>)"
  shows "ok (choice STORES s) Q"
proof (rule ok_choice)
  fix p q assume "p \<in> set STORES"
  then have "store_ok (fst p, snd p)" by (simp add: STORES_ok)
  from store_lineI [OF this] assms [of _ "fst p" q] show "Q p (s\<lparr>pos := q\<rparr>)" by (metis prod.collapse)
qed simp

lemma ok_caseI: "ok (f a b s) Q \<Longrightarrow> ok ((case (a, b) of (x, y) \<Rightarrow> f x y) s) Q"
  by simp

lemmas vcg = ok_bindI ok_ifI ok_SomeI ok_caseI

text \<open>An item made of quiet lines: it may stand between LR and SC.\<close>

definition quiet_item :: "gen \<Rightarrow> item \<Rightarrow> bool" where
  "quiet_item s it \<longleftrightarrow> \<not> branch it \<and> isz it \<le> 16 \<and> isz it = lines_size (lines it) \<and> writes (lines it) \<inter> reserved s = {}
     \<and> mem_safe (base s) (lines it) \<and> list_all quiet (lines it)"

lemma quiet_item_pos [simp]: "quiet_item (s\<lparr>pos := q\<rparr>) = quiet_item s"
  by (rule ext) (simp add: quiet_item_def)

lemma quiet_good: "quiet_item s it \<Longrightarrow> base s \<in> reserved s \<Longrightarrow> good s it s'"
  by (intro good_plain lrsc_ok_no_lr) (auto simp: quiet_item_def quiet_def list_all_iff)

lemma alu_quiet: "alu_item s it \<Longrightarrow> base s \<in> reserved s \<Longrightarrow> quiet_item s it"
proof -
  assume a: "alu_item s it" "base s \<in> reserved s"
  then obtain m r ops where it: "it = Item [Ins m (Reg r # ops)] 4" and m: "plain m"
    and ops: "concat (map op_refs ops) = []" by (auto simp: alu_item_def)
  have "\<not> is_sc (Ins m (Reg r # ops))" using m by (auto simp: plain_def is_sc_def width_def split: if_splits)
  then have "quiet (Ins m (Reg r # ops))" using m ops by (simp add: quiet_def plain_lr plain_quiet)
  moreover have "mem_safe (base s) (lines it)" unfolding it
    by (rule no_access_safe) (use m in \<open>simp add: Item_def\<close>)
  ultimately show ?thesis using alu_item_good [OF a, of s] unfolding it
    by (simp add: quiet_item_def good_def Item_def)
qed

lemma ok_load [wp_intro]:
  assumes r: "room 4 s" and Q: "\<And>it q. quiet_item s it \<Longrightarrow> Q it (s\<lparr>pos := q\<rparr>)"
  shows "ok (g_load s) Q"
proof -
  have "quiet_item s (Item (ls @ [Ins m [Reg rd, Mem i t]]) (n + 4))"
    if "addr_code (base s) t (1024 - 2 ^ e) k n ls" "fits (1024 - 2 ^ e) k i e" "load_line m e"
      "t \<notin> reserved s" "rd \<notin> reserved s" "n \<le> 12" for ls m rd i t n k e
  proof -
    have "good s (Item (ls @ [Ins m [Reg rd, Mem i t]]) (n + 4)) s"
      by (rule good_mem [OF that(1,2)]) (use that room_base [OF r] in \<open>auto simp: load_line_def\<close>)
    moreover have "mem_safe (base s) (ls @ [Ins m [Reg rd, Mem i t]])"
      by (rule mem_safe_access [where m = "1024 - 2 ^ e" and k = k])
         (use that addr_codeD [OF that(1)] in \<open>auto simp: load_line_def\<close>)
    ultimately show ?thesis using addr_codeD(8) [OF that(1)] that(3,6)
      by (simp add: quiet_item_def good_def load_line_def Item_def)
  qed
  then show ?thesis unfolding g_load_def
    by (intro vcg ok_LOADS wp_intro) (use r Q in auto)
qed

lemma load_contract: "contract (room 4) g_load"
  by (rule contractI, rule ok_load) (auto intro: quiet_good room_base)

lemma store_contract: "contract (room 4) g_store"
proof (rule contractI)
  fix s assume r: "room 4 s"
  show "ok (g_store s) (\<lambda>it s'. frame s s' \<and> good s it s')"
    unfolding g_store_def
    by (intro vcg ok_STORES wp_intro)
       (use r room_base [OF r] in \<open>auto intro!: good_mem(1) simp: store_line_def\<close>)
qed

section \<open>Compressed accesses and atomics\<close>

lemma good_pos [simp]: "good (s\<lparr>pos := q\<rparr>) it s' = good s it s'"
  by (simp add: good_def)

lemma frame_pos_left [simp]: "frame (s\<lparr>pos := q\<rparr>) s' = frame s s'"
  by (simp add: frame_def)

lemma c_lines:
  "accesses_at (Ins ''c.lw'' [Reg r, Mem i t]) t i 2" "accesses_at (Ins ''c.sw'' [Reg r, Mem i t]) t i 2"
  "accesses_at (Ins ''c.lwsp'' [Reg r, MemSp i]) 2 i 2" "accesses_at (Ins ''c.swsp'' [Reg r, MemSp i]) 2 i 2"
  "r \<notin> reserved s \<Longrightarrow> mem_line s (Ins ''c.lw'' [Reg r, Mem i t])"
  "mem_line s (Ins ''c.sw'' [Reg r, Mem i t])"
  "r \<notin> reserved s \<Longrightarrow> mem_line s (Ins ''c.lwsp'' [Reg r, MemSp i])"
  "mem_line s (Ins ''c.swsp'' [Reg r, MemSp i])"
  by (simp_all add: accesses_at_def width_def mem_line_def is_lr_def stores_def branches_def stops_def isize_def)

lemma fits_c: "x < 32 \<Longrightarrow> fits 0x37C 0 (4 * int x) 2" "x < 64 \<Longrightarrow> fits 0x2FC 0 (4 * int x) 2" "fits 0x3FC 0 0 2"
  by (simp_all add: fits_def)

lemma good_addr:
  assumes "t \<noteq> 0" "t \<notin> reserved s" "base s \<in> reserved s" "fits m 0 i e" "accesses_at l t i e" "mem_line s l"
    and "sz = 8 + lsize l" "sz \<le> 80"
  shows "good s (Item (Ins ''andi'' [Reg t, Reg x, Imm m] # Ins ''add'' [Reg t, Reg t, Reg (base s)] # rvc l) sz) s'"
    "good s (Item [Ins ''andi'' [Reg t, Reg x, Imm m], Ins ''add'' [Reg t, Reg t, Reg (base s)], l] sz) s'"
  using good_mem [OF addr_code_andi assms(4-6,2,3,7,8), of x s'] assms(1-3) by auto

lemma c_mem_contract: "contract (room 4) g_c_mem"
proof (rule contractI)
  fix s assume r: "room 4 s"
  note b = room_base [OF r]
  show "ok (g_c_mem s) (\<lambda>it s'. frame s s' \<and> good s it s')"
    unfolding g_c_mem_def
    by (intro vcg ok_load wp_intro)
       (use r b in \<open>auto intro: quiet_good intro!: good_addr(1) fits_c c_lines(1-8) simp: isize_def\<close>)
qed

definition atomic_ok :: "string \<Rightarrow> bool" where
  "atomic_ok m \<longleftrightarrow> width m = 4 \<and> isize m = 4 \<and> dest (Ins m [Reg 5]) = Some 5"

lemma atomics:
  "list_all (\<lambda>(m, a). atomic_ok (m @ ''.w'' @ a) \<and> \<not> is_lr (Ins (m @ ''.w'' @ a) [])) (List.product AMOS aqrls)"
  "list_all (\<lambda>a. atomic_ok (''lr.w'' @ a) \<and> is_lr (Ins (''lr.w'' @ a) [])) aqrls"
  "list_all (\<lambda>a. atomic_ok (''sc.w'' @ a) \<and> is_sc (Ins (''sc.w'' @ a) []) \<and> \<not> is_lr (Ins (''sc.w'' @ a) [])) aqrls"
  by code_simp+

lemma atomic_simps:
  assumes "a \<in> set aqrls"
  shows "m \<in> set AMOS \<Longrightarrow> atomic_ok (m @ ''.w'' @ a)" "m \<in> set AMOS \<Longrightarrow> \<not> is_lr (Ins (m @ ''.w'' @ a) ops)"
    "atomic_ok (''lr.w'' @ a)" "is_lr (Ins (''lr.w'' @ a) ops)"
    "atomic_ok (''sc.w'' @ a)" "is_sc (Ins (''sc.w'' @ a) ops)" "\<not> is_lr (Ins (''sc.w'' @ a) ops)"
proof -
  note a = assms
  note ops = is_lr_ops [of _ ops] is_sc_ops [of _ ops]
  show "m \<in> set AMOS \<Longrightarrow> atomic_ok (m @ ''.w'' @ a)" "m \<in> set AMOS \<Longrightarrow> \<not> is_lr (Ins (m @ ''.w'' @ a) ops)"
    using atomics(1) a ops(1) [of "m @ ''.w'' @ a"] by (auto simp: list_all_iff)
  show "atomic_ok (''lr.w'' @ a)" "is_lr (Ins (''lr.w'' @ a) ops)"
    using atomics(2) a ops(1) [of "''lr.w'' @ a"] by (auto simp: list_all_iff)
  show "atomic_ok (''sc.w'' @ a)" "is_sc (Ins (''sc.w'' @ a) ops)" "\<not> is_lr (Ins (''sc.w'' @ a) ops)"
    using atomics(3) a ops(1,2) [of "''sc.w'' @ a"] by (auto simp: list_all_iff)
qed

lemma atomic_line:
  assumes "atomic_ok m"
  shows "accesses_at (Ins m [Reg r, Reg x, MemR t]) t 0 2" "accesses_at (Ins m [Reg r, MemR t]) t 0 2"
    "lsize (Ins m ops) = 4" "dest (Ins m (Reg r # ops)) = Some r"
  using assms dest_reg_cong [of m r ops] by (simp_all add: atomic_ok_def accesses_at_def)

lemma no_aqrl: "[] \<in> set aqrls"
  by (simp add: aqrls_def)

lemma amo_contract: "contract (room 4) g_amo"
proof (rule contractI)
  fix s assume r: "room 4 s"
  note b = room_base [OF r]
  have "good s (Item [Ins ''andi'' [Reg t, Reg x, Imm 0x3FC], Ins ''add'' [Reg t, Reg t, Reg (base s)],
      Ins (m @ ''.w'' @ a) [Reg rd, Reg rs, MemR t]] 12) s'"
    if "m \<in> set AMOS" "a \<in> set aqrls" "t \<noteq> 0" "t \<notin> reserved s" "rd \<notin> reserved s" for m a t x rd rs s'
    by (rule good_addr(2) [OF _ _ _ fits_c(3)])
       (use that b atomic_line [OF atomic_simps(1) [OF that(2,1)]] atomic_simps(2) [OF that(2,1)]
         in \<open>auto simp: mem_line_def simp del: dest.simps\<close>)
  then show "ok (g_amo s) (\<lambda>it s'. frame s s' \<and> good s it s')"
    unfolding g_amo_def by (intro vcg wp_intro) (use r in auto)
qed

lemma sc_only_contract: "contract (room 4) g_sc_only"
proof (rule contractI)
  fix s assume r: "room 4 s"
  note b = room_base [OF r]
  note sc = atomic_simps(5-7) [OF no_aqrl, simplified]
  have "good s (Item [Ins ''andi'' [Reg t, Reg x, Imm 0x3FC], Ins ''add'' [Reg t, Reg t, Reg (base s)],
      Ins ''sc.w'' [Reg rd, Reg rs, MemR t]] 12) s'"
    if "t \<noteq> 0" "t \<notin> reserved s" "rd \<notin> reserved s" for t x rd rs s'
    by (rule good_addr(2) [OF _ _ _ fits_c(3)])
       (use that b atomic_line [OF sc(1)] sc in \<open>auto simp: mem_line_def simp del: dest.simps\<close>)
  then show "ok (g_sc_only s) (\<lambda>it s'. frame s s' \<and> good s it s')"
    unfolding g_sc_only_def by (intro vcg wp_intro) (use r in auto)
qed

section \<open>LR/SC pairs\<close>

lemma points_prefix:
  assumes "points b t m k ms" "b \<notin> writes ls"
  shows "points b t m k (ls @ ms)"
  unfolding points_def
proof (intro allI)
  fix h rs
  show "\<exists>x. run h (ls @ ms) rs t = rs b + and x (word_of_int m) + word_of_int k"
    using assms(1) run_frame [OF assms(2), of h rs] unfolding points_def run_append by metis
qed

lemma lrsc_ok_pair:
  assumes "list_all (\<lambda>l. \<not> is_lr l) pre" "list_all quiet mid" "is_sc sc" "\<not> is_lr sc" "list_all (\<lambda>l. \<not> is_lr l) post"
  shows "lrsc_ok (pre @ lr # mid @ sc # post)"
proof (intro lrsc_ok_append)
  have "takeWhile (\<lambda>x. \<not> is_sc x) (mid @ sc # post) = mid"
    using assms(2,3) by (intro takeWhile_append_stop) (auto simp: quiet_def list_all_iff)
  moreover have "lrsc_ok (mid @ sc # post)"
    using assms by (intro lrsc_ok_no_lr) (auto simp: quiet_def list_all_iff)
  ultimately show "lrsc_ok (lr # mid @ sc # post)" using assms(2,3) by (auto simp: quiet_def list_all_iff)
qed (use assms in \<open>auto intro: lrsc_ok_no_lr\<close>)

text \<open>
  Code with one open LR on the address in \<open>t\<close>, which holds a valid word address
  and is not written again.
\<close>

definition lr_open :: "nat \<Rightarrow> nat set \<Rightarrow> nat \<Rightarrow> asm list \<Rightarrow> nat \<Rightarrow> bool" where
  "lr_open b R t ls sz \<longleftrightarrow> lines_size ls = sz \<and> writes ls \<inter> R = {} \<and> mem_safe b ls \<and> points b t 0x3FC 0 ls
     \<and> list_all (\<lambda>l. \<not> is_label l \<and> refs l = []) ls
     \<and> (\<exists>pre lr mid. ls = pre @ lr # mid \<and> list_all quiet pre \<and> list_all quiet mid)"

lemma lr_open_append:
  assumes "lr_open b R t ls sz" "b \<in> R" "list_all quiet ms" "mem_safe b ms" "writes ms \<inter> insert t R = {}"
  shows "lr_open b R t (ls @ ms) (sz + lines_size ms)"
proof -
  obtain pre lr mid where "ls = pre @ lr # mid" "list_all quiet pre" "list_all quiet mid"
    using assms(1) by (auto simp: lr_open_def)
  then have "ls @ ms = pre @ lr # (mid @ ms)" "list_all quiet pre" "list_all quiet (mid @ ms)"
    using assms(3) by simp_all
  then have "\<exists>pre lr mid. ls @ ms = pre @ lr # mid \<and> list_all quiet pre \<and> list_all quiet mid" by blast
  moreover have "mem_safe b (ls @ ms)" using assms by (intro mem_safe_append) (auto simp: lr_open_def)
  moreover have "points b t 0x3FC 0 (ls @ ms)" using assms by (intro points_append) (auto simp: lr_open_def)
  ultimately show ?thesis using assms unfolding lr_open_def by (auto simp: quiet_def list_all_iff)
qed

lemma lr_open_item:
  assumes "lr_open (base s) R t ls sz" "quiet_item s it" "reserved s = insert t R" "base s \<in> R"
  shows "lr_open (base s) R t (ls @ lines it) (sz + isz it)"
  using assms lr_open_append [of "base s" R t ls sz "lines it"] by (simp add: quiet_item_def)

lemma ok_lrsc_window:
  assumes "room 4 s" "lr_open (base s) R t ls sz" "reserved s = insert t R" "base s \<in> R"
    and "\<And>ls' sz' q. lr_open (base s) R t ls' sz' \<Longrightarrow> sz' \<le> sz + 16 * n \<Longrightarrow> Q (ls', sz') (s\<lparr>pos := q\<rparr>)"
  shows "ok (lrsc_window n ls sz s) Q"
  using assms
proof (induction n arbitrary: ls sz s)
  case 0
  from "0.prems"(5) [OF "0.prems"(2), of "pos s"] show ?case by simp
next
  case (Suc n)
  have "ok (lrsc_window n (ls @ lines it) (sz + isz it) (s\<lparr>pos := q\<rparr>)) Q" if "quiet_item s it" for it q
    using Suc.prems that lr_open_item [OF Suc.prems(2) that Suc.prems(3,4)]
    by (intro Suc.IH) (auto simp: quiet_item_def)
  then show ?case
    unfolding lrsc_window.simps
    by (intro vcg ok_load wp_intro) (use Suc.prems in \<open>auto dest!: alu_quiet\<close>)
qed

lemma lr_open_start:
  assumes "t \<noteq> 0" "t \<notin> R" "b \<in> R" "rd \<notin> insert t R" "a \<in> set aqrls"
  shows "lr_open b R t ([Ins ''andi'' [Reg t, Reg x, Imm 0x3FC], Ins ''add'' [Reg t, Reg t, Reg b]]
           @ [Ins (''lr.w'' @ a) [Reg rd, MemR t]]) 12"
proof -
  have "t \<noteq> b" using assms by auto
  note d = addr_codeD [OF addr_code_andi [OF assms(1) this, of "0x3FC" x]]
  note lr = atomic_line [OF atomic_simps(3) [OF assms(5)]]
  let ?a = "[Ins ''andi'' [Reg t, Reg x, Imm 0x3FC], Ins ''add'' [Reg t, Reg t, Reg b]]"
  let ?l = "Ins (''lr.w'' @ a) [Reg rd, MemR t]"
  have "mem_safe b (?a @ [?l])" by (rule mem_safe_access [OF d(4,3) lr(2) fits_c(3)])
  moreover have "points b t 0x3FC 0 (?a @ [?l])"
    by (rule points_append [OF d(4)]) (use assms lr(4) in \<open>auto simp del: dest.simps\<close>)
  moreover have "\<exists>pre lr mid. ?a @ [?l] = pre @ lr # mid \<and> list_all quiet pre \<and> list_all quiet mid"
    using d(8) by (intro exI [of _ ?a] exI [of _ ?l] exI [of _ "[]"]) simp
  ultimately show ?thesis
    unfolding lr_open_def using assms d lr by (auto simp: list_all_iff simp del: dest.simps)
qed

text \<open>The SC on a register \<open>u\<close> that holds a valid word address closes the pair.\<close>

lemma lr_open_close:
  assumes o: "lr_open b R t ls sz" and u: "points b u 0x3FC 0 ls"
    and a: "a \<in> set aqrls" and rd: "rd \<notin> R" "b \<in> R"
    and l_def: "l = Ins (''sc.w'' @ a) [Reg rd, Reg rs, MemR u]"
  shows "lines_size (ls @ [l]) = sz + 4" "writes (ls @ [l]) \<inter> R = {}" "mem_safe b (ls @ [l])"
    "list_all (\<lambda>l. \<not> is_label l) (ls @ [l])" "\<forall>l \<in> set (ls @ [l]). refs l = []"
    "lrsc_ok (ls @ [l])" "rd \<noteq> u \<Longrightarrow> points b u 0x3FC 0 (ls @ [l])"
    "list_all (\<lambda>l. \<not> is_lr l) post \<Longrightarrow> lrsc_ok (ls @ l # post)"
proof -
  note sc = atomic_line [OF atomic_simps(5) [OF a]] atomic_simps(6,7) [OF a]
  show "lines_size (ls @ [l]) = sz + 4" "writes (ls @ [l]) \<inter> R = {}"
    "list_all (\<lambda>l. \<not> is_label l) (ls @ [l])" "\<forall>l \<in> set (ls @ [l]). refs l = []"
    using o sc rd by (auto simp: lr_open_def l_def list_all_iff simp del: dest.simps)
  show "mem_safe b (ls @ [l])"
    unfolding l_def by (rule mem_safe_access [OF u _ sc(1) fits_c(3)]) (use o in \<open>simp add: lr_open_def\<close>)
  have p: "lrsc_ok (ls @ l # post)" if "list_all (\<lambda>l. \<not> is_lr l) post" for post
  proof -
    obtain pre lr mid where "ls = pre @ lr # mid" "list_all quiet pre" "list_all quiet mid"
      using o by (auto simp: lr_open_def)
    then show ?thesis using lrsc_ok_pair [of pre mid l post lr] sc that
      by (auto simp: l_def quiet_def list_all_iff)
  qed
  show "lrsc_ok (ls @ [l])" by (rule p) simp
  show "list_all (\<lambda>l. \<not> is_lr l) post \<Longrightarrow> lrsc_ok (ls @ l # post)" by (rule p)
  show "rd \<noteq> u \<Longrightarrow> points b u 0x3FC 0 (ls @ [l])"
    by (rule points_append [OF u]) (use sc in \<open>simp add: l_def del: dest.simps\<close>)
qed

lemma good_lrsc:
  assumes o: "lr_open (base s) (reserved s) t ls sz" and u: "points (base s) u 0x3FC 0 ls" and b: "base s \<in> reserved s"
    and a: "a \<in> set aqrls" and rd: "rd \<notin> reserved s" and sz: "sz \<le> 72"
  shows "n = sz + 4 \<Longrightarrow> good s (Item (ls @ [Ins (''sc.w'' @ a) [Reg rd, Reg rs, MemR u]]) n) s'"
    "n = sz + 8 \<Longrightarrow> rd \<noteq> u \<Longrightarrow> rd' \<notin> reserved s \<Longrightarrow>
     good s (Item (ls @ [Ins (''sc.w'' @ a) [Reg rd, Reg rs, MemR u], Ins ''sc.w'' [Reg rd', Reg rs', MemR u]]) n) s'"
proof -
  note c = lr_open_close [OF o u a rd b refl, where rs = rs]
  show "good s (Item (ls @ [Ins (''sc.w'' @ a) [Reg rd, Reg rs, MemR u]]) n) s'" if "n = sz + 4"
    by (intro good_plain) (use c b that sz in \<open>simp_all add: Item_def\<close>)
  assume n: "n = sz + 8" "rd \<noteq> u" "rd' \<notin> reserved s"
  note sc = atomic_simps(5-7) [OF no_aqrl, simplified]
  note l = atomic_line [OF sc(1)]
  let ?l = "Ins ''sc.w'' [Reg rd', Reg rs', MemR u]"
  have "mem_safe (base s) ((ls @ [Ins (''sc.w'' @ a) [Reg rd, Reg rs, MemR u]]) @ [?l])"
    by (rule mem_safe_access [OF c(7) c(3) l(1) fits_c(3)]) fact
  then show "good s (Item (ls @ [Ins (''sc.w'' @ a) [Reg rd, Reg rs, MemR u], ?l]) n) s'"
    by (intro good_plain)
       (use c(1,2,4,5) c(8) [where post = "[?l]"] b l sc n sz in \<open>auto simp: Item_def simp del: dest.simps\<close>)
qed

lemma lr_open_second:
  assumes "lr_open b R t ls sz" "b \<in> R" "u \<noteq> 0" "u \<notin> insert t R"
    and ms_def: "ms = [Ins ''andi'' [Reg u, Reg x, Imm 0x3FC], Ins ''add'' [Reg u, Reg u, Reg b]]"
  shows "lr_open b R t (ls @ ms) (sz + 8)" "points b u 0x3FC 0 (ls @ ms)"
proof -
  have "u \<noteq> b" using assms(2,4) by auto
  note d = addr_codeD [OF addr_code_andi [OF assms(3) this, of "0x3FC" x], folded ms_def]
  show "lr_open b R t (ls @ ms) (sz + 8)"
    using lr_open_append [OF assms(1,2) d(8,3)] d(1,2) assms(4) by auto
  show "points b u 0x3FC 0 (ls @ ms)"
    by (rule points_prefix [OF d(4)]) (use assms(1,2) in \<open>auto simp: lr_open_def\<close>)
qed

lemma ok_bind_Some: "ok (f x) Q \<Longrightarrow> ok (Option.bind (Some x) f) Q"
  by simp

lemma reserve_simps [simp]:
  "reserve r (s\<lparr>pos := q\<rparr>) = (reserve r s)\<lparr>pos := q\<rparr>" "unreserve rs (s\<lparr>pos := q\<rparr>) = (unreserve rs s)\<lparr>pos := q\<rparr>"
  "reserved (reserve r s) = insert r (reserved s)" "base (reserve r s) = base s" "noread (reserve r s) = noread s"
  "reserve r (reserve r s) = reserve r s"
  by (simp_all add: reserve_def unreserve_def)

lemma unreserve_reserve [simp]:
  "t \<notin> reserved s \<Longrightarrow> u \<notin> reserved s \<Longrightarrow> unreserve {t, u} (reserve u (reserve t s)) = s"
  "t \<notin> reserved s \<Longrightarrow> unreserve {t} (reserve t s) = s"
  by (simp_all add: reserve_def unreserve_def insert_Diff_if)

lemma room_reserves:
  assumes "room 2 s" "t \<noteq> 0" "u \<noteq> 0"
  shows "room 4 s" "room 4 (reserve t s)" "room 4 (reserve u (reserve t s))"
  using assms room_reserve [OF assms(1,2)] room_reserve [OF room_reserve [OF assms(1,2)] assms(3)]
  by (auto elim: room_mono)

lemma ok_sc_tail:
  assumes "room 2 s" "t \<noteq> 0" "u \<noteq> 0" "t \<notin> reserved s" "u \<notin> reserved s"
    and "lr_open (base s) (reserved s) t ls sz" "points (base s) u 0x3FC 0 ls" "sz \<le> 72"
  shows "ok (sc_tail t u ls sz ((reserve u (reserve t s))\<lparr>pos := q\<rparr>)) (\<lambda>it s'. frame s s' \<and> good s it s')"
proof -
  note g = good_lrsc [OF assms(6,7) room_base [OF assms(1)] _ _ assms(8), simplified]
  show ?thesis unfolding sc_tail_def
    by (intro vcg ok_bind_Some wp_intro)
       (use assms(4,5) room_reserves [OF assms(1-3)] in \<open>auto intro!: g split: if_splits\<close>)
qed

lemma lrsc_contract: "contract (room 2) g_lrsc"
proof (rule contractI)
  fix s assume r: "room 2 s"
  note b = room_base [OF r]
  have tail: "ok (sc_tail t u ls sz ((reserve u (reserve t s))\<lparr>pos := q\<rparr>)) (\<lambda>it s'. frame s s' \<and> good s it s')"
    if "t \<noteq> 0" "u \<noteq> 0" "t \<notin> reserved s" "u \<notin> reserved s" "lr_open (base s) (reserved s) t ls sz"
      "points (base s) u 0x3FC 0 ls" "sz \<le> 72" for t u ls sz q
    using ok_sc_tail [OF r that] .
  have tail1: "ok (sc_tail t t ls sz ((reserve t s)\<lparr>pos := q\<rparr>)) (\<lambda>it s'. frame s s' \<and> good s it s')"
    if "t \<noteq> 0" "t \<notin> reserved s" "lr_open (base s) (reserved s) t ls sz" "sz \<le> 72" for t ls sz q
    using tail [OF that(1,1,2,2,3), of q] that(3,4) by (simp add: lr_open_def)
  show "ok (g_lrsc s) (\<lambda>it s'. frame s s' \<and> good s it s')"
    unfolding g_lrsc_def
    apply (intro vcg ok_bind_Some wp_intro)
        apply (use r room_reserves [OF r] b in auto) [4]
    subgoal for t q x qa a qb rd qc n qd
      apply (rule ok_lrsc_window [where R = "reserved s" and t = t])
          apply (use r room_reserves [OF r] b in \<open>auto intro!: lr_open_start [simplified]\<close>) [4]
      apply (intro vcg ok_bind_Some wp_intro)
          apply (use r room_reserves [OF r] b lr_open_second in \<open>auto intro!: tail tail1\<close>)
      done
    done
qed

end
