(* ===== verification/Gen_Flow.thy ===== *)
theory Gen_Flow
  imports Gen_Mem
begin

text \<open>
  The remaining categories: branches and jumps with an open target, CSR accesses
  and fences, and the contract of the dispatcher for the inside of a loop.
\<close>

section \<open>Branches and jumps\<close>

lemma branches_plain:
  "m \<in> set BRANCHES \<Longrightarrow> m \<in> set branches \<and> isize m = 4 \<and> width m = 0 \<and> \<not> startswith m ''lr.w'' \<and>
     m \<notin> {''c.beqz'', ''c.bnez'', ''c.j'', ''c.jal''}"
proof -
  have "list_all (\<lambda>m. m \<in> set branches \<and> isize m = 4 \<and> width m = 0 \<and> \<not> startswith m ''lr.w'' \<and>
     m \<notin> {''c.beqz'', ''c.bnez'', ''c.j'', ''c.jal''}) BRANCHES" by code_simp
  then show "m \<in> set BRANCHES \<Longrightarrow> m \<in> set branches \<and> isize m = 4 \<and> width m = 0 \<and> \<not> startswith m ''lr.w'' \<and>
     m \<notin> {''c.beqz'', ''c.bnez'', ''c.j'', ''c.jal''}" by (simp add: list_all_iff)
qed

lemma branch_contract: "contract (room 4) g_branch"
proof (rule contractI)
  fix s assume r: "room 4 s"
  have "good s (BranchItem [Ins m [Reg a, Reg b, Lab Hole]] 4 3500) s'" if "m \<in> set BRANCHES" for m a b s'
    by (intro good_plain no_access_safe)
       (use branches_plain [OF that] room_base [OF r] in \<open>auto simp: BranchItem_def is_lr_def\<close>)
  then show "ok (g_branch s) (\<lambda>it s'. frame s s' \<and> good s it s')"
    unfolding g_branch_def by (intro vcg wp_intro) (use r in auto)
qed

lemmas jump_simps = BranchItem_def rvc_def is_lr_def isize_def width_def stores_def branches_def stops_def

lemma c_branch_contract: "contract (room 4) g_c_branch"
proof (rule contractI)
  fix s assume r: "room 4 s"
  have "good s (BranchItem (rvc (Ins m [Reg a, Lab Hole])) 2 230) s'" if "m \<in> {''c.beqz'', ''c.bnez''}" for m a s'
    by (intro good_plain no_access_safe) (use that room_base [OF r] in \<open>auto simp: jump_simps\<close>)
  then show "ok (g_c_branch s) (\<lambda>it s'. frame s s' \<and> good s it s')"
    unfolding g_c_branch_def by (intro vcg wp_intro) (use r in auto)
qed

lemma jal_contract: "contract (room 4) g_jal"
proof (rule contractI)
  fix s assume r: "room 4 s"
  have "good s (BranchItem [Ins ''jal'' [Reg rd, Lab Hole]] 4 100000) s'" if "rd \<notin> reserved s" for rd s'
    by (intro good_plain no_access_safe) (use that room_base [OF r] in \<open>auto simp: jump_simps\<close>)
  then show "ok (g_jal s) (\<lambda>it s'. frame s s' \<and> good s it s')"
    unfolding g_jal_def by (intro vcg wp_intro) (use r in auto)
qed

lemma ok_plain_jump [wp_intro]:
  "(\<And>c q. (\<not> c \<Longrightarrow> 1 \<notin> reserved s) \<Longrightarrow> Q c (s\<lparr>pos := q\<rparr>)) \<Longrightarrow> ok (plain_jump s) Q"
proof -
  assume Q: "\<And>c q. (\<not> c \<Longrightarrow> 1 \<notin> reserved s) \<Longrightarrow> Q c (s\<lparr>pos := q\<rparr>)"
  from Q [of True "pos s"] have "Q True s" by simp
  with Q show ?thesis unfolding plain_jump_def by (auto intro!: wp_intro)
qed

lemma c_jump_contract: "contract (room 4) g_c_jump"
proof (rule contractI)
  fix s assume r: "room 4 s"
  have "good s (BranchItem (rvc (Ins ''c.j'' [Lab Hole])) 2 1800) s'"
    "1 \<notin> reserved s \<Longrightarrow> good s (BranchItem (rvc (Ins ''c.jal'' [Lab Hole])) 2 1800) s'" for s'
    by (intro good_plain no_access_safe; use room_base [OF r] in \<open>auto simp: jump_simps\<close>)+
  then show "ok (g_c_jump s) (\<lambda>it s'. frame s s' \<and> good s it s')"
    unfolding g_c_jump_def by (intro vcg wp_intro) (use r in auto)
qed

lemma jalr_contract: "contract (room 4) g_jalr"
proof (rule contractI)
  fix s assume r: "room 4 s"
  have "good s (BranchItem [Ins ''la'' [Reg t, LabOff Hole i d], Ins ''jalr'' [Reg rd, Mem i t]] 12 100000) s'"
    if "t \<notin> reserved s" "rd \<notin> reserved s" for t rd i d s'
    by (intro good_plain no_access_safe) (use that room_base [OF r] in \<open>auto simp: jump_simps\<close>)
  then show "ok (g_jalr s) (\<lambda>it s'. frame s s' \<and> good s it s')"
    unfolding g_jalr_def by (intro vcg wp_intro) (use r in auto)
qed

lemma c_jr_contract: "contract (room 4) g_c_jr"
proof (rule contractI)
  fix s assume r: "room 4 s"
  have "good s (BranchItem (Ins ''la'' [Reg t, Lab Hole] # rvc (Ins ''c.jr'' [Reg t])) 10 100000) s'"
    "1 \<notin> reserved s \<Longrightarrow> good s (BranchItem (Ins ''la'' [Reg t, Lab Hole] # rvc (Ins ''c.jalr'' [Reg t])) 10 100000) s'"
    if "t \<notin> reserved s" for t s'
    by (intro good_plain no_access_safe; use that room_base [OF r] in \<open>auto simp: jump_simps\<close>)+
  then show "ok (g_c_jr s) (\<lambda>it s'. frame s s' \<and> good s it s')"
    unfolding g_c_jr_def by (intro vcg wp_intro) (use r in auto)
qed

section \<open>CSRs and fences\<close>

lemma csr_scratch_contract: "contract (room 4) g_csr_scratch"
proof (rule contractI)
  fix s assume r: "room 4 s"
  have "good s (Item [Ins m [Reg rd, Sym c, x]] 4) s'"
    if "m \<in> set csr_mnemonics" "rd \<notin> reserved s" "op_refs x = []" for m rd c x s'
    using csr_plain [OF that(1)] that room_base [OF r] by (intro good_ins) auto
  then show "ok (g_csr_scratch s) (\<lambda>it s'. frame s s' \<and> good s it s')"
    unfolding g_csr_scratch_def
    by (intro vcg wp_intro) (use r in \<open>auto simp: csr_mnemonics_def\<close>)
qed

lemma fence_contract: "contract (room 4) g_fence"
proof (rule contractI)
  fix s assume r: "room 4 s"
  have "good s (Item [l] 4) s'" if "l \<in> {Ins ''fence'' [], Ins ''fence'' [Sym ''rw'', Sym ''rw''], Ins ''fence.tso'' [],
        Ins ''fence'' [Sym ''i'', Sym ''o''], Ins ''fence.i'' [], Word 0x0100000f, Ins ''fence'' [Sym ''r'', Sym ''w'']}" for l s'
    by (intro good_plain no_access_safe) (use that room_base [OF r] in \<open>auto simp: Item_def jump_simps\<close>)
  then show "ok (g_fence s) (\<lambda>it s'. frame s s' \<and> good s it s')"
    unfolding g_fence_def by (intro vcg wp_intro) (use r in auto)
qed

text \<open>One plain four-byte instruction that writes no reserved register and reads no \<open>noread\<close> register.\<close>

definition alu_line :: "gen \<Rightarrow> asm \<Rightarrow> bool" where
  "alu_line s l \<longleftrightarrow> (\<exists>m r ops. l = Ins m (Reg r # ops) \<and> plain m \<and> \<not> startswith m ''c.''
     \<and> r \<notin> reserved s \<and> concat (map op_refs ops) = [] \<and> set (concat (map op_regs ops)) \<inter> noread s = {})"

lemma alu_item_line: "alu_item s it \<Longrightarrow> \<exists>l. alu_line s l \<and> lines it = [l] \<and> isz it = 4"
  unfolding alu_item_def alu_line_def Item_def by auto

lemma alu_line_pos [simp]: "alu_line (s\<lparr>pos := q\<rparr>) = alu_line s"
  by (rule ext) (simp add: alu_line_def)

lemma ok_alu_window:
  assumes "room 4 s"
    and "\<And>w q. length w = n \<Longrightarrow> list_all (alu_line s) w \<Longrightarrow> Q (ls @ w, sz + 4 * n) (s\<lparr>pos := q\<rparr>)"
  shows "ok (alu_window n ls sz s) Q"
  using assms
proof (induction n arbitrary: ls sz s)
  case 0
  from "0.prems"(2) [of "[]" "pos s"] show ?case by simp
next
  case (Suc n)
  have "ok (alu_window n (ls @ lines it) (sz + isz it) (s\<lparr>pos := q\<rparr>)) Q" if it: "alu_item s it" for it q
  proof -
    obtain l where l: "alu_line s l" "lines it = [l]" "isz it = 4" using alu_item_line [OF it] by blast
    show ?thesis
    proof (rule Suc.IH)
      fix w p assume "length w = n" "list_all (alu_line (s\<lparr>pos := q\<rparr>)) w"
      then have "Q (ls @ (l # w), sz + 4 * Suc n) (s\<lparr>pos := p\<rparr>)"
        using l(1) by (intro Suc.prems(2)) simp_all
      then show "Q ((ls @ lines it) @ w, sz + isz it + 4 * n) (s\<lparr>pos := q, pos := p\<rparr>)"
        using l by (simp add: add.assoc)
    qed (use Suc.prems(1) in simp)
  qed
  then show ?case unfolding alu_window.simps by (intro vcg wp_intro) (use Suc.prems(1) in auto)
qed

lemma alu_line_plain:
  "alu_line s l \<Longrightarrow> quiet l \<and> lsize l = 4 \<and> access l rs = None \<and> (\<exists>r. dest l = Some r \<and> r \<notin> reserved s)"
proof -
  assume "alu_line s l"
  then obtain m r ops where l: "l = Ins m (Reg r # ops)" and m: "plain m" "\<not> startswith m ''c.''" "r \<notin> reserved s"
    and ops: "concat (map op_refs ops) = []" by (auto simp: alu_line_def)
  have "\<not> is_sc l" using m l by (auto simp: plain_def is_sc_def width_def split: if_splits)
  then have "quiet l" using m ops l by (simp add: quiet_def plain_lr plain_quiet)
  moreover have "isize m = 4" using m by (simp add: isize_def plain_def)
  ultimately show ?thesis using m l plain_dest(1) [of m r ops] by (simp del: dest.simps)
qed

text \<open>
  What a counter item is: a read of the counter into \<open>a\<close>, up to three instructions
  that neither read nor write \<open>a\<close>, a read of the same counter into \<open>b\<close>, and code
  that leaves only the difference of the two in \<open>a\<close> and \<open>b\<close>.
\<close>

definition ctr_read :: "string \<Rightarrow> nat \<Rightarrow> asm \<Rightarrow> bool" where
  "ctr_read ctr r l \<longleftrightarrow> (\<exists>(op, z) \<in> set (ctr_reads ctr). l = Ins op [Reg r, Sym ctr, z])"

definition counter_delta :: "string \<Rightarrow> nat \<Rightarrow> nat \<Rightarrow> asm list \<Rightarrow> bool" where
  "counter_delta ctr a b ls \<longleftrightarrow> (\<exists>r1 w r2. ls = r1 # w @ [r2, Ins ''sub'' [Reg b, Reg b, Reg a], Ins ''addi'' [Reg a, Reg b, Imm 0]]
     \<and> ctr_read ctr a r1 \<and> ctr_read ctr b r2 \<and> length w \<le> 3 \<and> a \<noteq> b
     \<and> (\<forall>l \<in> set w. \<not> is_ctrl l \<and> lsize l = 4 \<and> a \<notin> set (sources l) \<and> dest l \<noteq> Some a))"

lemma alu_line_sources:
  assumes "alu_line s l" "a \<in> noread s" "a \<in> reserved s"
  shows "\<not> is_ctrl l" "a \<notin> set (sources l)" "dest l \<noteq> Some a"
proof -
  obtain m r ops where l: "l = Ins m (Reg r # ops)" and m: "plain m" "\<not> startswith m ''c.''" "r \<notin> reserved s"
    and ops: "set (concat (map op_regs ops)) \<inter> noread s = {}"
    using assms(1) by (auto simp: alu_line_def)
  show "\<not> is_ctrl l" using m(1) l by (simp add: plain_def is_ctrl_def)
  have "dest l = Some r" using plain_dest(1) [OF m(1), of r ops] l by simp
  then have "sources l = concat (map op_regs ops)" using m(2) l by (simp del: dest.simps)
  then show "a \<notin> set (sources l)" using ops assms(2) by (auto simp only: disjoint_iff)
  show "dest l \<noteq> Some a" using \<open>dest l = Some r\<close> m(3) assms(3) by auto
qed

lemma ctr_read_plain: "ctr_read ctr r l \<Longrightarrow> lsize l = 4 \<and> dest l = Some r \<and> refs l = [] \<and> \<not> is_lr l \<and> \<not> is_label l \<and> access l rs = None"
  by (auto simp: ctr_read_def ctr_reads_def is_lr_def is_label_def isize_def width_def stores_def branches_def stops_def)

lemma good_counter:
  assumes "ctr_read ctr a r1" "ctr_read ctr b r2" "list_all (alu_line t) w" "length w \<le> 3"
    and "reserved s \<subseteq> reserved t" "a \<notin> reserved s" "b \<notin> reserved s" "base s \<in> reserved s" "n = 4 + 4 * length w + 12"
  shows "good s (Item (r1 # w @ [r2, Ins ''sub'' [Reg b, Reg b, Reg a], Ins ''addi'' [Reg a, Reg b, Imm 0]]) n) s'"
    (is "good s (Item ?ls n) s'")
proof -
  have w: "quiet l \<and> lsize l = 4 \<and> access l rs = None \<and> (\<exists>r. dest l = Some r \<and> r \<notin> reserved s)" if "l \<in> set w" for l rs
    using alu_line_plain [of t l rs] assms(3,5) that by (auto simp: list_all_iff simp del: dest.simps)
  have sz: "lines_size w = 4 * length w" using w by (induction w) auto
  have wr: "writes w \<inter> reserved s = {}" using w by (fastforce simp: writes_def)
  note r = ctr_read_plain [OF assms(1)] ctr_read_plain [OF assms(2)]
  show ?thesis
  proof (rule good_plain)
    show "isz (Item ?ls n) = lines_size (lines (Item ?ls n))"
      using r sz assms(9) by (simp add: Item_def isize_def)
    show "writes (lines (Item ?ls n)) \<inter> reserved s = {}"
      using r wr assms(6,7) by (auto simp: Item_def stores_def branches_def stops_def)
    show "mem_safe (base s) (lines (Item ?ls n))"
      by (rule no_access_safe) (use w r in \<open>auto simp: Item_def width_def\<close>)
    show "lrsc_ok (lines (Item ?ls n))"
      by (rule lrsc_ok_no_lr) (use w r in \<open>auto simp: Item_def quiet_def list_all_iff is_lr_def\<close>)
  qed (use w r assms in \<open>auto simp: Item_def quiet_def list_all_iff\<close>)
qed

text \<open>The states in which the categories run: nothing held back from reading yet.\<close>

definition ready :: "nat \<Rightarrow> gen \<Rightarrow> bool" where
  "ready k s \<longleftrightarrow> room k s \<and> noread s = {}"

lemma ok_ctr_reads:
  "(\<And>op z q. (op, z) \<in> set (ctr_reads ctr) \<Longrightarrow> Q (op, z) (s\<lparr>pos := q\<rparr>)) \<Longrightarrow> ok (choice (ctr_reads ctr) s) Q"
  by (rule ok_choice) (auto simp: ctr_reads_def)

lemma ctr_readI: "(op, z) \<in> set (ctr_reads ctr) \<Longrightarrow> ctr_read ctr r (Ins op [Reg r, Sym ctr, z])"
  by (auto simp: ctr_read_def)

lemma ok_counter_delta:
  assumes r: "ready 2 s"
    and Q: "\<And>ctr rd q. ctr \<in> set COUNTERS_H \<Longrightarrow> rd \<notin> reserved s \<Longrightarrow> Q (Item [Ins ''csrr'' [Reg rd, Sym ctr]] 4) (s\<lparr>pos := q\<rparr>)"
      "\<And>ctr a b ls n q. ctr \<in> set COUNTERS \<Longrightarrow> counter_delta ctr a b ls \<Longrightarrow> (\<And>s'. good s (Item ls n) s') \<Longrightarrow>
         Q (Item ls n) (s\<lparr>pos := q\<rparr>)"
  shows "ok (g_csr_counter s) Q"
proof -
  have r2: "room 2 s" and r4: "room 4 s" and nr: "noread s = {}"
    using r room_mono [of 2 s 4] by (simp_all add: ready_def)
  note b = room_base [OF r2]
  have rt: "room 4 (s\<lparr>pos := q, reserved := insert a (reserved s), noread := {a}\<rparr>)"
    "room 4 (s\<lparr>reserved := insert a (reserved s), noread := {a}\<rparr>)" if "0 < a" for a q
    using room_reserves(2) [OF r2, of a a] that by (auto simp: room_def reserve_def)
  have item: "Q (Item (r1 # w @ [r2, Ins ''sub'' [Reg b, Reg b, Reg a], Ins ''addi'' [Reg a, Reg b, Imm 0]]) n) s2"
    if "ctr \<in> set COUNTERS" "ctr_read ctr a r1" "ctr_read ctr b r2" "list_all (alu_line t) w" "length w \<le> 3"
      "reserved t = insert a (reserved s)" "noread t = {a}"
      "a \<notin> reserved s" "b \<notin> insert a (reserved s)" "n = 4 + 4 * length w + 12" "s2 = s\<lparr>pos := pos s2\<rparr>"
    for ctr a b r1 r2 w n t s2
  proof -
    let ?ls = "r1 # w @ [r2, Ins ''sub'' [Reg b, Reg b, Reg a], Ins ''addi'' [Reg a, Reg b, Imm 0]]"
    have "\<forall>l \<in> set w. \<not> is_ctrl l \<and> lsize l = 4 \<and> a \<notin> set (sources l) \<and> dest l \<noteq> Some a"
      using that(4,6,7) alu_line_sources [of t _ a] alu_line_plain [of t] by (auto simp: list_all_iff simp del: dest.simps)
    with that have "counter_delta ctr a b ?ls" unfolding counter_delta_def by blast
    moreover have "good s (Item ?ls n) s'" for s'
      by (rule good_counter [OF that(2-5)]) (use that \<open>base s \<in> reserved s\<close> in auto)
    ultimately have "Q (Item ?ls n) (s\<lparr>pos := pos s2\<rparr>)" by (intro Q(2) [OF that(1)])
    then show ?thesis using that(11) by simp
  qed
  show ?thesis unfolding g_csr_counter_def reserve_def unreserve_def
    by (intro vcg ok_bind_Some ok_alu_window ok_ctr_reads wp_intro)
       (simp_all add: r4 rt nr Q, auto intro!: item ctr_readI gen.equality simp: nr)
qed

lemma csr_counter_contract: "contract (ready 2) g_csr_counter"
proof (rule contractI)
  fix s assume r: "ready 2 s"
  have "good s (Item [Ins ''csrr'' [Reg rd, Sym ctr]] 4) s'" if "rd \<notin> reserved s" for rd ctr s'
    using csr_plain [of "''csrr''"] that r
    by (intro good_ins) (auto simp: csr_mnemonics_def ready_def room_base)
  then show "ok (g_csr_counter s) (\<lambda>it s'. frame s s' \<and> good s it s')"
    by (intro ok_counter_delta [OF r]) auto
qed

section \<open>The dispatcher inside a loop\<close>

lemma contract_weaken: "contract pre g \<Longrightarrow> (\<And>s. pre' s \<Longrightarrow> pre s) \<Longrightarrow> contract pre' g"
  by (simp add: contract_def)

lemma alu_contracts:
  "contract (room 4) g_alu_r" "contract (room 4) g_alu_i" "contract (room 4) g_m" "contract (room 4) g_zba"
  "contract (room 4) g_zbb" "contract (room 4) g_zbs" "contract (room 4) g_lui_auipc" "contract (room 4) alu_one"
  using ok_alu ok_alu_one by (auto intro!: alu_contract)

lemmas simple_contracts = alu_contracts li_contract c_alu_contract hint_contract load_contract store_contract
  c_mem_contract amo_contract sc_only_contract branch_contract c_branch_contract jal_contract c_jump_contract
  jalr_contract c_jr_contract csr_scratch_contract fence_contract

text \<open>A loop's categories run with \<open>in_loop\<close> set, BASE and the loop counter reserved.\<close>

definition inside :: "gen \<Rightarrow> bool" where
  "inside s \<longleftrightarrow> ready 2 s \<and> in_loop s"

text \<open>At the top level only BASE is reserved.\<close>

definition outside :: "gen \<Rightarrow> bool" where
  "outside s \<longleftrightarrow> ready 1 s \<and> \<not> in_loop s"

lemma ready_room: "ready k s \<Longrightarrow> k \<le> k' \<Longrightarrow> room k' s" "ready k s \<Longrightarrow> k \<le> k' \<Longrightarrow> ready k' s"
  by (auto simp: ready_def elim: room_mono)

lemma ready_simple: "contract (room 4) g \<Longrightarrow> contract (ready 2) g" "contract (room 2) g \<Longrightarrow> contract (ready 2) g"
  by (auto elim!: contract_weaken intro: ready_room(1))

lemma loop_contract_inside: "contract inside (g_loop_with g)"
proof (rule contractI)
  fix s assume "inside s"
  moreover from this have "room 4 s" using ready_room(1) [of 2 s 4] by (simp add: inside_def)
  ultimately show "ok (g_loop_with g s) (\<lambda>it s'. frame s s' \<and> good s it s')"
    using contractD [OF alu_contracts(8), of s] by (simp add: g_loop_with_def inside_def)
qed

lemma g_cat_contract:
  assumes "c \<in> set CATS" "\<And>s. pre s \<Longrightarrow> ready 2 s" "contract pre (g_loop_with (g_cat d))"
  shows "contract pre (g_cat (Suc d) c)"
proof -
  have s: "contract pre g" if "contract (ready 2) g" for g using that assms(2) by (rule contract_weaken)
  note c = simple_contracts [THEN ready_simple(1), THEN s] lrsc_contract [THEN ready_simple(2), THEN s]
    csr_counter_contract [THEN s]
  show ?thesis
    using assms(1) unfolding CATS_def contract_def
    by (auto simp: c [unfolded contract_def, rule_format] assms(3) [unfolded contract_def, rule_format])
qed

end
