(* ===== verification/Gen_Resolve.thy ===== *)
theory Gen_Resolve
  imports Gen_Flow
begin

text \<open>
  \<open>resolve\<close>: every branch item gets a target strictly ahead of it and within the
  distance its encoding reaches, every label that is used is defined exactly once,
  and the contract of the items carries over to the lines.
\<close>

section \<open>Candidates\<close>

lemma cands_sound:
  "t \<in> set (cands rest t0 k d md) \<Longrightarrow>
     t0 \<le> t \<and> t \<le> t0 + length rest \<and> d + sum_list (map isz (take (t - t0) rest)) \<le> md"
proof (induction rest t0 k d md rule: cands.induct)
  case (2 rest t0 n d md)
  then show ?case by (cases rest) (auto split: if_splits simp: take_Cons' add.assoc)
qed simp

lemma cands_nonempty: "d \<le> md \<Longrightarrow> 0 < k \<Longrightarrow> cands rest t0 k d md \<noteq> []"
  by (cases k) simp_all

section \<open>Label numbers\<close>

lemma labels_in_mono: "lo' \<le> lo \<Longrightarrow> hi \<le> hi' \<Longrightarrow> labels_in lo hi \<subseteq> labels_in lo' hi'"
  by (auto simp: labels_in_def)

lemma labels_in_disjoint: "hi \<le> lo' \<Longrightarrow> labels_in lo hi \<inter> labels_in lo' hi' = {}"
  by (auto simp: labels_in_def)

lemma label_in_iff: "''L'' @ dec_nat n \<in> labels_in lo hi \<longleftrightarrow> lo < n \<and> n \<le> hi"
  by (auto simp: labels_in_def)

section \<open>Placing the labels\<close>

text \<open>
  The labels placed so far: at item boundaries, each boundary its own, with numbers
  in \<open>(lo, hi]\<close>, except that the last boundary has the given end label.
\<close>

definition wf_marks :: "string option \<Rightarrow> nat \<Rightarrow> nat \<Rightarrow> nat \<Rightarrow> marks \<Rightarrow> bool" where
  "wf_marks el n lo hi labels \<longleftrightarrow> inj_on labels (dom labels) \<and>
     (\<forall>t l. labels t = Some l \<longrightarrow> (if t = n \<and> el \<noteq> None then el = Some l else l \<in> labels_in lo hi))"

text \<open>Every branch of the items from \<open>i\<close> on has a target ahead of it, in reach.\<close>

fun aimed :: "marks \<Rightarrow> marks \<Rightarrow> nat \<Rightarrow> item list \<Rightarrow> bool" where
  "aimed labels targets i [] = True"
| "aimed labels targets i (it # rest) =
     ((if branch it
       then \<exists>t l. targets i = Some l \<and> labels t = Some l \<and> i < t \<and> t \<le> Suc i + length rest
              \<and> isz it + sum_list (map isz (take (t - Suc i) rest)) \<le> maxdist it
       else targets i = None)
      \<and> aimed labels targets (Suc i) rest)"

lemma wf_marksD:
  "wf_marks el n lo hi labels \<Longrightarrow> labels t = Some l \<Longrightarrow> (t = n \<and> el = Some l) \<or> l \<in> labels_in lo hi"
  unfolding wf_marks_def by (metis (full_types))

lemma map_le_fresh: "m t = None \<Longrightarrow> m \<subseteq>\<^sub>m m(t \<mapsto> x)"
  by (auto simp: map_le_def)

lemma inj_fresh: "inj_on m (dom m) \<Longrightarrow> x \<notin> ran m \<Longrightarrow> inj_on (m(t \<mapsto> x)) (dom (m(t \<mapsto> x)))"
  by (auto simp: inj_on_def dom_def ran_def)

lemma wf_marks_mono: "wf_marks el n lo hi labels \<Longrightarrow> hi \<le> hi' \<Longrightarrow> wf_marks el n lo hi' labels"
  unfolding wf_marks_def using labels_in_mono [of lo lo hi hi'] by (fastforce split: if_splits)

lemma wf_marks_fresh:
  assumes w: "wf_marks el n lo hi labels" and "labels t = None" "lo \<le> hi" "t = n \<longrightarrow> el = None" "el \<noteq> Some (''L'' @ dec_nat (Suc hi))"
  shows "wf_marks el n lo (Suc hi) (labels(t \<mapsto> ''L'' @ dec_nat (Suc hi)))"
proof -
  have "l \<noteq> ''L'' @ dec_nat (Suc hi)" if "labels t' = Some l" for t' l
    using wf_marksD [OF w that] assms(5) label_in_iff [of "Suc hi" lo hi] by auto
  then have "''L'' @ dec_nat (Suc hi) \<notin> ran labels" by (auto simp: ran_def)
  then have "inj_on (labels(t \<mapsto> ''L'' @ dec_nat (Suc hi))) (dom (labels(t \<mapsto> ''L'' @ dec_nat (Suc hi))))"
    using w by (intro inj_fresh) (simp_all add: wf_marks_def)
  moreover have "wf_marks el n lo (Suc hi) labels" by (rule wf_marks_mono [OF w]) simp
  moreover have "''L'' @ dec_nat (Suc hi) \<in> labels_in lo (Suc hi)" using assms(3) by (simp only: label_in_iff) simp
  ultimately show ?thesis using assms(4) by (simp add: wf_marks_def)
qed

lemma wf_marks_end:
  assumes w: "wf_marks (Some e) n lo hi labels" and "labels n = None" "e \<notin> labels_in lo hi"
  shows "wf_marks (Some e) n lo hi (labels(n \<mapsto> e))"
proof -
  have "l \<noteq> e" if "labels t' = Some l" for t' l
    using wf_marksD [OF w that] assms(2,3) that by auto
  then have "e \<notin> ran labels" by (auto simp: ran_def)
  then have "inj_on (labels(n \<mapsto> e)) (dom (labels(n \<mapsto> e)))"
    using w by (intro inj_fresh) (simp_all add: wf_marks_def)
  with w show ?thesis by (simp add: wf_marks_def)
qed

lemma ok_label_at:
  assumes "wf_marks el n lo (nlabel s) labels" "lo \<le> nlabel s"
    and el: "\<And>hi. el \<noteq> None \<Longrightarrow> the el \<notin> labels_in lo hi"
    and Q: "\<And>l labels' hi. wf_marks el n lo hi labels' \<Longrightarrow> nlabel s \<le> hi \<Longrightarrow> labels \<subseteq>\<^sub>m labels' \<Longrightarrow>
       labels' t = Some l \<Longrightarrow> Q (l, labels') (s\<lparr>nlabel := hi\<rparr>)"
  shows "ok (label_at el n t labels s) Q"
proof (cases "labels t")
  case None
  note [simp] = None
  show ?thesis
  proof (cases "t = n \<and> el \<noteq> None")
    case True
    then obtain e where e: "el = Some e" "t = n" by auto
    have "wf_marks el n lo (nlabel s) (labels(n \<mapsto> e))"
      unfolding e(1) by (rule wf_marks_end) (use assms(1) e None el [of "nlabel s"] in auto)
    from Q [OF this, of e] e None show ?thesis by (simp add: label_at_def map_le_fresh)
  next
    case False
    have "el \<noteq> Some (''L'' @ dec_nat (Suc (nlabel s)))"
      using el [of "Suc (nlabel s)"] assms(2) label_in_iff [of "Suc (nlabel s)" lo "Suc (nlabel s)"] by auto
    then have "wf_marks el n lo (Suc (nlabel s)) (labels(t \<mapsto> ''L'' @ dec_nat (Suc (nlabel s))))"
      using assms(1,2) False by (intro wf_marks_fresh) auto
    from Q [OF this, of "''L'' @ dec_nat (Suc (nlabel s))"] False show ?thesis
      by (auto simp: label_at_def label_def Let_def map_le_fresh)
  qed
next
  case (Some l)
  from Q [OF assms(1), of l] Some show ?thesis by (simp add: label_at_def)
qed

lemma ok_place_labels:
  assumes "wf_marks el n lo (nlabel s) labels" "lo \<le> nlabel s" "n = i + length its"
    and el: "\<And>hi. el \<noteq> None \<Longrightarrow> the el \<notin> labels_in lo hi"
    and "\<And>j. i \<le> j \<Longrightarrow> targets j = None" "\<And>it. it \<in> set its \<Longrightarrow> branch it \<Longrightarrow> isz it \<le> maxdist it"
    and Q: "\<And>labels' targets' hi q. wf_marks el n lo hi labels' \<Longrightarrow> nlabel s \<le> hi \<Longrightarrow> labels \<subseteq>\<^sub>m labels' \<Longrightarrow>
       aimed labels' targets' i its \<Longrightarrow> (\<And>j. j < i \<Longrightarrow> targets' j = targets j) \<Longrightarrow>
       Q (labels', targets') (s\<lparr>pos := q, nlabel := hi\<rparr>)"
  shows "ok (place_labels el n i its labels targets s) Q"
  using assms(1-3) assms(5-)
proof (induction its arbitrary: i labels targets s)
  case Nil
  from Nil(6) [OF Nil(1), of targets "pos s"] show ?case by simp
next
  case (Cons it rest)
  note prems = Cons.prems
  show ?case
  proof (cases "branch it")
    case False
    have "ok (place_labels el n (Suc i) rest labels targets s) Q"
    proof (rule Cons.IH)
      fix labels' targets' hi q
      assume a: "wf_marks el n lo hi labels'" "nlabel s \<le> hi" "labels \<subseteq>\<^sub>m labels'" "aimed labels' targets' (Suc i) rest"
        "\<And>j. j < Suc i \<Longrightarrow> targets' j = targets j"
      show "Q (labels', targets') (s\<lparr>pos := q, nlabel := hi\<rparr>)"
        by (rule prems(6)) (use a False prems(4) in auto)
    qed (use prems in auto)
    with False show ?thesis by simp
  next
    case True
    have c: "cands rest (Suc i) 8 (isz it) (maxdist it) \<noteq> []"
      by (rule cands_nonempty) (use prems(5) True in auto)
    have "ok (place_labels el n (Suc i) rest labels1 (targets(i \<mapsto> l)) (s\<lparr>pos := p, nlabel := hi1\<rparr>)) Q"
      if t: "t \<in> set (cands rest (Suc i) 8 (isz it) (maxdist it))" and
        l1: "wf_marks el n lo hi1 labels1" "nlabel s \<le> hi1" "labels \<subseteq>\<^sub>m labels1" "labels1 t = Some l"
      for t p labels1 l hi1
    proof (rule Cons.IH)
      fix labels' targets' hi q
      assume a: "wf_marks el n lo hi labels'" "nlabel (s\<lparr>pos := p, nlabel := hi1\<rparr>) \<le> hi" "labels1 \<subseteq>\<^sub>m labels'"
        "aimed labels' targets' (Suc i) rest" "\<And>j. j < Suc i \<Longrightarrow> targets' j = (targets(i \<mapsto> l)) j"
      have "labels' t = Some l" using a(3) l1(4) by (auto simp: map_le_def dom_def)
      then have "aimed labels' targets' i (it # rest)"
        using True a(4) a(5) [of i] cands_sound [OF t] by auto
      moreover have "labels \<subseteq>\<^sub>m labels'" using l1(3) a(3) by (rule map_le_trans)
      ultimately have "Q (labels', targets') (s\<lparr>pos := q, nlabel := hi\<rparr>)"
        by (intro prems(6)) (use a l1 in auto)
      then show "Q (labels', targets') (s\<lparr>pos := p, nlabel := hi1\<rparr>\<lparr>pos := q, nlabel := hi\<rparr>)" by simp
    qed (use prems l1 in auto)
    then show ?thesis
      unfolding place_labels.simps using True
      by (intro vcg ok_choice ok_label_at [where lo = lo]) (use c prems el in auto)
  qed
qed

section \<open>Filling in a target changes nothing else\<close>

lemma place_op_iff [simp]:
  "place_op l x = Reg r \<longleftrightarrow> x = Reg r" "place_op l x = Imm i \<longleftrightarrow> x = Imm i" "place_op l x = Sp \<longleftrightarrow> x = Sp"
  by (cases x; simp)+

lemma place_value [simp]: "value_of h (place l x) rs = value_of h x rs"
  by (induction h x rs rule: value_of.induct) simp_all

lemma place_dest [simp]: "dest (place l x) = dest x"
proof (cases x)
  case (Ins m ops)
  have "(case map (place_op l) ops of Reg r # _ \<Rightarrow> Some r | Sp # _ \<Rightarrow> Some 2 | _ \<Rightarrow> None)
      = (case ops of Reg r # _ \<Rightarrow> Some r | Sp # _ \<Rightarrow> Some 2 | _ \<Rightarrow> None)"
  proof (cases ops)
    case (Cons a as)
    then show ?thesis by (cases a) simp_all
  qed simp
  with Ins show ?thesis by simp
qed simp_all

lemma place_addr [simp]: "op_addr (place_op l x) rs = op_addr x rs"
  by (cases x) simp_all

lemma place_access [simp]: "access (place l x) rs = access x rs"
  by (cases x) (simp_all add: last_map)

lemma place_simps [simp]:
  "lsize (place l x) = lsize x" "is_label (place l x) = is_label x" "is_lr (place l x) = is_lr x"
  "is_sc (place l x) = is_sc x" "disturbs (place l x) = disturbs x" "reach (place l x) d = reach x d"
  "refs (place l x) = map (place_lref l) (refs x)" "exec1 h (place l x) rs = exec1 h x rs"
proof -
  show "lsize (place l x) = lsize x" "is_label (place l x) = is_label x" "is_lr (place l x) = is_lr x"
    "is_sc (place l x) = is_sc x" "disturbs (place l x) = disturbs x" "reach (place l x) d = reach x d"
    by (cases x; simp add: is_label_def is_lr_def is_sc_def disturbs_def is_ctrl_def)+
  have "op_refs (place_op l y) = map (place_lref l) (op_refs y)" for y by (cases y) simp_all
  then show "refs (place l x) = map (place_lref l) (refs x)"
    by (cases x) (simp_all add: map_concat comp_def)
  show "exec1 h (place l x) rs = exec1 h x rs" by (simp add: exec1_def split: option.split)
qed

lemma place_lines [simp]:
  "lines_size (map (place l) ls) = lines_size ls" "writes (map (place l) ls) = writes ls"
  "accesses h (map (place l) ls) rs = accesses h ls rs" "mem_safe b (map (place l) ls) = mem_safe b ls"
  "lrsc_ok (map (place l) ls) = lrsc_ok ls" "label_defs (map (place l) ls) = label_defs ls"
proof -
  show "lines_size (map (place l) ls) = lines_size ls" "writes (map (place l) ls) = writes ls"
    by (induction ls) simp_all
  show acc: "accesses h (map (place l) ls) rs = accesses h ls rs" for h rs
    by (induction ls arbitrary: h rs) simp_all
  show "mem_safe b (map (place l) ls) = mem_safe b ls" by (simp add: mem_safe_def acc)
  show "lrsc_ok (map (place l) ls) = lrsc_ok ls"
    by (induction ls) (simp_all add: takeWhile_map comp_def list_all_iff list_ex_iff)
  have "label_defs (place l x # ms) = label_defs [x] @ label_defs ms" for x ms by (cases x) simp_all
  then show "label_defs (map (place l) ls) = label_defs ls"
    by (induction ls rule: label_defs.induct) simp_all
qed

lemma place_safe_code: "safe_code b ls \<Longrightarrow> safe_code b (map (place l) ls)"
proof -
  assume "safe_code b ls"
  then obtain cs where "ls = concat cs" "list_all (chunk_ok b) cs" by (auto simp: safe_code_def)
  then have "map (place l) ls = concat (map (map (place l)) cs)" "list_all (chunk_ok b) (map (map (place l)) cs)"
    by (simp_all add: map_concat list_all_iff chunk_ok_def)
  then show ?thesis unfolding safe_code_def by blast
qed

section \<open>The placed lines\<close>

text \<open>The lines of one item with its target filled in.\<close>

definition item_lines :: "marks \<Rightarrow> nat \<Rightarrow> item \<Rightarrow> asm list" where
  "item_lines targets i it = (case targets i of None \<Rightarrow> lines it | Some l \<Rightarrow> map (place l) (lines it))"

lemma item_lines_simps [simp]:
  "lines_size (item_lines targets i it) = lines_size (lines it)" "writes (item_lines targets i it) = writes (lines it)"
  "lrsc_ok (item_lines targets i it) = lrsc_ok (lines it)" "label_defs (item_lines targets i it) = label_defs (lines it)"
  "safe_code b (lines it) \<Longrightarrow> safe_code b (item_lines targets i it)"
  by (simp_all add: item_lines_def place_safe_code split: option.split)

lemma placed_lines_Cons:
  "placed_lines labels targets i (it # rest) =
     label_line labels i @ item_lines targets i it @ placed_lines labels targets (Suc i) rest"
  by (simp add: item_lines_def)

lemma label_line_simps [simp]:
  "lines_size (label_line labels i) = 0" "writes (label_line labels i) = {}" "lrsc_ok (label_line labels i)"
  "safe_code b (label_line labels i)" "label_defs (label_line labels i) = map the (filter (\<lambda>x. x \<noteq> None) [labels i])"
  "in_range (label_line labels i)"
  by (auto simp: label_line_def safe_code_label intro!: in_range_no_refs split: option.split)

text \<open>The promises of a list of items.\<close>

definition good_items :: "gen \<Rightarrow> item list \<Rightarrow> gen \<Rightarrow> bool" where
  "good_items s its s' \<longleftrightarrow> (\<forall>it \<in> set its. good s it s') \<and> distinct (concat (map (\<lambda>it. label_defs (lines it)) its))"

lemma placed_basic:
  assumes "\<forall>it \<in> set its. good s it s'"
  shows "lines_size (placed_lines labels targets i its) = sum_list (map isz its)"
    "writes (placed_lines labels targets i its) \<inter> reserved s = {}"
    "safe_code (base s) (placed_lines labels targets i its)" "lrsc_ok (placed_lines labels targets i its)"
proof -
  have g: "\<forall>it \<in> set its. isz it = lines_size (lines it)" "\<forall>it \<in> set its. writes (lines it) \<inter> reserved s = {}"
    "\<forall>it \<in> set its. safe_code (base s) (lines it)" "\<forall>it \<in> set its. lrsc_ok (lines it)"
    using assms by (simp_all add: good_def)
  note [simp] = placed_lines_Cons and [simp del] = placed_lines.simps(2)
  show "lines_size (placed_lines labels targets i its) = sum_list (map isz its)"
    using g(1) by (induction its arbitrary: i) simp_all
  show "writes (placed_lines labels targets i its) \<inter> reserved s = {}"
    using g(2) by (induction its arbitrary: i) (simp_all add: Int_Un_distrib2)
  show "safe_code (base s) (placed_lines labels targets i its)"
    using g(3) by (induction its arbitrary: i) (simp_all add: safe_code_append)
  show "lrsc_ok (placed_lines labels targets i its)"
    using g(4) by (induction its arbitrary: i) (simp_all add: lrsc_ok_append)
qed

lemma placed_label_set:
  "set (label_defs (placed_lines labels targets i its)) =
     {l. \<exists>t. i \<le> t \<and> t < i + length its \<and> labels t = Some l} \<union> (\<Union>it \<in> set its. set (label_defs (lines it)))"
proof (induction its arbitrary: i)
  case (Cons it its)
  have "{l. \<exists>t. i \<le> t \<and> t < i + length (it # its) \<and> labels t = Some l}
      = set_option (labels i) \<union> {l. \<exists>t. Suc i \<le> t \<and> t < Suc i + length its \<and> labels t = Some l}"
    (is "?A = ?B")
  proof -
    have "l \<in> ?B" if "i \<le> t" "t < i + length (it # its)" "labels t = Some l" for l t
      using that by (cases "t = i") auto
    moreover have "l \<in> ?A" if "l \<in> ?B" for l using that by (auto intro: exI [of _ i] Suc_leD)
    ultimately show ?thesis by blast
  qed
  with Cons show ?case by (cases "labels i") (auto simp: placed_lines_Cons simp del: placed_lines.simps(2))
qed simp

lemma placed_distinct:
  assumes "inj_on labels (dom labels)" "distinct (concat (map (\<lambda>it. label_defs (lines it)) its))"
    and "ran labels \<inter> (\<Union>it \<in> set its. set (label_defs (lines it))) = {}"
  shows "distinct (label_defs (placed_lines labels targets i its))"
  using assms(2,3)
proof (induction its arbitrary: i)
  case (Cons it its)
  have d: "distinct (label_defs (placed_lines labels targets (Suc i) its))"
    using Cons.prems by (intro Cons.IH) auto
  have "l \<notin> set (label_defs (placed_lines labels targets (Suc i) its))" "l \<notin> set (label_defs (lines it))"
    if "labels i = Some l" for l
  proof -
    have "l \<in> ran labels" using that by (rule ranI)
    then show "l \<notin> set (label_defs (lines it))" using Cons.prems(2) by auto
    have "labels t \<noteq> Some l" if "Suc i \<le> t" for t
      using inj_onD [OF assms(1), of i t] \<open>labels i = Some l\<close> that by (auto simp: dom_def)
    then show "l \<notin> set (label_defs (placed_lines labels targets (Suc i) its))"
      using \<open>l \<in> ran labels\<close> Cons.prems(2) by (auto simp: placed_label_set)
  qed
  moreover have "set (label_defs (lines it)) \<inter> set (label_defs (placed_lines labels targets (Suc i) its)) = {}"
    using Cons.prems by (auto simp: placed_label_set ran_def)
  ultimately show ?case using Cons.prems(1) d
    by (cases "labels i") (auto simp: placed_lines_Cons simp del: placed_lines.simps(2))
qed simp

section \<open>Targets are in reach\<close>

text \<open>The label of boundary \<open>t\<close> stands after the items before \<open>t\<close>; \<open>ft\<close> follows the items.\<close>

lemma placed_label_pos:
  assumes "\<forall>it \<in> set its. isz it = lines_size (lines it)" "i \<le> t" "t \<le> i + length its" "labels t = Some l"
    and "\<And>l'. labels (i + length its) = Some l' \<Longrightarrow> \<exists>ft'. ft = Label l' # ft'"
  shows "\<exists>k < length (placed_lines labels targets i its @ ft). (placed_lines labels targets i its @ ft) ! k = Label l
     \<and> lines_size (take k (placed_lines labels targets i its @ ft)) = sum_list (map isz (take (t - i) its))"
  using assms
proof (induction its arbitrary: i)
  case Nil
  then obtain ft' where "ft = Label l # ft'" by auto
  with Nil show ?case by (intro exI [of _ 0]) simp
next
  case (Cons it its)
  note [simp] = placed_lines_Cons and [simp del] = placed_lines.simps(2)
  show ?case
  proof (cases "t = i")
    case True
    with Cons.prems(4) show ?thesis by (intro exI [of _ 0]) (simp add: label_line_def)
  next
    case False
    then have t: "Suc i \<le> t" "t - i = Suc (t - Suc i)" using Cons.prems(2) by auto
    let ?P = "placed_lines labels targets (Suc i) its @ ft" and ?A = "label_line labels i @ item_lines targets i it"
    obtain k where k: "k < length ?P" "?P ! k = Label l"
      "lines_size (take k ?P) = sum_list (map isz (take (t - Suc i) its))"
      using Cons.IH [of "Suc i"] Cons.prems t(1) by auto
    have eq: "placed_lines labels targets i (it # its) @ ft = ?A @ ?P" by simp
    have "lines_size (take (length ?A + k) (?A @ ?P)) = isz it + lines_size (take k ?P)"
      using Cons.prems(1) by simp
    then have sz: "lines_size (take (length ?A + k) (?A @ ?P)) = sum_list (map isz (take (t - i) (it # its)))"
      using k(3) t(2) by simp
    moreover have "(?A @ ?P) ! (length ?A + k) = Label l" using k(2) by (simp only: nth_append_length_plus)
    moreover have "length ?A + k < length (?A @ ?P)" using k(1) by simp
    ultimately show ?thesis unfolding eq by blast
  qed
qed

lemma span_forward:
  assumes "j \<le> length A" "k \<le> length B"
  shows "span (A @ B) j (length A + k) = int (lines_size (drop j A)) + int (lines_size (take k B))"
proof -
  have "lines_size A = lines_size (take j A) + lines_size (drop j A)"
    by (metis append_take_drop_id lines_size_simps(3))
  with assms show ?thesis by (simp add: span_def)
qed

lemma in_range_prepend:
  assumes "in_range B"
    and "\<And>j r. j < length A \<Longrightarrow> r \<in> set (refs (A ! j)) \<Longrightarrow>
      \<exists>l k. r = To l \<and> k < length B \<and> B ! k = Label l \<and> reach (A ! j) (span (A @ B) j (length A + k))"
  shows "in_range (A @ B)"
  unfolding in_range_def
proof (intro allI impI ballI)
  fix j r assume j: "j < length (A @ B)" and r: "r \<in> set (refs ((A @ B) ! j))"
  show "\<exists>l k. r = To l \<and> k < length (A @ B) \<and> (A @ B) ! k = Label l \<and> reach ((A @ B) ! j) (span (A @ B) j k)"
  proof (cases "j < length A")
    case True
    then obtain l k where "r = To l" "k < length B" "B ! k = Label l" "reach (A ! j) (span (A @ B) j (length A + k))"
      using assms(2) [of j r] r by (auto simp: nth_append)
    with True show ?thesis by (intro exI [of _ l] exI [of _ "length A + k"]) (simp add: nth_append)
  next
    case False
    define i where "i = j - length A"
    with False j have i: "j = length A + i" "i < length B" by auto
    then obtain l k where "r = To l" "k < length B" "B ! k = Label l" "reach (B ! i) (span B i k)"
      using assms(1) r by (fastforce simp: in_range_def)
    with i show ?thesis by (intro exI [of _ l] exI [of _ "length A + k"]) (simp add: span_prefix)
  qed
qed

lemma placed_in_range:
  assumes "\<forall>it \<in> set its. good s it s'" "aimed labels targets i its" "in_range ft"
    and "\<And>l'. labels (i + length its) = Some l' \<Longrightarrow> \<exists>ft'. ft = Label l' # ft'"
  shows "in_range (placed_lines labels targets i its @ ft)"
  using assms
proof (induction its arbitrary: i)
  case (Cons it its)
  let ?P = "placed_lines labels targets (Suc i) its @ ft"
  have "\<forall>it \<in> set its. good s it s'" and g1: "good s it s'" using Cons.prems(1) by simp_all
  then have "\<forall>it \<in> set its. isz it = lines_size (lines it)" by (simp add: good_def)
  note g = g1 this
  have P: "in_range ?P" using Cons.prems by (intro Cons.IH) auto
  have "in_range (item_lines targets i it @ ?P)"
  proof (cases "branch it")
    case False
    then have "in_range (lines it)" using g1 unfolding good_def by blast
    then have "in_range (item_lines targets i it)" using False Cons.prems(2) by (simp add: item_lines_def)
    then show ?thesis using P by (rule in_range_append)
  next
    case True
    then obtain t l where t: "targets i = Some l" "labels t = Some l" "i < t" "t \<le> Suc i + length its"
      "isz it + sum_list (map isz (take (t - Suc i) its)) \<le> maxdist it"
      using Cons.prems(2) by auto
    obtain k where k: "k < length ?P" "?P ! k = Label l"
      "lines_size (take k ?P) = sum_list (map isz (take (t - Suc i) its))"
      using placed_label_pos [OF g(2), of "Suc i" t labels l ft targets] t Cons.prems(4) by auto
    have gb: "isz it = lines_size (lines it)" "\<forall>l \<in> set (lines it). set (refs l) \<subseteq> {Hole}"
      "\<forall>l \<in> set (lines it). \<forall>d. 0 \<le> d \<and> d \<le> int (maxdist it) \<longrightarrow> reach l d"
      using g1 True unfolding good_def by blast+
    have b: "item_lines targets i it = map (place l) (lines it)" using t(1) by (simp add: item_lines_def)
    show ?thesis
    proof (rule in_range_prepend [OF P])
      fix j r assume j: "j < length (item_lines targets i it)" and r: "r \<in> set (refs (item_lines targets i it ! j))"
      have j': "j < length (lines it)" using j b by simp
      then have line: "lines it ! j \<in> set (lines it)" by simp
      have "set (refs (lines it ! j)) \<subseteq> {Hole}" using gb(2) line by blast
      then have "r = To l" using r j' unfolding b by auto
      have "lines_size (drop j (lines it)) \<le> lines_size (lines it)"
        by (metis append_take_drop_id le_add2 lines_size_simps(3))
      then have "span (item_lines targets i it @ ?P) j (length (item_lines targets i it) + k) \<le> int (maxdist it)"
        using j k t(5) gb(1) unfolding b by (subst span_forward) (auto simp: drop_map)
      moreover have "0 \<le> span (item_lines targets i it @ ?P) j (length (item_lines targets i it) + k)"
        using j k by (subst span_forward) auto
      ultimately have "reach (item_lines targets i it ! j) (span (item_lines targets i it @ ?P) j (length (item_lines targets i it) + k))"
        using gb(3) line j' unfolding b by simp
      with k \<open>r = To l\<close> show "\<exists>l k. r = To l \<and> k < length ?P \<and> ?P ! k = Label l \<and>
          reach (item_lines targets i it ! j) (span (item_lines targets i it @ ?P) j (length (item_lines targets i it) + k))" by blast
    qed
  qed
  then show ?case
    using in_range_append [OF label_line_simps(6)] by (simp add: placed_lines_Cons del: placed_lines.simps(2))
qed simp

section \<open>The lines of resolved items\<close>

text \<open>
  \<open>resolved s its s' lo hi el ls\<close>: the items \<open>its\<close>, made between the states \<open>s\<close> and
  \<open>s'\<close>, are the lines \<open>ls\<close>, with new labels numbered in \<open>(lo, hi]\<close> and jumps out of
  the items only to the end label.
\<close>

definition resolved :: "gen \<Rightarrow> item list \<Rightarrow> gen \<Rightarrow> nat \<Rightarrow> nat \<Rightarrow> string option \<Rightarrow> asm list \<Rightarrow> bool" where
  "resolved s its s' lo hi el ls \<longleftrightarrow>
     lines_size ls = sum_list (map isz its) \<and> writes ls \<inter> reserved s = {} \<and> safe_code (base s) ls \<and> lrsc_ok ls
     \<and> in_range (ls @ map Label (case el of None \<Rightarrow> [] | Some e \<Rightarrow> [e])) \<and> distinct (label_defs ls)
     \<and> set (label_defs ls) \<subseteq> labels_in (nlabel s) (nlabel s') \<union> labels_in lo hi"

lemma placed_resolved:
  assumes g: "good_items s its s'" and a: "aimed labels targets 0 its" and w: "wf_marks el (length its) lo hi labels"
    and lo: "nlabel s' \<le> lo" and el: "\<And>e. el = Some e \<Longrightarrow> e \<notin> labels_in (nlabel s) (nlabel s')"
  defines "out \<equiv> placed_lines labels targets 0 its"
  shows "resolved s its s' lo hi el
     (if labels (length its) \<noteq> None \<and> labels (length its) \<noteq> el then out @ label_line labels (length its) else out)"
    (is "resolved s its s' lo hi el ?ls")
proof -
  have gs: "\<forall>it \<in> set its. good s it s'" and d: "distinct (concat (map (\<lambda>it. label_defs (lines it)) its))"
    using g by (auto simp: good_items_def)
  have L: "(\<Union>it \<in> set its. set (label_defs (lines it))) \<subseteq> labels_in (nlabel s) (nlabel s')"
    using gs by (auto simp: good_def)
  have ran: "l \<in> labels_in lo hi \<or> el = Some l" if "labels t = Some l" for t l
    using wf_marksD [OF w that] by auto
  have disj: "ran labels \<inter> (\<Union>it \<in> set its. set (label_defs (lines it))) = {}"
    using L ran el labels_in_disjoint [OF lo, of "nlabel s" hi] by (fastforce simp: ran_def)
  have dist: "distinct (label_defs out)" unfolding out_def
    by (rule placed_distinct [OF _ d disj]) (use w in \<open>simp add: wf_marks_def\<close>)
  note pb = placed_basic [OF gs, of labels targets 0, folded out_def]
  have defs: "set (label_defs out) = {l. \<exists>t < length its. labels t = Some l} \<union> (\<Union>it \<in> set its. set (label_defs (lines it)))"
    unfolding out_def placed_label_set by simp
  have below: "l \<in> labels_in lo hi" if "labels t = Some l" "t < length its" for t l
    using w that by (auto simp: wf_marks_def)
  show ?thesis
  proof (cases el)
    case (Some e)
    then have ls: "?ls = out" using w by (auto simp: wf_marks_def)
    have "l' = e" if "labels (length its) = Some l'" for l'
      using w [unfolded Some wf_marks_def, THEN conjunct2, rule_format, OF that] by simp
    then have "in_range (out @ [Label e])" unfolding out_def
      by (intro placed_in_range [OF gs a] in_range_no_refs) auto
    with pb dist defs below L Some show ?thesis unfolding ls resolved_def by auto
  next
    case None
    then have ls: "?ls = out @ label_line labels (length its)" by (cases "labels (length its)") (auto simp: label_line_def)
    have "in_range (out @ label_line labels (length its))" unfolding out_def
      by (rule placed_in_range [OF gs a label_line_simps(6)]) (auto simp: label_line_def)
    moreover have "labels t \<noteq> Some l" if "labels (length its) = Some l" "t < length its" for t l
      using w that inj_onD [of labels "dom labels" "length its" t] by (auto simp: wf_marks_def dom_def)
    then have "l \<notin> set (label_defs out)" if "labels (length its) = Some l" for l
      using that disj ranI [of labels "length its" l] unfolding defs by auto
    ultimately show ?thesis
      using pb dist defs below L None ran unfolding ls resolved_def
      by (cases "labels (length its)") (auto simp: safe_code_append lrsc_ok_append, (auto dest: ran)?)
  qed
qed

lemma ok_resolve:
  assumes g: "good_items s0 its s1" and lo: "nlabel s1 \<le> nlabel s"
    and el: "\<And>e hi. el = Some e \<Longrightarrow> e \<notin> labels_in (nlabel s0) (nlabel s1) \<and> e \<notin> labels_in (nlabel s) hi"
    and Q: "\<And>ls hi q. nlabel s \<le> hi \<Longrightarrow> resolved s0 its s1 (nlabel s) hi el ls \<Longrightarrow> Q ls (s\<lparr>pos := q, nlabel := hi\<rparr>)"
  shows "ok (resolve its el s) Q"
  unfolding resolve_def
proof (intro vcg)
  have w: "wf_marks el (length its) (nlabel s) (nlabel s) Map.empty" by (simp add: wf_marks_def)
  have b: "\<And>it. it \<in> set its \<Longrightarrow> branch it \<Longrightarrow> isz it \<le> maxdist it" using g by (auto simp: good_items_def good_def)
  show "ok (place_labels el (length its) 0 its Map.empty Map.empty s)
     (\<lambda>x sa. ok ((case x of (labels, targets) \<Rightarrow> \<lambda>s. Some (placed_lines labels targets 0 its) \<bind>
        (\<lambda>out. Some (if labels (length its) \<noteq> None \<and> labels (length its) \<noteq> el
           then out @ label_line labels (length its) else out, s))) sa) Q)"
  proof (rule ok_place_labels [OF w])
    fix labels targets hi q
    assume h: "wf_marks el (length its) (nlabel s) hi labels" "nlabel s \<le> hi" "aimed labels targets 0 its"
    show "ok ((case (labels, targets) of (labels, targets) \<Rightarrow> \<lambda>s. Some (placed_lines labels targets 0 its) \<bind>
        (\<lambda>out. Some (if labels (length its) \<noteq> None \<and> labels (length its) \<noteq> el
           then out @ label_line labels (length its) else out, s))) (s\<lparr>pos := q, nlabel := hi\<rparr>)) Q"
      by (intro vcg ok_bind_Some Q h(2) placed_resolved [OF g h(3) h(1) lo]) (use el in auto)
  qed (use b el in auto)
qed

end
