(* ===== verification/Gen_Blocks.thy ===== *)
theory Gen_Blocks
  imports Gen_Resolve
begin

text \<open>
  Blocks and loops over a method table that meets the contract. The interface of
  the table is the locale \<open>generator\<close>; a loop needs a table for the inside of
  loops, the locale \<open>loop_body\<close>. The dispatcher of depth 1 is interpreted as the
  one, the dispatcher of depth 2 as the table of the whole program.
\<close>

section \<open>The interface of a method table\<close>

definition weighted :: "gen \<Rightarrow> bool" where
  "weighted s \<longleftrightarrow> (\<exists>c \<in> set CATS. 0 < weight (weights s) c)"

lemma good_mono: "good s it s1 \<Longrightarrow> nlabel s1 \<le> nlabel s2 \<Longrightarrow> good s it s2"
  unfolding good_def using labels_in_mono [of "nlabel s" "nlabel s" "nlabel s1" "nlabel s2"] by blast

lemma good_frame:
  assumes "frame s s1" "good s1 it s2"
  shows "good s it s2"
proof -
  have "labels_in (nlabel s1) (nlabel s2) \<subseteq> labels_in (nlabel s) (nlabel s2)"
    using assms(1) by (intro labels_in_mono) (auto simp: frame_def)
  with assms show ?thesis unfolding good_def frame_def by auto
qed

lemma good_items_Cons:
  assumes "good s it s1" "frame s s1" "good_items s1 its s2" "nlabel s1 \<le> nlabel s2"
  shows "good_items s (it # its) s2"
proof -
  have "set (label_defs (lines it)) \<subseteq> labels_in (nlabel s) (nlabel s1)" "distinct (label_defs (lines it))"
    using assms(1) by (auto simp: good_def)
  moreover have "(\<Union>it \<in> set its. set (label_defs (lines it))) \<subseteq> labels_in (nlabel s1) (nlabel s2)"
    using assms(3) by (auto simp: good_items_def good_def)
  moreover have "labels_in (nlabel s) (nlabel s1) \<inter> labels_in (nlabel s1) (nlabel s2) = {}"
    by (rule labels_in_disjoint) simp
  ultimately have "distinct (concat (map (\<lambda>it. label_defs (lines it)) (it # its)))"
    using assms(3) by (auto simp: good_items_def)
  moreover have "good s it s2" by (rule good_mono [OF assms(1,4)])
  moreover have "\<forall>it \<in> set its. good s it s2" using assms(2,3) by (auto simp: good_items_def intro: good_frame)
  ultimately show ?thesis by (simp add: good_items_def)
qed

locale generator =
  fixes g :: "string \<Rightarrow> item gm" and pre :: "gen \<Rightarrow> bool"
  assumes meets: "c \<in> set CATS \<Longrightarrow> contract pre (g c)"
    and stable: "pre s \<Longrightarrow> frame s s' \<Longrightarrow> pre s'"
    and pre_weighted: "pre s \<Longrightarrow> weighted s"
begin

lemma ok_repeat_items:
  assumes "pre s" "length cats = length ws" "sum_list ws \<noteq> 0" "set cats \<subseteq> set CATS"
  shows "ok (repeat_items g cats ws n s) (\<lambda>its s'. frame s s' \<and> good_items s its s' \<and> length its = n)"
  using assms(1)
proof (induction n arbitrary: s)
  case 0
  show ?case by (simp add: good_items_def)
next
  case (Suc n)
  have step: "ok (g c (s\<lparr>pos := q\<rparr>))
     (\<lambda>it s'. ok (repeat_items g cats ws n s' \<bind> (\<lambda>(its, s). Some (it # its, s)))
       (\<lambda>its s'. frame s s' \<and> good_items s its s' \<and> length its = Suc n))" if c: "c \<in> set cats" for c q
  proof -
    have p: "pre (s\<lparr>pos := q\<rparr>)" by (rule stable [OF Suc.prems frame_pos])
    have "ok (g c (s\<lparr>pos := q\<rparr>)) (\<lambda>it s'. frame s s' \<and> good s it s')"
      using contractD [OF meets p] c assms(4) by auto
    then show ?thesis
    proof (rule ok_mono)
      fix it s1 assume a: "frame s s1 \<and> good s it s1"
      then have "ok (repeat_items g cats ws n s1) (\<lambda>its s'. frame s1 s' \<and> good_items s1 its s' \<and> length its = n)"
        using stable [OF Suc.prems] by (intro Suc.IH) auto
      then show "ok (repeat_items g cats ws n s1 \<bind> (\<lambda>(its, s). Some (it # its, s)))
           (\<lambda>its s'. frame s s' \<and> good_items s its s' \<and> length its = Suc n)"
        unfolding ok_bind ok_Some
        by (rule ok_mono) (use a in \<open>auto intro: frame_trans good_items_Cons simp: frame_def\<close>)
    qed
  qed
  show ?case unfolding repeat_items.simps
    by (intro ok_bindI ok_choices assms(2,3) step)
qed

lemma ok_block:
  assumes "pre s"
  shows "ok (block_with g n s) (\<lambda>its s'. frame s s' \<and> good_items s its s' \<and> length its = n)"
proof -
  let ?cats = "[c \<leftarrow> CATS. 0 < weight (weights s) c]"
  obtain c where "c \<in> set CATS" "0 < weight (weights s) c"
    using pre_weighted [OF assms] by (auto simp: weighted_def)
  then have "sum_list (map (weight (weights s)) ?cats) \<noteq> 0" by auto
  then show ?thesis unfolding block_with_def Let_def by (intro ok_repeat_items assms) auto
qed

end

section \<open>Loops\<close>

lemma in_range_snoc:
  assumes "in_range A" "refs l = [To t]" "k < length A" "A ! k = Label t" "reach l (span A (length A) k)"
  shows "in_range (A @ [l])"
  unfolding in_range_def
proof (intro allI impI ballI)
  fix j r assume j: "j < length (A @ [l])" and r: "r \<in> set (refs ((A @ [l]) ! j))"
  show "\<exists>l' k. r = To l' \<and> k < length (A @ [l]) \<and> (A @ [l]) ! k = Label l' \<and> reach ((A @ [l]) ! j) (span (A @ [l]) j k)"
  proof (cases "j < length A")
    case True
    then obtain l' k where "r = To l'" "k < length A" "A ! k = Label l'" "reach (A ! j) (span A j k)"
      using assms(1) r by (fastforce simp: in_range_def nth_append)
    with True show ?thesis by (intro exI [of _ l'] exI [of _ k]) (simp add: nth_append span_suffix)
  next
    case False
    then have "j = length A" using j by simp
    with r assms show ?thesis by (intro exI [of _ t] exI [of _ k]) (simp add: nth_append span_suffix)
  qed
qed

text \<open>The lines of a loop up to its backward branch.\<close>

definition loop_lines :: "nat \<Rightarrow> nat \<Rightarrow> string \<Rightarrow> string \<Rightarrow> asm list \<Rightarrow> asm list" where
  "loop_lines c n ltop cont ls =
     li c n @ [Label ltop] @ ls @ [Label cont, Ins ''addi'' [Reg c, Reg c, Imm (-1)]]"

lemma li_simps [simp]:
  "lines_size (li c n) = 8" "writes (li c n) = {c}" "length (li c n) = 2" "label_defs (li c n) = []"
  by (simp_all add: li_def Let_def isize_def stores_def branches_def stops_def)

lemma li_chunk: "b \<noteq> c \<Longrightarrow> chunk_ok b (li c n)"
  unfolding chunk_ok_def
  by (auto intro!: no_access_safe simp: li_def Let_def width_def stores_def branches_def stops_def)

lemma addi_chunk: "b \<noteq> c \<Longrightarrow> chunk_ok b [Ins ''addi'' [Reg c, Reg x, Imm i]]"
  unfolding chunk_ok_def by (auto intro!: no_access_safe simp: width_def stores_def branches_def stops_def)

lemma label_chunk: "chunk_ok b [Label x]"
  by (simp add: chunk_ok_def mem_safe_def)

lemma safe_code_Cons: "chunk_ok b [x] \<Longrightarrow> safe_code b ls \<Longrightarrow> safe_code b (x # ls)"
  using safe_code_append [OF safe_code_chunk] by fastforce

lemma li_in_range: "in_range (li c n)"
  by (rule in_range_no_refs) (auto simp: li_def Let_def)

lemma li_lrsc: "lrsc_ok (li c n)"
  by (simp add: li_def Let_def is_lr_def)

lemma loop_in_range:
  assumes r: "in_range (ls @ [Label cont])" and l: "refs l = [To ltop]" "reach l (- int (lines_size ls + 4))"
    and d: "d \<in> {[], [OptRvc]}"
  shows "in_range ((loop_lines c n ltop cont ls @ d) @ [l])"
proof (rule in_range_snoc [where k = 2])
  let ?A = "loop_lines c n ltop cont ls @ d"
  have "in_range d" "lines_size d = 0" using d by (auto intro: in_range_no_refs)
  moreover have "in_range [Label ltop]" "in_range [Ins ''addi'' [Reg c, Reg c, Imm (-1)]]"
    by (auto intro: in_range_no_refs)
  ultimately have "in_range ((li c n @ [Label ltop]) @ (ls @ [Label cont]) @ [Ins ''addi'' [Reg c, Reg c, Imm (-1)]] @ d)"
    using in_range_append [OF in_range_append [OF li_in_range] in_range_append [OF r in_range_append]] by blast
  then show "in_range ?A" by (simp add: loop_lines_def)
  show "?A ! 2 = Label ltop" by (simp add: loop_lines_def nth_append)
  have "take 2 ?A = li c n" "lines_size ?A = lines_size (li c n) + (lines_size ls + 4)"
    using d by (auto simp: loop_lines_def isize_def)
  then have "span ?A (length ?A) 2 = - int (lines_size ls + 4)" unfolding span_def by simp
  with l(2) show "reach l (span ?A (length ?A) 2)" by simp
qed (use l in \<open>simp_all add: loop_lines_def\<close>)

text \<open>The backward branches of \<open>g_loop\<close>.\<close>

definition back_branch :: "nat \<Rightarrow> string \<Rightarrow> asm \<Rightarrow> bool" where
  "back_branch c ltop l \<longleftrightarrow> l \<in> {Ins ''bnez'' [Reg c, Lab (To ltop)], Ins ''blt'' [Reg 0, Reg c, Lab (To ltop)],
     Ins ''bne'' [Reg c, Reg 0, Lab (To ltop)], Ins ''bltu'' [Reg 0, Reg c, Lab (To ltop)],
     Ins ''c.bnez'' [Reg c, Lab (To ltop)]}"

lemma back_branch_simps:
  assumes "back_branch c ltop l"
  shows "refs l = [To ltop]" "dest l = None" "access l rs = None" "\<not> is_lr l" "\<not> is_label l"
  using assms by (auto simp: back_branch_def branches_def width_def is_lr_def)

lemma good_loop:
  assumes r: "resolved s0 its s1 lo hi (Some cont) ls" and l: "back_branch c ltop l"
    and s0: "reserved s0 = insert c (reserved s)" "base s0 = base s" "nlabel s0 = nlabel s"
    and c: "c \<notin> reserved s" "base s \<in> reserved s" "\<not> in_loop s"
    and lab: "nlabel s \<le> m" "nlabel s1 = m" "ltop = ''L'' @ dec_nat (Suc m)" "cont = ''L'' @ dec_nat (Suc (Suc m))"
      "lo = Suc (Suc m)" "lo \<le> hi" "nlabel s' = hi"
    and far: "reach l (- int (sum_list (map isz its) + 4))"
    and d: "d \<in> {[], [OptRvc]}" "e \<in> {[], [OptNorvc]}"
    and sz: "sz = 8 + (sum_list (map isz its) + 4) + lsize l"
  shows "good s (Item ((loop_lines c n ltop cont ls @ d) @ [l] @ e) sz) s'" (is "good s (Item ?ls sz) s'")
proof -
  note r' = r [unfolded resolved_def] and bs = back_branch_simps [OF l]
  have de: "lines_size d = 0" "lines_size e = 0" "writes d = {}" "writes e = {}" "chunk_ok b d" "chunk_ok b e"
    "lrsc_ok d" "lrsc_ok e" "label_defs d = []" "label_defs e = []" "in_range e" for b
    using d by (auto simp: chunk_ok_def intro!: no_access_safe in_range_no_refs)
  have b: "base s \<noteq> c" using c by auto
  have size: "lines_size ?ls = sz" using r' sz de by (simp add: loop_lines_def isize_def)
  have wr: "writes ?ls \<inter> reserved s = {}"
    using r' s0 c de bs(2) by (auto simp: loop_lines_def stores_def branches_def stops_def)
  have "chunk_ok (base s) [l]" using bs by (auto simp: chunk_ok_def intro!: no_access_safe)
  then have safe: "safe_code (base s) ?ls"
    using r' s0 b de by (simp add: loop_lines_def safe_code_append safe_code_Cons safe_code_chunk li_chunk
        addi_chunk label_chunk)
  have lrsc: "lrsc_ok ?ls"
    using r' de bs(4) by (auto simp: loop_lines_def li_lrsc is_lr_def intro!: lrsc_ok_append)
  have rng: "in_range ?ls"
    using in_range_append [OF loop_in_range [OF _ bs(1) _ d(1)] de(11), of ls cont c n] r' far by simp
  have lbl: "label_defs (l # xs) = label_defs xs" for xs using bs(5) by (cases l) simp_all
  have defs: "label_defs ?ls = ltop # label_defs ls @ [cont]"
    using de lbl by (simp add: loop_lines_def)
  have L: "set (label_defs ls) \<subseteq> labels_in (nlabel s) m \<union> labels_in lo hi" using r' s0 lab by simp
  have "ltop \<noteq> cont" "ltop \<in> labels_in (nlabel s) hi" "cont \<in> labels_in (nlabel s) hi"
    unfolding lab(3,4) label_in_iff using lab by auto
  moreover have "ltop \<notin> labels_in (nlabel s) m \<union> labels_in lo hi" "cont \<notin> labels_in (nlabel s) m \<union> labels_in lo hi"
    unfolding lab(3,4) Un_iff label_in_iff using lab by auto
  moreover have "labels_in (nlabel s) m \<union> labels_in lo hi \<subseteq> labels_in (nlabel s) hi"
    using lab labels_in_mono by (metis Un_least le_Suc_eq le_trans nle_le)
  ultimately have "distinct (label_defs ?ls)" "set (label_defs ?ls) \<subseteq> labels_in (nlabel s) (nlabel s')"
    using L r' lab(7) unfolding defs by auto
  then show ?thesis using size wr safe lrsc rng c(3) by (simp add: good_def Item_def)
qed

text \<open>
  A loop needs a table for its body: entering the loop reserves the counter and
  sets \<open>in_loop\<close>, and items made there are small enough for the backward branch.
\<close>

definition entering :: "nat \<Rightarrow> gen \<Rightarrow> gen" where
  "entering c s = (reserve c s)\<lparr>in_loop := True\<rparr>"

definition top_level :: "gen \<Rightarrow> bool" where
  "top_level s \<longleftrightarrow> outside s \<and> weighted s"

definition loop_level :: "gen \<Rightarrow> bool" where
  "loop_level s \<longleftrightarrow> inside s \<and> weighted s"

lemma level_frame: "frame s s' \<Longrightarrow> top_level s \<Longrightarrow> top_level s'" "frame s s' \<Longrightarrow> loop_level s \<Longrightarrow> loop_level s'"
  by (auto simp: top_level_def loop_level_def outside_def inside_def ready_def weighted_def frame_def frame_room room_def)

lemma level_enter: "top_level s \<Longrightarrow> c \<noteq> 0 \<Longrightarrow> loop_level (entering c s\<lparr>pos := q\<rparr>)"
  using room_reserve [of 1 s c]
  by (auto simp: top_level_def loop_level_def outside_def inside_def ready_def weighted_def entering_def room_def
      numeral_2_eq_2 reserve_def)

lemma sum_isz_small:
  assumes "good_items s its s'" "in_loop s"
  shows "sum_list (map isz its) \<le> 80 * length its"
proof -
  have "\<forall>it \<in> set its. isz it \<le> 80" using assms by (auto simp: good_items_def good_def)
  then show ?thesis by (induction its) auto
qed

lemma ok_loop_close:
  assumes g: "good_items s0 its s1" "in_loop s0" "length its \<le> 10"
    and s0: "reserved s0 = insert c (reserved s)" "base s0 = base s" "nlabel s0 = nlabel s"
    and c: "c \<notin> reserved s" "base s \<in> reserved s" "\<not> in_loop s"
    and s2: "frame s s2" "nlabel s2 = nlabel s1"
  shows "ok (loop_close c n its s2) (\<lambda>it s'. frame s s' \<and> good s it s')"
proof -
  define m where "m = nlabel s1"
  define ltop cont where "ltop = ''L'' @ dec_nat (Suc m)" and "cont = ''L'' @ dec_nat (Suc (Suc m))"
  note G = good_loop [OF _ _ s0 c _ m_def [symmetric] ltop_def cont_def refl]
  have m: "nlabel s \<le> m" using s2 by (simp add: m_def frame_def)
  have small: "sum_list (map isz its) \<le> 800" using sum_isz_small [OF g(1,2)] g(3) by linarith
  have fin: "ok (resolve its (Some cont) (s2\<lparr>nlabel := Suc (Suc m)\<rparr>)) Q"
    if "\<And>ls hi q. Suc (Suc m) \<le> hi \<Longrightarrow> resolved s0 its s1 (Suc (Suc m)) hi (Some cont) ls \<Longrightarrow>
       Q ls (s2\<lparr>nlabel := Suc (Suc m), pos := q, nlabel := hi\<rparr>)" for Q
    by (rule ok_resolve [OF g(1)]) (use that in \<open>auto simp: m_def cont_def label_in_iff [simplified]\<close>)
  have l1: "label s2 = Some (ltop, s2\<lparr>nlabel := Suc m\<rparr>)"
    and l2: "label (s2\<lparr>nlabel := Suc m\<rparr>) = Some (cont, s2\<lparr>nlabel := Suc (Suc m)\<rparr>)"
    by (simp_all add: label_def ltop_def cont_def m_def s2 Let_def)
  have long: "good s (Item ((li c n @ [Label ltop] @ ls @ [Label cont, Ins ''addi'' [Reg c, Reg c, Imm (-1)]]) @ [l])
      (8 + (sum_list (map isz its) + 4) + 4)) s'"
    if "l \<in> {Ins ''bnez'' [Reg c, Lab (To ltop)], Ins ''blt'' [Reg 0, Reg c, Lab (To ltop)],
       Ins ''bne'' [Reg c, Reg 0, Lab (To ltop)], Ins ''bltu'' [Reg 0, Reg c, Lab (To ltop)]}"
      "resolved s0 its s1 (Suc (Suc m)) hi (Some cont) ls" "Suc (Suc m) \<le> hi" "nlabel s' = hi" for ls hi l s'
    using G [where l = l and d = "[]" and e = "[]" and n = n, OF that(2) _ m that(3,4)] that(1) small
    by (fastforce simp: loop_lines_def back_branch_def branches_def isize_def)
  have short: "good s (Item ((li c n @ [Label ltop] @ ls @ [Label cont, Ins ''addi'' [Reg c, Reg c, Imm (-1)]])
      @ rvc (Ins ''c.bnez'' [Reg c, Lab (To ltop)])) (8 + (sum_list (map isz its) + 4) + 2)) s'"
    if "sum_list (map isz its) + 4 < 200"
      "resolved s0 its s1 (Suc (Suc m)) hi (Some cont) ls" "Suc (Suc m) \<le> hi" "nlabel s' = hi" for ls hi s'
    using G [where l = "Ins ''c.bnez'' [Reg c, Lab (To ltop)]" and d = "[OptRvc]" and e = "[OptNorvc]" and n = n,
        OF that(2) _ m that(3,4)] that(1)
    by (simp add: loop_lines_def back_branch_def isize_def rvc_def)
  show ?thesis unfolding loop_close_def l1 l2 Option.bind.simps prod.case
    by (intro vcg fin ok_bind_Some wp_intro conjI short long) (use s2 m in \<open>simp_all add: frame_def\<close>)
qed

locale loop_body = generator +
  assumes pre_loop: "loop_level s \<Longrightarrow> pre s"
begin

lemma loop_contract: "contract top_level (g_loop_with g)"
proof (rule contractI)
  fix s assume t: "top_level s"
  have r: "room 1 s" "\<not> in_loop s" "noread s = {}" using t by (auto simp: top_level_def outside_def ready_def)
  note b = room_base [OF r(1)]
  have "ok (block_with g k (entering c s\<lparr>pos := q\<rparr>))
     (\<lambda>body s'. ok (loop_close c n body (unreserve {c} (s'\<lparr>in_loop := False\<rparr>))) (\<lambda>it s'. frame s s' \<and> good s it s'))"
    if c: "3 \<le> c" "c \<notin> reserved s" and k: "k < 11" for c k q n
  proof -
    have "pre (entering c s\<lparr>pos := q\<rparr>)" using level_enter [OF t] c pre_loop by auto
    then show ?thesis
    proof (rule ok_mono [OF ok_block])
      fix its s1 assume a: "frame (entering c s\<lparr>pos := q\<rparr>) s1 \<and> good_items (entering c s\<lparr>pos := q\<rparr>) its s1 \<and> length its = k"
      show "ok (loop_close c n its (unreserve {c} (s1\<lparr>in_loop := False\<rparr>))) (\<lambda>it s'. frame s s' \<and> good s it s')"
        by (rule ok_loop_close [of "entering c s\<lparr>pos := q\<rparr>" its s1])
           (use a b c k r in \<open>auto simp: entering_def frame_def unreserve_def reserve_def\<close>)
    qed
  qed
  then show "ok (g_loop_with g s) (\<lambda>it s'. frame s s' \<and> good s it s')"
    unfolding g_loop_with_def
    by (subst if_not_P [OF r(2)], intro vcg ok_bind_Some wp_intro)
       (use r in \<open>auto simp: entering_def elim: room_mono\<close>)
qed

end

section \<open>The dispatcher meets both interfaces\<close>

lemma loop_level_ready: "loop_level s \<Longrightarrow> ready 2 s" "top_level s \<Longrightarrow> ready 2 s"
  using ready_room(2) [of 1 s 2] by (auto simp: loop_level_def top_level_def inside_def outside_def)

lemma loop_level_loop: "contract loop_level (g_loop_with g)"
  by (rule contract_weaken [OF loop_contract_inside]) (simp add: loop_level_def)

lemma level_weighted: "loop_level s \<Longrightarrow> weighted s" "top_level s \<Longrightarrow> weighted s"
  by (simp_all add: loop_level_def top_level_def)

interpretation inner: loop_body "g_cat 1" loop_level
proof unfold_locales
  show "contract loop_level (g_cat 1 c)" if "c \<in> set CATS" for c
    using g_cat_contract [OF that loop_level_ready(1) loop_level_loop, where d = 0] by simp
qed (simp_all add: level_frame level_weighted)

interpretation outer: generator "g_cat 2" top_level
proof unfold_locales
  show "contract top_level (g_cat 2 c)" if "c \<in> set CATS" for c
    using g_cat_contract [OF that loop_level_ready(2) inner.loop_contract] by (simp add: numeral_2_eq_2)
qed (simp_all add: level_frame level_weighted)

end
