(* ===== verification/Flow.thy ===== *)
theory Flow
  imports Gen_Contract
begin

text \<open>
  Execution of safe code with its control flow: a step runs one line, and a
  control transfer may also go to any label. The register jumps of the generator
  are covered, since they load the address of a label.
\<close>

inductive cfg_step :: "asm list \<Rightarrow> nat \<times> regs \<Rightarrow> nat \<times> regs \<Rightarrow> bool" for ls where
  fall: "j < length ls \<Longrightarrow> cfg_step ls (j, rs) (Suc j, exec1 h (ls ! j) rs)"
| jump: "j < length ls \<Longrightarrow> is_ctrl (ls ! j) \<Longrightarrow> k < length ls \<Longrightarrow> ls ! k = Label l \<Longrightarrow>
     cfg_step ls (j, rs) (k, exec1 h (ls ! j) rs)"

inductive_cases cfg_stepE: "cfg_step ls (j, rs) (k, rs')"

inductive cfg_reach :: "asm list \<Rightarrow> regs \<Rightarrow> nat \<Rightarrow> regs \<Rightarrow> bool" for ls rs0 where
  start: "cfg_reach ls rs0 0 rs0"
| step: "cfg_reach ls rs0 j rs \<Longrightarrow> cfg_step ls (j, rs) (k, rs') \<Longrightarrow> cfg_reach ls rs0 k rs'"

text \<open>What is left of the chunk at line \<open>j\<close> only touches the region.\<close>

definition safe_at :: "nat \<Rightarrow> u32 \<Rightarrow> asm list \<Rightarrow> nat \<Rightarrow> regs \<Rightarrow> bool" where
  "safe_at b B ls j rs \<longleftrightarrow> rs b = B \<and> (\<exists>c cs. drop j ls = c @ concat cs \<and> list_all (chunk_ok b) cs \<and>
     (\<forall>h. \<forall>a \<in> accesses h c rs. in_region B a))"

lemma concat_Cons_chunk:
  "list_all P cs \<Longrightarrow> concat cs = x # xs \<Longrightarrow> \<exists>c cs'. P (x # c) \<and> xs = c @ concat cs' \<and> list_all P cs'"
proof (induction cs)
  case (Cons c cs)
  then show ?case by (cases c) auto
qed simp

lemma label_chunk_pos:
  assumes "list_all (chunk_ok b) cs" "k < length (concat cs)" "concat cs ! k = Label l"
  shows "\<exists>cs'. drop k (concat cs) = Label l # concat cs' \<and> list_all (chunk_ok b) cs'"
  using assms
proof (induction cs arbitrary: k)
  case (Cons c cs)
  show ?case
  proof (cases "k < length c")
    case True
    then have "Label l \<in> set c" using Cons.prems(3) by (auto simp: nth_append in_set_conv_nth)
    then have "\<not> list_all (\<lambda>l. \<not> is_label l) c" by (auto simp: list_all_iff intro!: bexI [of _ "Label l"])
    then have "length c = 1" using Cons.prems(1) by (auto simp: chunk_ok_def)
    with True Cons.prems show ?thesis by (cases c) auto
  next
    case False
    then show ?thesis using Cons.IH [of "k - length c"] Cons.prems by (auto simp: nth_append)
  qed
qed simp

lemma safe_at_line:
  assumes "safe_at b B ls j rs" "j < length ls"
  obtains c cs where "drop (Suc j) ls = c @ concat cs" "list_all (chunk_ok b) cs" "rs b = B"
    "\<And>h a. a \<in> accesses h (ls ! j # c) rs \<Longrightarrow> in_region B a"
proof -
  have d: "drop j ls = ls ! j # drop (Suc j) ls" using assms(2) by (simp add: Cons_nth_drop_Suc)
  obtain c cs where c: "rs b = B" "drop j ls = c @ concat cs" "list_all (chunk_ok b) cs"
    "\<And>h a. a \<in> accesses h c rs \<Longrightarrow> in_region B a"
    using assms(1) unfolding safe_at_def by blast
  show thesis
  proof (cases c)
    case Nil
    then obtain c' cs' where n: "chunk_ok b (ls ! j # c')" "drop (Suc j) ls = c' @ concat cs'" "list_all (chunk_ok b) cs'"
      using concat_Cons_chunk [OF c(3), of "ls ! j" "drop (Suc j) ls"] c(2) d by auto
    then show thesis using that [of c' cs'] c(1) by (auto simp: chunk_ok_def mem_safe_def simp del: accesses.simps)
  next
    case (Cons x c')
    then have "x = ls ! j" "drop (Suc j) ls = c' @ concat cs" using c(2) d by auto
    then show thesis using that [of c' cs] c(1,3,4) Cons by (simp del: accesses.simps)
  qed
qed

lemma safe_at_step:
  assumes "safe_code b ls" "b \<notin> writes ls" "safe_at b B ls j rs" "cfg_step ls (j, rs) (k, rs')"
  shows "safe_at b B ls k rs'"
proof -
  have j: "j < length ls" using assms(4) by (auto elim: cfg_stepE)
  obtain h where rs': "rs' = exec1 h (ls ! j) rs" using assms(4) by (auto elim: cfg_stepE)
  obtain c cs where c: "drop (Suc j) ls = c @ concat cs" "list_all (chunk_ok b) cs" "rs b = B"
    "\<And>h a. a \<in> accesses h (ls ! j # c) rs \<Longrightarrow> in_region B a"
    using safe_at_line [OF assms(3) j] by blast
  have "dest (ls ! j) \<noteq> Some b" using assms(2) j by (auto simp: writes_def)
  then have B: "rs' b = B" using rs' c(3) by (simp add: exec1_frame)
  consider h' where "k = Suc j" "rs' = exec1 h' (ls ! j) rs" | l where "k < length ls" "ls ! k = Label l"
    using assms(4) by (auto elim: cfg_stepE)
  then show ?thesis
  proof cases
    case (1 h')
    have "in_region B a" if "a \<in> accesses g c (exec1 h' (ls ! j) rs)" for g a
      by (rule c(4) [of _ "\<lambda>n. case n of 0 \<Rightarrow> h' | Suc m \<Rightarrow> g m"]) (use that in simp)
    with 1 B c show ?thesis unfolding safe_at_def by blast
  next
    case (2 l)
    obtain cs where "ls = concat cs" "list_all (chunk_ok b) cs" using assms(1) by (auto simp: safe_code_def)
    then obtain cs' where "drop k ls = [Label l] @ concat cs'" "list_all (chunk_ok b) cs'"
      using label_chunk_pos [of b cs k l] 2 by auto
    moreover have "accesses g [Label l] rs' = {}" for g by simp
    ultimately show ?thesis using B unfolding safe_at_def by (metis empty_iff)
  qed
qed

lemma reach_safe:
  assumes "safe_code b ls" "b \<notin> writes ls" "cfg_reach ls rs0 j rs"
  shows "safe_at b (rs0 b) ls j rs"
  using assms(3)
proof induction
  case start
  obtain cs where "ls = concat cs" "list_all (chunk_ok b) cs" using assms(1) by (auto simp: safe_code_def)
  then show ?case unfolding safe_at_def by (intro conjI exI [of _ "[]"] exI [of _ cs]) auto
qed (rule safe_at_step [OF assms(1,2)])

lemma reach_access_in_region:
  assumes "safe_code b ls" "b \<notin> writes ls" "cfg_reach ls rs0 j rs" "j < length ls" "access (ls ! j) rs = Some a"
  shows "in_region (rs0 b) a"
proof -
  obtain c where "\<And>h a. a \<in> accesses h (ls ! j # c) rs \<Longrightarrow> in_region (rs0 b) a"
    using safe_at_line [OF reach_safe [OF assms(1-3)] assms(4)] by metis
  then show ?thesis using assms(5) by simp
qed

end
