(* ===== verification/Gen_Program.thy ===== *)
theory Gen_Program
  imports Gen_Blocks Flow
begin

text \<open>
  Whole programs: \<open>program\<close> never raises, and what the generator promises of the
  programs holds for every seed, mix and number of items.
\<close>

section \<open>The parts of a program\<close>

lemma ok_li_regs: "(\<And>ls q. Q ls (s\<lparr>pos := q\<rparr>)) \<Longrightarrow> ok (li_regs rs s) Q"
proof (induction rs arbitrary: s Q)
  case Nil
  from Nil [of "[]" "pos s"] show ?case by simp
next
  case (Cons r rs)
  have "ok (li_regs rs (s\<lparr>pos := q\<rparr>)) (\<lambda>ls s. Q (li r v @ ls) s)" for v q
    by (rule Cons.IH) (simp add: Cons.prems)
  then show ?case unfolding li_regs.simps by (intro vcg wp_intro) simp
qed

lemma ok_vals: "(\<And>vs q. length vs = n \<Longrightarrow> list_all (\<lambda>v. v < 2 ^ 32) vs \<Longrightarrow> Q vs (s\<lparr>pos := q\<rparr>)) \<Longrightarrow> ok (vals n s) Q"
proof (induction n arbitrary: s Q)
  case 0
  from 0 [of "[]" "pos s"] show ?case by simp
next
  case (Suc n)
  have "ok (vals n (s\<lparr>pos := q\<rparr>)) (\<lambda>vs s. Q (v # vs) s)" if "v < 2 ^ 32" for v q
    by (rule Suc.IH) (use Suc.prems [of "v # _"] that in auto)
  then show ?case unfolding vals.simps by (intro vcg wp_intro) simp
qed

lemma ok_prologue: "(\<And>ls q. Q ls (s\<lparr>pos := q\<rparr>)) \<Longrightarrow> ok (prologue_lines s) Q"
  unfolding prologue_lines_def by (intro vcg ok_li_regs wp_intro) simp_all

lemma mixes_weighted: "map_of MIXES mix = Some w \<Longrightarrow> \<exists>c \<in> set CATS. 0 < weight w c"
proof -
  assume "map_of MIXES mix = Some w"
  then have "(mix, w) \<in> set MIXES" by (rule map_of_SomeD)
  moreover have "list_all (\<lambda>(m, w). list_ex (\<lambda>c. 0 < weight w c) CATS) MIXES" by code_simp
  ultimately show ?thesis by (auto simp: list_all_iff list_ex_iff)
qed

lemma Gen_init_top_level: "Gen_init tp mix = Some s \<Longrightarrow> top_level s \<and> reserved s = {base s} \<and> 3 \<le> base s \<and> base s < 32"
proof -
  assume i: "Gen_init tp mix = Some s"
  then obtain w where w: "map_of MIXES mix = Some w" by (auto simp: Gen_init_def bind_eq_Some_conv)
  have "ok (randnat 3 32 \<lparr>tape = tp, pos = 0\<rparr>) (\<lambda>b r. 3 \<le> b \<and> b < 32)" by (rule ok_randnat) auto
  then obtain b r where br: "randnat 3 32 \<lparr>tape = tp, pos = 0\<rparr> = Some (b, r)" "3 \<le> b" "b < 32"
    by (auto dest!: okD)
  with i w have "weights s = w" "base s = b" "reserved s = {b}" "noread s = {}" "\<not> in_loop s"
    by (auto simp: Gen_init_def)
  then show ?thesis using br mixes_weighted [OF w]
    by (auto simp: top_level_def outside_def ready_def room_def weighted_def)
qed

section \<open>Terminators\<close>

text \<open>RAM ends at 0x50000 on both machines.\<close>

definition ram_end :: nat where
  "ram_end = SPIKE_MEM_BASE + SPIKE_MEM_SIZE"

text \<open>
  The ways a program ends: a trap instruction, a reserved encoding, an access that
  is misaligned against the aligned BASE, an access or a jump beyond the RAM, and
  CSR accesses that are refused.
\<close>

definition beyond_ram :: "nat \<Rightarrow> int \<Rightarrow> bool" where
  "beyond_ram hi i \<longleftrightarrow> int ram_end \<le> int hi * 2 ^ 12 + i \<and> int hi * 2 ^ 12 + i < 2 ^ 32"

definition mem_op_at :: "asm \<Rightarrow> nat \<Rightarrow> int \<Rightarrow> nat \<Rightarrow> bool" where
  "mem_op_at l t i w \<longleftrightarrow> (\<forall>rs. access l rs = Some (rs t + word_of_int i, w))"

definition csr_write :: "string \<Rightarrow> opnd list \<Rightarrow> bool" where
  "csr_write op src \<longleftrightarrow> op \<in> {''csrrw'', ''csrrwi''} \<or> (op \<in> {''csrrs'', ''csrrc''} \<and> (\<exists>r. r \<noteq> 0 \<and> src = [Reg r]))
     \<or> (op \<in> {''csrrsi'', ''csrrci''} \<and> (\<exists>i. i \<noteq> 0 \<and> src = [Imm i]))"

definition csr_refused :: "string \<Rightarrow> opnd \<Rightarrow> opnd list \<Rightarrow> bool" where
  "csr_refused op csr src \<longleftrightarrow> csr \<in> {Hex 0x7c0, Hex 0x8ff, Sym ''hpmcounter3''}
     \<or> (csr \<in> Sym ` set (COUNTERS @ COUNTERS_H) \<and> csr_write op src)"

definition ends_program :: "nat \<Rightarrow> asm list \<Rightarrow> bool" where
  "ends_program b ls \<longleftrightarrow>
     (\<exists>m. m \<in> set stops \<and> filter (\<lambda>l. l \<noteq> OptRvc \<and> l \<noteq> OptNorvc) ls = [Ins m []])
     \<or> (\<exists>l i w. ls = [l] \<and> mem_op_at l b i w \<and> \<not> int w dvd i)
     \<or> (\<exists>l t i w. ls = [Ins ''addi'' [Reg t, Reg b, Imm i], l] \<and> t \<noteq> 0 \<and> mem_op_at l t 0 w \<and> \<not> int w dvd i)
     \<or> (\<exists>l t hi i w. ls = [Ins ''lui'' [Reg t, Hex hi], l] \<and> t \<noteq> 0 \<and> hi < 2 ^ 20 \<and> beyond_ram hi i \<and>
          (mem_op_at l t i w \<or> (\<exists>rd. l = Ins ''jalr'' [Reg rd, Mem i t])))
     \<or> (\<exists>op rd csr src. ls = [Ins op (Reg rd # csr # src)] \<and> op \<in> set csr_mnemonics \<and> csr_refused op csr src)
     \<or> (\<exists>e \<in> set RESERVED_32. ls = [Word e]) \<or> (\<exists>e \<in> set RESERVED_16. ls = [Half e])"

text \<open>One introduction rule per way to end.\<close>

lemma ends_intros:
  "m \<in> set stops \<Longrightarrow> ends_program b [Ins m []]"
  "m \<in> set stops \<Longrightarrow> ends_program b [OptRvc, Ins m [], OptNorvc]"
  "mem_op_at l b i w \<Longrightarrow> \<not> int w dvd i \<Longrightarrow> ends_program b [l]"
  "t \<noteq> 0 \<Longrightarrow> mem_op_at l t 0 w \<Longrightarrow> \<not> int w dvd i \<Longrightarrow> ends_program b [Ins ''addi'' [Reg t, Reg b, Imm i], l]"
  "t \<noteq> 0 \<Longrightarrow> hi < 2 ^ 20 \<Longrightarrow> beyond_ram hi i \<Longrightarrow> mem_op_at l t i w \<Longrightarrow> ends_program b [Ins ''lui'' [Reg t, Hex hi], l]"
  "t \<noteq> 0 \<Longrightarrow> hi < 2 ^ 20 \<Longrightarrow> beyond_ram hi i \<Longrightarrow>
     ends_program b [Ins ''lui'' [Reg t, Hex hi], Ins ''jalr'' [Reg rd, Mem i t]]"
  "op \<in> set csr_mnemonics \<Longrightarrow> csr_refused op csr src \<Longrightarrow> ends_program b [Ins op (Reg rd # csr # src)]"
  "e \<in> set RESERVED_32 \<Longrightarrow> ends_program b [Word e]"
  "e' \<in> set RESERVED_16 \<Longrightarrow> ends_program b [Half e']"
  unfolding ends_program_def by auto

lemma mem_ops:
  "mem_op_at (Ins ''lb'' [Reg r, Mem i t]) t i 1" "mem_op_at (Ins ''lbu'' [Reg r, Mem i t]) t i 1"
  "mem_op_at (Ins ''lh'' [Reg r, Mem i t]) t i 2" "mem_op_at (Ins ''lhu'' [Reg r, Mem i t]) t i 2"
  "mem_op_at (Ins ''lw'' [Reg r, Mem i t]) t i 4" "mem_op_at (Ins ''sb'' [Reg r, Mem i t]) t i 1"
  "mem_op_at (Ins ''sh'' [Reg r, Mem i t]) t i 2" "mem_op_at (Ins ''sw'' [Reg r, Mem i t]) t i 4"
  "mem_op_at (Ins ''amoadd.w'' [Reg r, Reg x, MemR t]) t 0 4" "mem_op_at (Ins ''amoswap.w'' [Reg r, Reg x, MemR t]) t 0 4"
  "mem_op_at (Ins ''amoor.w'' [Reg r, Reg x, MemR t]) t 0 4" "mem_op_at (Ins ''lr.w'' [Reg r, MemR t]) t 0 4"
  "mem_op_at (Ins ''sc.w'' [Reg r, Reg x, MemR t]) t 0 4"
  by (simp_all add: mem_op_at_def width_def)

lemma ok_misaligned_off:
  assumes "1 < w" "\<And>i q. \<not> w dvd i \<Longrightarrow> Q i (s\<lparr>pos := q\<rparr>)"
  shows "ok (misaligned_off w s) Q"
proof -
  have "\<not> w dvd w * x + y" if "1 \<le> y" "y < w" for x y :: int
    using that zdvd_not_zless [of y w] by (simp add: dvd_add_right_iff)
  with assms show ?thesis unfolding misaligned_off_def by (intro vcg wp_intro) auto
qed

lemma beyond_ram_hi: "0x50 \<le> hi \<Longrightarrow> hi < 2 ^ 20 \<Longrightarrow> 0 \<le> i \<Longrightarrow> i < 4096 \<Longrightarrow> beyond_ram hi i"
  by (simp add: beyond_ram_def ram_end_def SPIKE_MEM_BASE_def SPIKE_MEM_SIZE_def)

lemma ok_choice_pair:
  "xs \<noteq> [] \<Longrightarrow> (\<And>a b q. (a, b) \<in> set xs \<Longrightarrow> Q (a, b) (s\<lparr>pos := q\<rparr>)) \<Longrightarrow> ok (choice xs s) Q"
  by (rule ok_choice) auto

lemma high_page: "80 \<le> x \<Longrightarrow> x \<le> 1048575 \<Longrightarrow> hi \<in> set [80, 81, 96, 524288, 1048575, nat x] \<Longrightarrow> 80 \<le> hi \<and> hi < 2 ^ 20"
  by auto

lemma fault_lines:
  assumes "t \<noteq> 0"
  shows "(m, w) \<in> set [(''lw'', 4), (''lh'', 2), (''lhu'', 2), (''sw'', 4), (''sh'', 2)] \<Longrightarrow> \<not> w dvd i \<Longrightarrow>
      ends_program b [Ins m [Reg r, Mem i b]]"
    "l \<in> set [Ins ''amoadd.w'' [Reg rd, Reg rs, MemR t], Ins ''amoswap.w'' [Reg rd, Reg rs, MemR t],
        Ins ''lr.w'' [Reg rd, MemR t], Ins ''sc.w'' [Reg rd, Reg rs, MemR t]] \<Longrightarrow> i \<in> set [1, 2, 3, -1, -2, 6] \<Longrightarrow>
      ends_program b [Ins ''addi'' [Reg t, Reg b, Imm i], l]"
    "80 \<le> hi \<and> hi < 2 ^ 20 \<Longrightarrow> m \<in> set [''lb'', ''lbu'', ''lh'', ''lhu'', ''lw'', ''sb'', ''sh'', ''sw''] \<Longrightarrow> i \<in> set [0, 4, 8, 2047] \<Longrightarrow>
      ends_program b [Ins ''lui'' [Reg t, Hex hi], Ins m [Reg r, Mem i t]]"
    "80 \<le> hi \<and> hi < 2 ^ 20 \<Longrightarrow> l \<in> set [Ins ''amoor.w'' [Reg rd, Reg rs, MemR t], Ins ''lr.w'' [Reg rd, MemR t],
        Ins ''sc.w'' [Reg rd, Reg rs, MemR t]] \<Longrightarrow> ends_program b [Ins ''lui'' [Reg t, Hex hi], l]"
    "80 \<le> hi \<and> hi < 2 ^ 20 \<Longrightarrow> i \<in> set [0, 2, 4] \<Longrightarrow>
      ends_program b [Ins ''lui'' [Reg t, Hex hi], Ins ''jalr'' [Reg rd, Mem i t]]"
    "l \<in> set [Ins ''csrrw'' [Reg rd, Sym ''cycle'', Reg rs], Ins ''csrrwi'' [Reg 0, Sym ''instret'', Imm 0],
        Ins ''csrrsi'' [Reg rd, Sym ''cycleh'', Imm 1], Ins ''csrrc'' [Reg rd, Sym ''instreth'', Reg (max rs 1)]] \<Longrightarrow>
      ends_program b [l]"
    "l \<in> set [Ins ''csrrs'' [Reg rd, Hex 0x7c0, Reg 0], Ins ''csrr'' [Reg rd, Sym ''hpmcounter3''],
        Ins ''csrr'' [Reg rd, Hex 0x8ff]] \<Longrightarrow> ends_program b [l]"
proof -
  show "ends_program b [Ins m [Reg r, Mem i b]]"
    if "(m, w) \<in> set [(''lw'', 4), (''lh'', 2), (''lhu'', 2), (''sw'', 4), (''sh'', 2)]" "\<not> w dvd i"
    by (rule ends_intros(3) [of _ b i "nat w"]) (use that in \<open>auto simp: mem_ops\<close>)
  show "ends_program b [Ins ''addi'' [Reg t, Reg b, Imm i], l]"
    if "l \<in> set [Ins ''amoadd.w'' [Reg rd, Reg rs, MemR t], Ins ''amoswap.w'' [Reg rd, Reg rs, MemR t],
        Ins ''lr.w'' [Reg rd, MemR t], Ins ''sc.w'' [Reg rd, Reg rs, MemR t]]" "i \<in> set [1, 2, 3, -1, -2, 6]"
    by (rule ends_intros(4) [OF assms, of _ 4]) (use that in \<open>auto simp: mem_ops\<close>)
  show "ends_program b [Ins ''lui'' [Reg t, Hex hi], Ins m [Reg r, Mem i t]]"
    if "80 \<le> hi \<and> hi < 2 ^ 20" "m \<in> set [''lb'', ''lbu'', ''lh'', ''lhu'', ''lw'', ''sb'', ''sh'', ''sw'']" "i \<in> set [0, 4, 8, 2047]"
    by (rule ends_intros(5) [OF assms, of _ i _ "width m"])
       (use that in \<open>auto simp: mem_op_at_def width_def intro!: beyond_ram_hi\<close>)
  show "ends_program b [Ins ''lui'' [Reg t, Hex hi], l]"
    if "80 \<le> hi \<and> hi < 2 ^ 20" "l \<in> set [Ins ''amoor.w'' [Reg rd, Reg rs, MemR t], Ins ''lr.w'' [Reg rd, MemR t],
        Ins ''sc.w'' [Reg rd, Reg rs, MemR t]]"
    by (rule ends_intros(5) [OF assms, of _ 0 _ 4]) (use that in \<open>auto simp: mem_ops intro!: beyond_ram_hi\<close>)
  show "ends_program b [Ins ''lui'' [Reg t, Hex hi], Ins ''jalr'' [Reg rd, Mem i t]]"
    if "80 \<le> hi \<and> hi < 2 ^ 20" "i \<in> set [0, 2, 4]"
    by (rule ends_intros(6) [OF assms]) (use that in \<open>auto intro!: beyond_ram_hi\<close>)
  show "ends_program b [l]" if "l \<in> set [Ins ''csrrw'' [Reg rd, Sym ''cycle'', Reg rs], Ins ''csrrwi'' [Reg 0, Sym ''instret'', Imm 0],
        Ins ''csrrsi'' [Reg rd, Sym ''cycleh'', Imm 1], Ins ''csrrc'' [Reg rd, Sym ''instreth'', Reg (max rs 1)]]"
    using that by (auto intro!: ends_intros(7) simp: csr_mnemonics_def csr_refused_def csr_write_def COUNTERS_def COUNTERS_H_def)
  show "ends_program b [l]" if "l \<in> set [Ins ''csrrs'' [Reg rd, Hex 0x7c0, Reg 0], Ins ''csrr'' [Reg rd, Sym ''hpmcounter3''],
        Ins ''csrr'' [Reg rd, Hex 0x8ff]]"
    using that by (auto intro!: ends_intros(7) simp: csr_mnemonics_def csr_refused_def)
qed

lemma ok_fault_end:
  assumes t: "t \<noteq> 0" and Q: "\<And>ls q. ends_program b ls \<Longrightarrow> Q ls (s\<lparr>pos := q\<rparr>)"
  shows "ok (fault_end k b t rd rs s) Q"
proof -
  have Qs: "Q ls s" "Q ls (s\<lparr>pos := q\<rparr>)" "Q ls (s\<lparr>pos := q, pos := q2\<rparr>)" "Q ls (s\<lparr>pos := q, pos := q2, pos := q3\<rparr>)"
    "Q ls (s\<lparr>pos := q, pos := q2, pos := q3, pos := q4\<rparr>)" if "ends_program b ls" for ls q q2 q3 q4
    using Q [OF that, of "pos s"] Q [OF that] by simp_all
  note hp = high_page and E = fault_lines [OF t] and st = ends_intros(1,8,9)
  show ?thesis unfolding fault_end_def
    by (intro vcg ok_choice_pair ok_misaligned_off wp_intro Qs) (auto simp: stops_def intro: E st hp)
qed

lemma ok_terminator:
  assumes "room 4 s" "\<And>ls q. ends_program (base s) ls \<Longrightarrow> Q ls (s\<lparr>pos := q\<rparr>)"
  shows "ok (terminator s) Q"
  unfolding terminator_def
  by (intro vcg wp_intro ok_fault_end)
     (use assms in \<open>auto intro!: assms(2) intro: ends_intros(1,2) simp: stops_def\<close>)

section \<open>What holds of every program\<close>

text \<open>The body of a program: \<open>program\<close> between the prologue and the terminator.\<close>

definition body_ok :: "nat \<Rightarrow> asm list \<Rightarrow> bool" where
  "body_ok b body \<longleftrightarrow> safe_code b body \<and> b \<notin> writes body \<and> lrsc_ok body \<and> in_range body \<and> distinct (label_defs body)"

lemma top_level_room: "top_level s \<Longrightarrow> room 4 s" "top_level s \<Longrightarrow> base s \<in> reserved s"
  by (auto simp: top_level_def outside_def ready_def room_base elim: room_mono)

lemma resolved_body_ok: "resolved s its s1 lo hi None ls \<Longrightarrow> base s \<in> reserved s \<Longrightarrow> body_ok (base s) ls"
  by (auto simp: resolved_def body_ok_def)

lemma ok_program_parts:
  assumes t: "top_level s"
    and Q: "\<And>pro body fin data s'. body_ok (base s) body \<Longrightarrow> ends_program (base s) fin \<Longrightarrow> length data = DATA_SIZE div 4 \<Longrightarrow>
      list_all (\<lambda>v. v < 2 ^ 32) data \<Longrightarrow> Q (pro, body, fin, data) s'"
  shows "ok (program_parts n s) Q"
proof -
  have "ok (block n (s\<lparr>pos := q\<rparr>)) (\<lambda>items s1. ok (resolve items None s1) (\<lambda>body s2.
      ok (terminator s2) (\<lambda>fin s3. ok (vals (DATA_SIZE div 4) s3) (\<lambda>data. Q (pro, body, fin, data)))))" for q pro
  proof -
    have t': "top_level (s\<lparr>pos := q\<rparr>)" by (rule level_frame(1) [OF frame_pos t])
    show ?thesis unfolding block_def
    proof (rule ok_mono [OF outer.ok_block [OF t']])
      fix items s1 assume a: "frame (s\<lparr>pos := q\<rparr>) s1 \<and> good_items (s\<lparr>pos := q\<rparr>) items s1 \<and> length items = n"
      then have t1: "top_level s1" "base s1 = base s" using level_frame(1) [OF _ t'] by (auto simp: frame_def)
      show "ok (resolve items None s1) (\<lambda>body s2. ok (terminator s2) (\<lambda>fin s3.
          ok (vals (DATA_SIZE div 4) s3) (\<lambda>data. Q (pro, body, fin, data))))"
      proof (rule ok_resolve [of "s\<lparr>pos := q\<rparr>" items s1])
        fix ls hi p assume r: "resolved (s\<lparr>pos := q\<rparr>) items s1 (nlabel s1) hi None ls"
        have b: "body_ok (base s) ls" using resolved_body_ok [OF r] top_level_room(2) [OF t] by simp
        show "ok (terminator (s1\<lparr>pos := p, nlabel := hi\<rparr>)) (\<lambda>fin s3. ok (vals (DATA_SIZE div 4) s3)
            (\<lambda>data. Q (pro, ls, fin, data)))"
          using top_level_room(1) [OF t1(1)] t1(2)
          by (intro ok_terminator ok_vals) (auto intro!: Q b simp: room_def)
      qed (use a in auto)
    qed
  qed
  then show ?thesis unfolding program_parts_def by (intro vcg ok_prologue) (simp only: ok_bind ok_Some)
qed

lemma program_Some:
  assumes "top_level s"
  shows "\<exists>src. program n s = Some src"
proof -
  have "ok (program_parts n s) (\<lambda>(pro, body, fin, data) s'. length data = DATA_SIZE div 4)"
    by (rule ok_program_parts [OF assms]) simp
  then show ?thesis by (auto dest!: okD simp: program_def assemble_program_def data_section_def)
qed

lemma init_parts:
  assumes "Gen_init tp mix = Some s"
    and "\<And>pro body fin data s'. body_ok (base s) body \<Longrightarrow> ends_program (base s) fin \<Longrightarrow> length data = DATA_SIZE div 4 \<Longrightarrow>
      list_all (\<lambda>v. v < 2 ^ 32) data \<Longrightarrow> Q (pro, body, fin, data) s'"
  shows "ok (program_parts n s) Q"
  by (rule ok_program_parts) (use Gen_init_top_level [OF assms(1)] assms(2) in auto)

text \<open>A concrete generator: the mix \<open>mem\<close> on the tape of zeros.\<close>

definition sample :: gen where
  "sample = \<lparr>tape = (\<lambda>_. 0), pos = 1, weights = the (map_of MIXES ''mem''), base = 3, reserved = {3}, noread = {},
     nlabel = 0, in_loop = False\<rparr>"

lemma sample_init: "Gen_init (\<lambda>_. 0) ''mem'' = Some sample"
  by (simp add: Gen_init_def sample_def MIXES_def randnat_def draw_def)

section \<open>Properties\<close>

text \<open>C26. Generation never raises: for every seed (tape), every known mix and every number of items,
  \<open>program\<close> returns a source text; the recursion of \<open>block\<close> and \<open>g_loop\<close> ends at depth 2.\<close>

theorem program_total:
  assumes "Gen_init tp mix = Some s"
  shows "\<exists>src. program n s = Some src"
  by (rule program_Some) (use Gen_init_top_level [OF assms] in simp)

theorem program_total_witness: "Gen_init (\<lambda>_. 0) ''mem'' = Some sample \<and> (\<exists>src. program 40 sample = Some src)"
  using program_total [OF sample_init, of 40] sample_init by simp

text \<open>C1. Memory safety of generated programs: along every path of the body, whatever the instructions
  other than the address computations do and wherever the jumps go, each access is aligned and
  inside the 2 KiB data region around BASE.\<close>

theorem program_memory_safe:
  assumes "Gen_init tp mix = Some s"
  shows "ok (program_parts n s) (\<lambda>(pro, body, fin, data) s'. \<forall>rs0 j rs a.
     cfg_reach body rs0 j rs \<and> j < length body \<and> access (body ! j) rs = Some a \<longrightarrow> in_region (rs0 (base s)) a)"
  by (rule init_parts [OF assms]) (auto simp: body_ok_def intro: reach_access_in_region)

theorem program_memory_safe_witness:
  "Gen_init (\<lambda>_. 0) ''mem'' = Some sample \<and> ok (program_parts 40 sample) (\<lambda>(pro, body, fin, data) s'. \<forall>rs0 j rs a.
     cfg_reach body rs0 j rs \<and> j < length body \<and> access (body ! j) rs = Some a \<longrightarrow> in_region (rs0 3) a)"
  using program_memory_safe [OF sample_init, of 40] sample_init by (simp add: sample_def)

text \<open>C6. Generated programs assemble: every label is defined once, every label that is used is
  defined, and every branch and jump reaches its target within its encoding.\<close>

theorem program_jumps_in_range:
  assumes "Gen_init tp mix = Some s"
  shows "ok (program_parts n s) (\<lambda>(pro, body, fin, data) s'. in_range body \<and> distinct (label_defs body))"
  by (rule init_parts [OF assms]) (simp add: body_ok_def)

theorem program_jumps_in_range_witness:
  "ok (program_parts 40 sample) (\<lambda>(pro, body, fin, data) s'. in_range body \<and> distinct (label_defs body))"
  using program_jumps_in_range [OF sample_init, of 40] by simp

text \<open>C25. LR/SC pairs are undisturbed: between an LR and the SC that follows it there is no store,
  no AMO, no label and no control transfer, so the reservation behaves alike on both machines.\<close>

theorem program_lrsc_undisturbed:
  assumes "Gen_init tp mix = Some s"
  shows "ok (program_parts n s) (\<lambda>(pro, body, fin, data) s'. lrsc_ok body)"
  by (rule init_parts [OF assms]) (simp add: body_ok_def)

theorem program_lrsc_undisturbed_witness:
  "ok (program_parts 40 sample) (\<lambda>(pro, body, fin, data) s'. lrsc_ok body)"
  using program_lrsc_undisturbed [OF sample_init, of 40] by simp

text \<open>C29. BASE is drawn from x3 to x31, is the only register reserved at the start, and no
  instruction of the body writes it.\<close>

theorem program_keeps_base:
  assumes "Gen_init tp mix = Some s"
  shows "3 \<le> base s \<and> base s < 32 \<and> reserved s = {base s}
     \<and> ok (program_parts n s) (\<lambda>(pro, body, fin, data) s'. base s \<notin> writes body)"
  using Gen_init_top_level [OF assms] init_parts [OF assms, of "\<lambda>(pro, body, fin, data) s'. base s \<notin> writes body" n]
  by (simp add: body_ok_def)

theorem program_keeps_base_witness:
  "base sample = 3 \<and> ok (program_parts 40 sample) (\<lambda>(pro, body, fin, data) s'. 3 \<notin> writes body)"
  using program_keeps_base [OF sample_init, of 40] by (simp add: sample_def)

text \<open>A program ends in a trap on both machines: with EBREAK or ECALL, or with an access that is
  misaligned or beyond the RAM, a jump beyond the RAM, a refused CSR access or a reserved encoding.
  Its data section has the 512 words of the region.\<close>

theorem program_ends:
  assumes "Gen_init tp mix = Some s"
  shows "ok (program_parts n s) (\<lambda>(pro, body, fin, data) s'. ends_program (base s) fin \<and>
     length data = 512 \<and> list_all (\<lambda>v. v < 2 ^ 32) data)"
  by (rule init_parts [OF assms]) (simp add: DATA_SIZE_def)

theorem program_ends_witness:
  "ok (program_parts 40 sample) (\<lambda>(pro, body, fin, data) s'. ends_program 3 fin \<and>
     length data = 512 \<and> list_all (\<lambda>v. v < 2 ^ 32) data)"
  using program_ends [OF sample_init, of 40] by (simp add: sample_def)

text \<open>A generator is made exactly for the seven known mixes; any other name raises.\<close>

theorem Gen_init_iff: "Gen_init tp mix = None \<longleftrightarrow> mix \<notin> set [''mixed'', ''alu'', ''mem'', ''comp'', ''amo'', ''branch'', ''csr'']"
  by (simp add: Gen_init_def MIXES_def randnat_def draw_def)



lemma s12_bounds: "- 2048 \<le> s12 v" "s12 v \<le> 2047" "(v - s12 v) mod 4096 = 0"
proof -
  have u: "0 \<le> v mod 4096" "v mod 4096 < 4096" by simp_all
  then show "- 2048 \<le> s12 v" "s12 v \<le> 2047" unfolding s12_def Let_def by auto
  have "v - s12 v = (v - v mod 4096) + 4096 * (if v mod 4096 div 2048 mod 2 = 1 then 1 else 0)"
    by (simp add: s12_def Let_def)
  moreover have "4096 dvd v - v mod 4096" by (rule dvd_minus_mod)
  ultimately show "(v - s12 v) mod 4096 = 0" by (metis dvd_add dvd_imp_mod_0 dvd_triv_left)
qed

text \<open>\<open>li\<close> loads its constant: the upper immediate is a 20-bit number, the lower one a 12-bit
  signed number, and \<open>lui\<close> followed by \<open>addi\<close> gives the value modulo 2^32.\<close>

theorem li_loads_value:
  "\<exists>hi lo. li rd v = [Ins ''lui'' [Reg rd, Hex hi], Ins ''addi'' [Reg rd, Reg rd, Imm lo]]
     \<and> hi < 2 ^ 20 \<and> - 2048 \<le> lo \<and> lo \<le> 2047 \<and> word_of_int (int hi * 2 ^ 12 + lo) = (of_nat v :: u32)"
proof -
  define w where "w = int (v mod 2 ^ 32)"
  define q where "q = (w - s12 w) div 4096"
  have q: "w - s12 w = 4096 * q" using s12_bounds(3) [of w] unfolding q_def by (simp add: mod_eq_0_iff_dvd)
  have "q mod 2 ^ 20 * 4096 = (q * 4096) mod (2 ^ 20 * 4096)" by (rule mod_mult_mult2 [symmetric])
  also have "\<dots> = (w - s12 w) mod 2 ^ 32" using q by (simp add: mult.commute)
  finally have "(q mod 2 ^ 20 * 4096 + s12 w) mod 2 ^ 32 = w mod 2 ^ 32" by (simp add: mod_add_left_eq)
  then have "word_of_int (int (nat (q mod 2 ^ 20)) * 2 ^ 12 + s12 w) = (word_of_int w :: u32)"
    by (intro iffD2 [OF word_of_int_eq_iff]) (simp add: take_bit_eq_mod)
  also have "\<dots> = of_nat v"
    by (simp add: w_def word_of_int_eq_iff word_of_nat_eq_iff take_bit_eq_mod flip: of_nat_mod)
  finally have val: "word_of_int (int (nat (q mod 2 ^ 20)) * 2 ^ 12 + s12 w) = (of_nat v :: u32)" .
  have "li rd v = [Ins ''lui'' [Reg rd, Hex (nat (q mod 2 ^ 20))], Ins ''addi'' [Reg rd, Reg rd, Imm (s12 w)]]"
    by (simp add: li_def Let_def w_def q_def)
  moreover have "nat (q mod 2 ^ 20) < 2 ^ 20" by (simp add: nat_less_iff)
  ultimately show ?thesis using val s12_bounds [of w] by blast
qed

end
