(* ===== verification/Mkdtb.thy ===== *)
theory Mkdtb
  imports PyText
begin

text \<open>
  \<^verbatim>\<open>tools/spike_diff/mkdtb.py\<close>: the writer of the flattened device tree that Spike
  reads instead of the output of \<open>dtc\<close>. The tree is a datatype, the three
  byte arrays the nested functions of \<open>build\<close> mutate are a record, and an
  exception of \<open>struct.pack\<close> (a value outside its field) is \<open>None\<close>.

  The specification is a reader of the format: it checks the header, splits
  the structure block into tokens, resolves property names in the strings
  block and rebuilds the tree. The main theorem is that reading back what
  \<open>build\<close> writes gives the tree it was asked to write.
\<close>

section \<open>The writer\<close>

definition FDT_BEGIN_NODE :: nat where "FDT_BEGIN_NODE = 1"
definition FDT_END_NODE :: nat where "FDT_END_NODE = 2"
definition FDT_PROP :: nat where "FDT_PROP = 3"
definition FDT_END :: nat where "FDT_END = 9"

lemmas fdt_tags = FDT_BEGIN_NODE_def FDT_END_NODE_def FDT_PROP_def FDT_END_def

text \<open>\<open>struct.pack(">I", v)\<close>: four bytes, most significant first; an error outside the range.\<close>

definition be32 :: "nat \<Rightarrow> bytes" where
  "be32 v = [of_nat (v div 2 ^ 24), of_nat (v div 2 ^ 16), of_nat (v div 2 ^ 8), of_nat v]"

definition pack_be32 :: "int \<Rightarrow> bytes option" where
  "pack_be32 v = (if 0 \<le> v \<and> v < 2 ^ 32 then Some (be32 (nat v)) else None)"

fun u32s :: "int list \<Rightarrow> bytes option" where
  "u32s [] = Some []"
| "u32s (v # vs) = do { b \<leftarrow> pack_be32 v; bs \<leftarrow> u32s vs; Some (b @ bs) }"

definition encode :: "string \<Rightarrow> bytes" where
  "encode s = map (\<lambda>c. of_char c) s"

definition string_z :: "string \<Rightarrow> bytes" where
  "string_z s = encode s @ [0]"

type_synonym dprop = "string \<times> bytes"

datatype node = Node (node_name: string) (node_props: "dprop list") (node_children: "node list")

definition dt_tree :: "string \<Rightarrow> int \<Rightarrow> int \<Rightarrow> node option" where
  "dt_tree isa mem_base mem_size = do {
     two \<leftarrow> u32s [2];
     one \<leftarrow> u32s [1];
     zero \<leftarrow> u32s [0];
     freq \<leftarrow> u32s [10000000];
     pmps \<leftarrow> u32s [16];
     gran \<leftarrow> u32s [4];
     clock \<leftarrow> u32s [1000000000];
     mreg \<leftarrow> u32s [0, mem_base, 0, mem_size];
     Some (Node ''''
       [(''#address-cells'', two), (''#size-cells'', two),
        (''compatible'', string_z ''ucbbar,spike-bare-dev''),
        (''model'', string_z ''ucbbar,spike-bare'')]
       [Node ''cpus''
          [(''#address-cells'', one), (''#size-cells'', zero), (''timebase-frequency'', freq)]
          [Node ''cpu@0''
             [(''device_type'', string_z ''cpu''), (''reg'', zero), (''status'', string_z ''okay''),
              (''compatible'', string_z ''riscv''), (''riscv,isa'', string_z isa),
              (''mmu-type'', string_z ''riscv,sv32''), (''riscv,pmpregions'', pmps),
              (''riscv,pmpgranularity'', gran), (''clock-frequency'', clock)]
             [Node ''interrupt-controller''
                [(''#address-cells'', two), (''#interrupt-cells'', one),
                 (''interrupt-controller'', []), (''compatible'', string_z ''riscv,cpu-intc'')]
                []]],
        Node (''memory@'' @ hex_int mem_base)
          [(''device_type'', string_z ''memory''), (''reg'', mreg)] [],
        Node ''htif'' [(''compatible'', string_z ''ucb,htif0'')] []])
   }"

record dtb =
  strings :: bytes
  str_off :: "string \<rightharpoonup> nat"
  struct_blk :: bytes

definition stroff :: "string \<Rightarrow> dtb \<Rightarrow> nat \<times> dtb" where
  "stroff name s =
     (case str_off s name of
        Some off \<Rightarrow> (off, s)
      | None \<Rightarrow>
          (length (strings s),
           s\<lparr>str_off := (str_off s)(name \<mapsto> length (strings s)),
             strings := strings s @ string_z name\<rparr>))"

definition pad4 :: "bytes \<Rightarrow> bytes" where
  "pad4 b = b @ replicate ((4 - length b mod 4) mod 4) 0"

definition extend :: "bytes \<Rightarrow> dtb \<Rightarrow> dtb" where
  "extend bs s = s\<lparr>struct_blk := struct_blk s @ bs\<rparr>"

definition pad_blk :: "dtb \<Rightarrow> dtb" where
  "pad_blk s = s\<lparr>struct_blk := pad4 (struct_blk s)\<rparr>"

definition emit_prop :: "dprop \<Rightarrow> dtb \<Rightarrow> dtb option" where
  "emit_prop p s =
     (case p of (pname, val) \<Rightarrow>
        let (off, s1) = stroff pname s in do {
          h \<leftarrow> u32s [int FDT_PROP, int (length val), int off];
          Some (pad_blk (extend val (extend h s1)))
        })"

fun emit_props :: "dprop list \<Rightarrow> dtb \<Rightarrow> dtb option" where
  "emit_props [] s = Some s"
| "emit_props (p # ps) s = do { s1 \<leftarrow> emit_prop p s; emit_props ps s1 }"

fun emit :: "node \<Rightarrow> dtb \<Rightarrow> dtb option"
  and emit_list :: "node list \<Rightarrow> dtb \<Rightarrow> dtb option" where
  "emit (Node name props children) s = do {
     b \<leftarrow> u32s [int FDT_BEGIN_NODE];
     s1 \<leftarrow> Some (pad_blk (extend (string_z name) (extend b s)));
     s2 \<leftarrow> emit_props props s1;
     s3 \<leftarrow> emit_list children s2;
     e \<leftarrow> u32s [int FDT_END_NODE];
     Some (extend e s3)
   }"
| "emit_list [] s = Some s"
| "emit_list (c # cs) s = do { s1 \<leftarrow> emit c s; emit_list cs s1 }"

definition empty_dtb :: dtb where
  "empty_dtb = \<lparr>strings = [], str_off = Map.empty, struct_blk = []\<rparr>"

definition hdr_size :: nat where "hdr_size = 40"

definition rsv_off :: nat where "rsv_off = (hdr_size + 7) div 8 * 8"

definition rsv :: bytes where "rsv = replicate 16 0"

text \<open>The blob of a tree: everything of \<open>build\<close> after the tree literal.\<close>

definition blob_of :: "node \<Rightarrow> bytes option" where
  "blob_of tree = do {
     s1 \<leftarrow> emit tree empty_dtb;
     e \<leftarrow> u32s [int FDT_END];
     s \<leftarrow> Some (extend e s1);
     struct_off \<leftarrow> Some (rsv_off + length rsv);
     strings_off \<leftarrow> Some (struct_off + length (struct_blk s));
     total \<leftarrow> Some (strings_off + length (strings s));
     hdr \<leftarrow> u32s [0xD00DFEED, int total, int struct_off, int strings_off, int rsv_off,
              17, 16, 0, int (length (strings s)), int (length (struct_blk s))];
     Some (hdr @ replicate (rsv_off - length hdr) 0 @ rsv @ struct_blk s @ strings s)
   }"

definition build :: "string \<Rightarrow> int \<Rightarrow> int \<Rightarrow> bytes option" where
  "build isa mem_base mem_size = do { tree \<leftarrow> dt_tree isa mem_base mem_size; blob_of tree }"

section \<open>Specification: a reader of the format\<close>

definition rd32 :: "bytes \<Rightarrow> (nat \<times> bytes) option" where
  "rd32 bs =
     (case bs of a # b # c # d # r \<Rightarrow>
        Some (((unat a * 256 + unat b) * 256 + unat c) * 256 + unat d, r)
      | _ \<Rightarrow> None)"

definition rd_z :: "bytes \<Rightarrow> (string \<times> bytes) option" where
  "rd_z bs =
     (case dropWhile (\<lambda>b. b \<noteq> 0) bs of [] \<Rightarrow> None
      | _ # r \<Rightarrow> Some (map (\<lambda>b. char_of (unat b)) (takeWhile (\<lambda>b. b \<noteq> 0) bs), r))"

definition nulfree :: "string \<Rightarrow> bool" where
  "nulfree s \<longleftrightarrow> CHR 0x00 \<notin> set s"

definition padlen :: "nat \<Rightarrow> nat" where
  "padlen n = (4 - n mod 4) mod 4"

datatype tok = TBegin string | TProp string bytes | TEnd

definition rd_tok :: "bytes \<Rightarrow> bytes \<Rightarrow> (tok \<times> bytes) option" where
  "rd_tok st bs = do {
     (t, r) \<leftarrow> rd32 bs;
     if t = FDT_BEGIN_NODE then do {
       (n, r1) \<leftarrow> rd_z r;
       Some (TBegin n, drop (padlen (length n + 1)) r1) }
     else if t = FDT_END_NODE then Some (TEnd, r)
     else if t = FDT_PROP then do {
       (len, r1) \<leftarrow> rd32 r;
       (off, r2) \<leftarrow> rd32 r1;
       (n, _) \<leftarrow> rd_z (drop off st);
       if length r2 < len then None
       else Some (TProp n (take len r2), drop (padlen len) (drop len r2)) }
     else None }"

function rd_toks :: "bytes \<Rightarrow> bytes \<Rightarrow> tok list option" where
  "rd_toks st bs =
     (if rd32 bs = Some (FDT_END, []) then Some []
      else case rd_tok st bs of None \<Rightarrow> None
      | Some (t, r) \<Rightarrow>
          if length r < length bs then map_option (\<lambda>ts. t # ts) (rd_toks st r) else None)"
  by pat_completeness auto
termination
  by (relation "measure (\<lambda>(st, bs). length bs)") auto

declare rd_toks.simps [simp del]

type_synonym frame = "string \<times> dprop list \<times> node list"

fun tree_of :: "frame list \<Rightarrow> tok list \<Rightarrow> node option" where
  "tree_of st (TBegin n # ts) = tree_of ((n, [], []) # st) ts"
| "tree_of ((n, ps, cs) # st) (TProp p v # ts) = tree_of ((n, ps @ [(p, v)], cs) # st) ts"
| "tree_of [(n, ps, cs)] [TEnd] = Some (Node n ps cs)"
| "tree_of ((n, ps, cs) # (n', ps', cs') # st) (TEnd # ts) =
     tree_of ((n', ps', cs' @ [Node n ps cs]) # st) ts"
| "tree_of st ts = None"

definition read_fdt :: "bytes \<Rightarrow> node option" where
  "read_fdt blob = do {
     (magic, r0) \<leftarrow> rd32 blob;
     (total, r1) \<leftarrow> rd32 r0;
     (struct_off, r2) \<leftarrow> rd32 r1;
     (strings_off, r3) \<leftarrow> rd32 r2;
     (rsv_at, r4) \<leftarrow> rd32 r3;
     (version, r5) \<leftarrow> rd32 r4;
     (compat, r6) \<leftarrow> rd32 r5;
     (cpuid, r7) \<leftarrow> rd32 r6;
     (strings_len, r8) \<leftarrow> rd32 r7;
     (struct_len, r9) \<leftarrow> rd32 r8;
     if magic = 0xD00DFEED \<and> total = length blob \<and> version = 17 \<and> compat \<le> 17
        \<and> rsv_at mod 8 = 0 \<and> struct_off mod 4 = 0
        \<and> take 16 (drop rsv_at blob) = replicate 16 0
        \<and> struct_off + struct_len \<le> total \<and> strings_off + strings_len \<le> total
     then do {
       ts \<leftarrow> rd_toks (take strings_len (drop strings_off blob))
                    (take struct_len (drop struct_off blob));
       tree_of [] ts }
     else None }"

section \<open>Byte-level codecs\<close>

lemma rd32_be32: "v < 2 ^ 32 \<Longrightarrow> rd32 (be32 v @ r) = Some (v, r)"
proof -
  assume v: "v < 2 ^ 32"
  have "v div 2 ^ 24 < 256" using v by (simp add: less_mult_imp_div_less)
  then have "((v div 2 ^ 24 * 256 + v div 2 ^ 16 mod 256) * 256 + v div 2 ^ 8 mod 256) * 256 + v mod 256 = v"
    by (simp add: div_mult2_eq [of v "2 ^ 8" "2 ^ 8", simplified] div_mult2_eq [of v "2 ^ 16" "2 ^ 8", simplified])
  with \<open>v div 2 ^ 24 < 256\<close> show ?thesis
    by (simp add: rd32_def be32_def unat_of_nat take_bit_eq_mod)
qed

interpretation be32c: codec be32 rd32 "\<lambda>v. v < 2 ^ 32"
  by unfold_locales (rule rd32_be32)

lemma of_char_nat_less: "(of_char c :: nat) < 256"
  by (metis mod_less_divisor of_char_mod_256 zero_less_numeral)

lemma unat_of_char [simp]: "unat (of_char c :: byte) = of_char c"
proof -
  have "unat (of_nat k :: byte) = k" if "k < 256" for k
    using that by (simp add: unat_of_nat take_bit_nat_eq_self)
  from this [OF of_char_nat_less] have "unat (of_nat (of_char c) :: byte) = of_char c" .
  then show ?thesis by (simp only: of_nat_of_char)
qed

lemma of_char_byte_0 [simp]: "(of_char c :: byte) = 0 \<longleftrightarrow> c = CHR 0x00"
proof -
  have "(of_char c :: byte) = 0 \<longleftrightarrow> (of_char c :: nat) = 0"
    by (simp only: unat_of_char [symmetric] unat_eq_0)
  also have "\<dots> \<longleftrightarrow> (of_char c :: nat) = of_char (CHR 0x00)" by simp
  also have "\<dots> \<longleftrightarrow> c = CHR 0x00" by (simp only: of_char_eq_iff)
  finally show ?thesis .
qed

lemma rd_z_string_z: "nulfree s \<Longrightarrow> rd_z (string_z s @ r) = Some (s, r)"
proof -
  assume "nulfree s"
  then have "list_all (\<lambda>b. b \<noteq> (0 :: byte)) (encode s)"
    by (auto simp: nulfree_def encode_def list_all_iff)
  moreover have "map (\<lambda>b. char_of (unat b)) (encode s) = s"
    by (simp add: encode_def comp_def)
  ultimately show ?thesis
    by (simp add: rd_z_def string_z_def takeWhile_append_stop dropWhile_append_stop)
qed

interpretation cstring: codec string_z rd_z nulfree
  by unfold_locales (rule rd_z_string_z)

lemma length_be32 [simp]: "length (be32 v) = 4"
  by (simp add: be32_def)

lemma length_string_z [simp]: "length (string_z s) = length s + 1"
  by (simp add: string_z_def encode_def)

lemma pack_be32_nat: "pack_be32 (int v) = (if v < 2 ^ 32 then Some (be32 v) else None)"
  by (auto simp: pack_be32_def)

lemma u32s_1: "v < 2 ^ 32 \<Longrightarrow> u32s [int v] = Some (be32 v)"
  by (simp add: pack_be32_nat)

section \<open>The string table as an interface\<close>

text \<open>
  What \<open>emit\<close> relies on: interning a name gives an offset at which the name is
  found, and names found at an offset stay there.
\<close>

locale string_table =
  fixes intern :: "string \<Rightarrow> 't \<Rightarrow> nat \<times> 't"
    and at :: "'t \<Rightarrow> nat \<Rightarrow> string \<Rightarrow> bool"
    and wf_table :: "'t \<Rightarrow> bool"
  assumes intern_wf: "wf_table t \<Longrightarrow> wf_table (snd (intern n t))"
    and intern_at: "wf_table t \<Longrightarrow> at (snd (intern n t)) (fst (intern n t)) n"
    and intern_keeps: "at t off m \<Longrightarrow> at (snd (intern n t)) off m"
begin

lemma fold_keeps: "at t off m \<Longrightarrow> at (fold (\<lambda>n t. snd (intern n t)) ns t) off m"
  by (induction ns arbitrary: t) (simp_all add: intern_keeps)

lemma fold_wf: "wf_table t \<Longrightarrow> wf_table (fold (\<lambda>n t. snd (intern n t)) ns t)"
  by (induction ns arbitrary: t) (simp_all add: intern_wf)

lemma interned_stays:
  "wf_table t \<Longrightarrow> at (fold (\<lambda>n t. snd (intern n t)) ns (snd (intern n t))) (fst (intern n t)) n"
  by (simp add: fold_keeps intern_at)

end

text \<open>\<open>stroff\<close> on the strings block: a name is at an offset when its zero-terminated bytes are.\<close>

definition str_at :: "dtb \<Rightarrow> nat \<Rightarrow> string \<Rightarrow> bool" where
  "str_at s off n \<longleftrightarrow> off + length (string_z n) \<le> length (strings s) \<and>
     take (length (string_z n)) (drop off (strings s)) = string_z n"

definition strings_wf :: "dtb \<Rightarrow> bool" where
  "strings_wf s \<longleftrightarrow> (\<forall>n off. str_off s n = Some off \<longrightarrow> str_at s off n)"

lemma str_at_append: "str_at s off n \<Longrightarrow> strings s' = strings s @ ys \<Longrightarrow> str_at s' off n"
  by (simp add: str_at_def)

lemma stroff_strings: "\<exists>ys. strings (snd (stroff n s)) = strings s @ ys"
  by (auto simp: stroff_def split: option.splits)

lemma stroff_struct_blk [simp]: "struct_blk (snd (stroff n s)) = struct_blk s"
  by (simp add: stroff_def split: option.splits)

lemma stroff_at: "strings_wf s \<Longrightarrow> str_at (snd (stroff n s)) (fst (stroff n s)) n"
  by (auto simp: stroff_def strings_wf_def str_at_def split: option.splits)

lemma stroff_wf: "strings_wf s \<Longrightarrow> strings_wf (snd (stroff n s))"
proof -
  assume wf: "strings_wf s"
  show ?thesis unfolding strings_wf_def
  proof (intro allI impI)
    fix m off
    assume m: "str_off (snd (stroff n s)) m = Some off"
    show "str_at (snd (stroff n s)) off m"
    proof (cases "str_off s m = Some off")
      case True
      with wf have "str_at s off m" by (simp add: strings_wf_def)
      then show ?thesis by (metis str_at_append stroff_strings)
    next
      case False
      with m have "m = n" "off = fst (stroff n s)"
        by (auto simp: stroff_def split: option.splits if_splits)
      with stroff_at [OF wf] show ?thesis by simp
    qed
  qed
qed

interpretation strtab: string_table stroff str_at strings_wf
  by unfold_locales (metis stroff_wf stroff_at str_at_append stroff_strings)+

lemma rd_z_str_at: "str_at s off n \<Longrightarrow> nulfree n \<Longrightarrow> \<exists>r. rd_z (drop off (strings s)) = Some (n, r)"
  by (metis str_at_def append_take_drop_id rd_z_string_z)


section \<open>What \<open>emit\<close> writes\<close>

fun toks :: "node \<Rightarrow> tok list" where
  "toks (Node n ps cs) =
     TBegin n # map (\<lambda>(p, v). TProp p v) ps @ concat (map toks cs) @ [TEnd]"

fun tok_bytes :: "dtb \<Rightarrow> tok \<Rightarrow> bytes \<Rightarrow> bool" where
  "tok_bytes s (TBegin n) bs \<longleftrightarrow>
     bs = be32 FDT_BEGIN_NODE @ string_z n @ replicate (padlen (length n + 1)) 0"
| "tok_bytes s (TProp n v) bs \<longleftrightarrow>
     (\<exists>off. str_at s off n \<and> off < 2 ^ 32 \<and> length v < 2 ^ 32 \<and>
        bs = be32 FDT_PROP @ be32 (length v) @ be32 off @ v @ replicate (padlen (length v)) 0)"
| "tok_bytes s TEnd bs \<longleftrightarrow> bs = be32 FDT_END_NODE"

definition toks_bytes :: "dtb \<Rightarrow> tok list \<Rightarrow> bytes \<Rightarrow> bool" where
  "toks_bytes s ts bs \<longleftrightarrow> (\<exists>bss. list_all2 (tok_bytes s) ts bss \<and> bs = concat bss)"

text \<open>From \<open>s\<close>, the writer appended the tokens \<open>ts\<close> and ended in \<open>s'\<close>.\<close>

definition emits :: "dtb \<Rightarrow> tok list \<Rightarrow> dtb \<Rightarrow> bool" where
  "emits s ts s' \<longleftrightarrow>
     (strings_wf s \<and> 4 dvd length (struct_blk s) \<longrightarrow>
        strings_wf s' \<and> 4 dvd length (struct_blk s') \<and> (\<exists>ys. strings s' = strings s @ ys) \<and>
        (\<exists>bs. struct_blk s' = struct_blk s @ bs \<and> toks_bytes s' ts bs))"

lemma tok_bytes_mono: "tok_bytes s t bs \<Longrightarrow> strings s' = strings s @ ys \<Longrightarrow> tok_bytes s' t bs"
  by (cases t) (auto intro: str_at_append)

lemma toks_bytes_mono: "toks_bytes s ts bs \<Longrightarrow> strings s' = strings s @ ys \<Longrightarrow> toks_bytes s' ts bs"
  unfolding toks_bytes_def by (blast intro: list_all2_mono tok_bytes_mono)

lemma toks_bytes_append:
  "toks_bytes s ts bs \<Longrightarrow> toks_bytes s us cs \<Longrightarrow> toks_bytes s (ts @ us) (bs @ cs)"
  unfolding toks_bytes_def
proof (elim exE conjE)
  fix bss css
  assume "list_all2 (tok_bytes s) ts bss" "bs = concat bss" "list_all2 (tok_bytes s) us css" "cs = concat css"
  then have "list_all2 (tok_bytes s) (ts @ us) (bss @ css) \<and> bs @ cs = concat (bss @ css)"
    by (simp add: list_all2_appendI)
  then show "\<exists>bss. list_all2 (tok_bytes s) (ts @ us) bss \<and> bs @ cs = concat bss" by blast
qed

lemma emits_trans:
  assumes "emits s ts s1" "emits s1 us s2"
  shows "emits s (ts @ us) s2"
  unfolding emits_def
proof (intro impI)
  assume pre: "strings_wf s \<and> 4 dvd length (struct_blk s)"
  with assms(1) obtain ys bs where
    1: "strings_wf s1" "4 dvd length (struct_blk s1)" "strings s1 = strings s @ ys"
      "struct_blk s1 = struct_blk s @ bs" "toks_bytes s1 ts bs"
    by (auto simp: emits_def)
  with assms(2) obtain zs cs where
    2: "strings_wf s2" "4 dvd length (struct_blk s2)" "strings s2 = strings s1 @ zs"
      "struct_blk s2 = struct_blk s1 @ cs" "toks_bytes s2 us cs"
    by (auto simp: emits_def)
  have "toks_bytes s2 (ts @ us) (bs @ cs)"
    using 1 2 by (blast intro: toks_bytes_append toks_bytes_mono)
  with 1 2 show "strings_wf s2 \<and> 4 dvd length (struct_blk s2) \<and> (\<exists>ys. strings s2 = strings s @ ys) \<and>
      (\<exists>bs. struct_blk s2 = struct_blk s @ bs \<and> toks_bytes s2 (ts @ us) bs)"
    by simp
qed

lemma emits_Nil: "emits s [] s"
  by (simp add: emits_def toks_bytes_def)

lemma emits_one:
  assumes "strings_wf s \<Longrightarrow> strings_wf s'" "\<exists>ys. strings s' = strings s @ ys"
    and "4 dvd length (struct_blk s) \<Longrightarrow> strings_wf s \<Longrightarrow>
      4 dvd length (struct_blk s') \<and> (\<exists>bs. struct_blk s' = struct_blk s @ bs \<and> tok_bytes s' t bs)"
  shows "emits s [t] s'"
  using assms unfolding emits_def toks_bytes_def
  by (metis append.right_neutral concat.simps list_all2_Cons list_all2_Nil)

lemma pad4_append: "4 dvd length b \<Longrightarrow> pad4 (b @ c) = b @ c @ replicate (padlen (length c)) 0"
  by (simp add: pad4_def padlen_def mod_add_left_eq [symmetric] dvd_eq_mod_eq_0)

lemma dvd_padlen: "4 dvd n + padlen n"
proof -
  have "n mod 4 < 4" by simp
  then consider "n mod 4 = 0" | "n mod 4 = 1" | "n mod 4 = 2" | "n mod 4 = 3" by linarith
  then show ?thesis by cases (simp_all add: padlen_def, presburger+)
qed

lemma dvd_length_pad4: "4 dvd length (pad4 b)"
  using dvd_padlen [of "length b"] by (simp add: pad4_def padlen_def)

lemma strings_wf_extend [simp]: "strings_wf (extend bs s) = strings_wf s"
  by (simp add: strings_wf_def str_at_def extend_def)

lemma strings_wf_pad_blk [simp]: "strings_wf (pad_blk s) = strings_wf s"
  by (simp add: strings_wf_def str_at_def pad_blk_def)

lemma dtb_frame [simp]:
  "strings (extend bs s) = strings s" "struct_blk (extend bs s) = struct_blk s @ bs"
  "strings (pad_blk s) = strings s" "struct_blk (pad_blk s) = pad4 (struct_blk s)"
  by (simp_all add: extend_def pad_blk_def)

lemma u32s_tag [simp]:
  "u32s [int FDT_BEGIN_NODE] = Some (be32 FDT_BEGIN_NODE)"
  "u32s [int FDT_END_NODE] = Some (be32 FDT_END_NODE)"
  "u32s [int FDT_END] = Some (be32 FDT_END)"
  "pack_be32 (int FDT_BEGIN_NODE) = Some (be32 FDT_BEGIN_NODE)"
  "pack_be32 (int FDT_PROP) = Some (be32 FDT_PROP)"
  by (simp_all add: pack_be32_def fdt_tags)

lemma emits_begin: "emits s [TBegin n] (pad_blk (extend (string_z n) (extend (be32 FDT_BEGIN_NODE) s)))"
proof (rule emits_one)
  let ?s' = "pad_blk (extend (string_z n) (extend (be32 FDT_BEGIN_NODE) s))"
  assume "4 dvd length (struct_blk s)"
  then have "struct_blk ?s' =
      struct_blk s @ be32 FDT_BEGIN_NODE @ string_z n @ replicate (padlen (length n + 1)) 0"
    using pad4_append [of "struct_blk s @ be32 FDT_BEGIN_NODE" "string_z n"] by simp
  moreover have "4 dvd length (struct_blk ?s')"
    by (simp only: dtb_frame dvd_length_pad4)
  ultimately show "4 dvd length (struct_blk ?s') \<and>
      (\<exists>bs. struct_blk ?s' = struct_blk s @ bs \<and> tok_bytes ?s' (TBegin n) bs)"
    by simp
qed simp_all

lemma emits_end: "emits s [TEnd] (extend (be32 FDT_END_NODE) s)"
  by (rule emits_one) auto

lemma emit_prop_emits:
  assumes "emit_prop (n, v) s = Some s'"
  shows "emits s [TProp n v] s'"
proof -
  obtain off s1 where so: "stroff n s = (off, s1)" by fastforce
  from assms so have lt: "length v < 2 ^ 32" "off < 2 ^ 32"
    and s': "s' = pad_blk (extend v (extend (be32 FDT_PROP @ be32 (length v) @ be32 off) s1))"
    by (auto simp: emit_prop_def pack_be32_nat bind_eq_Some_conv split: if_splits)
  have blk: "struct_blk s1 = struct_blk s" using stroff_struct_blk [of n s] so by simp
  show ?thesis
  proof (rule emits_one)
    show "strings_wf s \<Longrightarrow> strings_wf s'" using strtab.intern_wf [of s n] so s' by simp
    show "\<exists>ys. strings s' = strings s @ ys" using stroff_strings [of n s] so s' by simp
    assume d: "4 dvd length (struct_blk s)" and wf: "strings_wf s"
    have "str_at s' off n"
      using strtab.intern_at [OF wf, of n] so s' by (simp add: str_at_def)
    moreover have "struct_blk s' = struct_blk s @ be32 FDT_PROP @ be32 (length v) @ be32 off @ v
        @ replicate (padlen (length v)) 0"
      using pad4_append [of "struct_blk s1 @ be32 FDT_PROP @ be32 (length v) @ be32 off" v] d
      by (simp add: s' blk)
    moreover have "4 dvd length (struct_blk s')"
      by (simp only: s' dtb_frame dvd_length_pad4)
    ultimately show "4 dvd length (struct_blk s') \<and>
        (\<exists>bs. struct_blk s' = struct_blk s @ bs \<and> tok_bytes s' (TProp n v) bs)"
      using lt by auto
  qed
qed

lemma emit_props_emits:
  "emit_props ps s = Some s' \<Longrightarrow> emits s (map (\<lambda>(p, v). TProp p v) ps) s'"
proof (induction ps arbitrary: s)
  case Nil
  then show ?case by (simp add: emits_Nil)
next
  case (Cons p ps)
  obtain n v where p: "p = (n, v)" by fastforce
  with Cons.prems obtain s1 where "emit_prop (n, v) s = Some s1" "emit_props ps s1 = Some s'"
    by (auto simp: bind_eq_Some_conv)
  then have "emits s [TProp n v] s1" "emits s1 (map (\<lambda>(p, v). TProp p v) ps) s'"
    by (simp_all add: emit_prop_emits Cons.IH)
  from emits_trans [OF this] show ?case by (simp add: p)
qed

lemma emit_emits:
  "emit t s = Some s' \<Longrightarrow> emits s (toks t) s'"
  "emit_list cs s = Some s' \<Longrightarrow> emits s (concat (map toks cs)) s'"
proof (induction t s and cs s arbitrary: s' and s' rule: emit_emit_list.induct)
  case (1 name props children s)
  let ?s1 = "pad_blk (extend (string_z name) (extend (be32 FDT_BEGIN_NODE) s))"
  from "1.prems" obtain s2 s3 where
    2: "emit_props props ?s1 = Some s2" and 3: "emit_list children s2 = Some s3"
    and s': "s' = extend (be32 FDT_END_NODE) s3"
    by (auto simp: bind_eq_Some_conv simp del: u32s.simps)
  have "emits s2 (concat (map toks children)) s3"
    using "1.IH" 2 3 by simp
  then have "emits s2 (concat (map toks children) @ [TEnd]) s'"
    unfolding s' by (rule emits_trans [OF _ emits_end])
  then have "emits ?s1 (map (\<lambda>(p, v). TProp p v) props @ concat (map toks children) @ [TEnd]) s'"
    by (rule emits_trans [OF emit_props_emits [OF 2]])
  from emits_trans [OF emits_begin this] show ?case by simp
next
  case (2 s)
  then show ?case by (simp add: emits_Nil)
next
  case (3 c cs s)
  then obtain s1 where 4: "emit c s = Some s1" "emit_list cs s1 = Some s'" 
    by (auto simp: bind_eq_Some_conv)
  then show ?case using emits_trans [OF "3.IH"(1) "3.IH"(2)] by simp
qed


section \<open>Reading back what was written\<close>

fun tok_ok :: "tok \<Rightarrow> bool" where
  "tok_ok (TBegin n) = nulfree n"
| "tok_ok (TProp n v) = nulfree n"
| "tok_ok TEnd = True"

lemma rd_tok_bytes:
  assumes "tok_bytes s t b" "tok_ok t"
  shows "rd_tok (strings s) (b @ r) = Some (t, r)"
proof (cases t)
  case (TBegin n)
  then have b: "b = be32 FDT_BEGIN_NODE @ string_z n @ replicate (padlen (length n + 1)) 0" "nulfree n"
    using assms by simp_all
  then show ?thesis
    by (simp add: rd_tok_def TBegin rd32_be32 rd_z_string_z fdt_tags)
next
  case (TProp n v)
  then obtain off where off: "str_at s off n" "off < 2 ^ 32" "length v < 2 ^ 32"
    and b: "b = be32 FDT_PROP @ be32 (length v) @ be32 off @ v @ replicate (padlen (length v)) 0"
    and n: "nulfree n"
    using assms by auto
  obtain r' where "rd_z (drop off (strings s)) = Some (n, r')"
    using rd_z_str_at off n by blast
  with off b show ?thesis by (simp add: rd_tok_def TProp rd32_be32 fdt_tags)
next
  case TEnd
  with assms show ?thesis by (simp add: rd_tok_def rd32_be32 fdt_tags)
qed

lemma tok_bytes_not_end: "tok_bytes s t b \<Longrightarrow> rd32 (b @ r) \<noteq> Some (FDT_END, [])"
  by (cases t) (auto simp: rd32_be32 fdt_tags)

lemma tok_bytes_length: "tok_bytes s t b \<Longrightarrow> 0 < length b"
  by (cases t) (auto simp: be32_def)

lemma rd_toks_bytes:
  "toks_bytes s ts bs \<Longrightarrow> list_all tok_ok ts \<Longrightarrow> rd_toks (strings s) (bs @ be32 FDT_END) = Some ts"
  unfolding toks_bytes_def
proof (elim exE conjE)
  fix bss
  assume "list_all2 (tok_bytes s) ts bss" "bs = concat bss" "list_all tok_ok ts"
  then show ?thesis
  proof (induction ts bss arbitrary: bs rule: list_all2_induct)
    case Nil
    then show ?case
      using rd32_be32 [of FDT_END "[]"] by (simp add: rd_toks.simps fdt_tags)
  next
    case (Cons t ts b bss)
    let ?r = "concat bss @ be32 FDT_END"
    have t: "rd_tok (strings s) (b @ ?r) = Some (t, ?r)"
      using Cons.hyps(1) Cons.prems by (intro rd_tok_bytes) simp_all
    have "rd_toks (strings s) ?r = Some ts" using Cons by simp
    with t tok_bytes_not_end [OF Cons.hyps(1), of ?r] tok_bytes_length [OF Cons.hyps(1)]
    have "rd_toks (strings s) (b @ ?r) = Some (t # ts)"
      by (simp add: rd_toks.simps [of "strings s" "b @ ?r"])
    then show ?case using Cons.prems by simp
  qed
qed

fun names_ok :: "node \<Rightarrow> bool" where
  "names_ok (Node n ps cs) \<longleftrightarrow>
     nulfree n \<and> list_all (\<lambda>(p, v). nulfree p) ps \<and> list_all names_ok cs"

lemma names_ok_toks: "names_ok t \<Longrightarrow> list_all tok_ok (toks t)"
proof (induction t)
  case (Node n ps cs)
  then show ?case by (fastforce simp: list_all_iff)
qed

lemma tree_of_props:
  "tree_of ((n, ps, cs) # st) (map (\<lambda>(p, v). TProp p v) qs @ ts) = tree_of ((n, ps @ qs, cs) # st) ts"
  by (induction qs arbitrary: ps) auto

lemma tree_of_toks:
  "tree_of ((n, ps, cs) # st) (toks t @ ts) = tree_of ((n, ps, cs @ [t]) # st) ts"
proof (induction t arbitrary: n ps cs st ts)
  case (Node n' ps' cs')
  have children: "tree_of ((n', ps', ds) # f # st) (concat (map toks xs) @ ts) =
      tree_of ((n', ps', ds @ xs) # f # st) ts"
    if "set xs \<subseteq> set cs'" for xs ds f ts
    using that by (induction xs arbitrary: ds) (simp_all add: Node.IH)
  show ?case by (simp add: tree_of_props children)
qed

lemma tree_of_root: "tree_of [] (toks t) = Some t"
proof (cases t)
  case (Node n ps cs)
  have "tree_of [(n, ps, ds)] (concat (map toks xs) @ ts) = tree_of [(n, ps, ds @ xs)] ts" for xs ds ts
    by (induction xs arbitrary: ds) (simp_all add: tree_of_toks)
  then show ?thesis by (simp add: Node tree_of_props)
qed

definition fdt_header :: "nat \<Rightarrow> nat \<Rightarrow> bytes" where
  "fdt_header bl st = be32 0xD00DFEED @ be32 (56 + bl + st) @ be32 56 @ be32 (56 + bl) @ be32 40 @
     be32 17 @ be32 16 @ be32 0 @ be32 st @ be32 bl"

lemma length_fdt_header [simp]: "length (fdt_header bl st) = 40"
  by (simp add: fdt_header_def)

lemma blob_layout:
  assumes "blob_of t = Some blob"
  obtains s bl where "emit t empty_dtb = Some s" "bl = struct_blk s @ be32 FDT_END"
    "blob = fdt_header (length bl) (length (strings s)) @ replicate 16 0 @ bl @ strings s"
    "56 + length bl + length (strings s) < 2 ^ 32"
proof -
  obtain s where s: "emit t empty_dtb = Some s"
    using assms by (auto simp: blob_of_def bind_eq_Some_conv)
  show thesis
    by (rule that [OF s refl]) (use assms s in \<open>auto simp: blob_of_def bind_eq_Some_conv rsv_off_def
        hdr_size_def rsv_def pack_be32_def nat_add_distrib fdt_header_def split: if_splits\<close>)
qed

lemma read_header:
  assumes "56 + bl + st < 2 ^ 32"
  shows "read_fdt (fdt_header bl st @ r) =
    (if 16 + bl + st = length r \<and> take 16 r = replicate 16 0
     then Option.bind (rd_toks (take st (drop (16 + bl) r)) (take bl (drop 16 r))) (tree_of []) else None)"
proof -
  have d: "drop (40 + k) (fdt_header bl st @ r) = drop k r" for k by simp
  have "read_fdt (fdt_header bl st @ r) =
      (if 56 + bl + st = length (fdt_header bl st @ r) \<and> take 16 (drop 40 (fdt_header bl st @ r)) = replicate 16 0
       then Option.bind (rd_toks (take st (drop (56 + bl) (fdt_header bl st @ r)))
         (take bl (drop 56 (fdt_header bl st @ r)))) (tree_of []) else None)"
    using assms unfolding read_fdt_def fdt_header_def by (simp add: rd32_be32)
  then show ?thesis using d [of 0] d [of 16] d [of "16 + bl"] by (simp add: add.assoc [symmetric])
qed

lemma read_blob:
  assumes "blob_of t = Some blob" "names_ok t"
  shows "read_fdt blob = Some t"
proof -
  obtain s bl where e: "emit t empty_dtb = Some s" and bl: "bl = struct_blk s @ be32 FDT_END"
    and blob: "blob = fdt_header (length bl) (length (strings s)) @ replicate 16 0 @ bl @ strings s"
    and lt: "56 + length bl + length (strings s) < 2 ^ 32"
    using blob_layout [OF assms(1)] by blast
  have "emits empty_dtb (toks t) s" using emit_emits(1) [OF e] .
  then have "toks_bytes s (toks t) (struct_blk s)"
    by (auto simp: emits_def empty_dtb_def strings_wf_def)
  then have "rd_toks (strings s) bl = Some (toks t)"
    using rd_toks_bytes names_ok_toks [OF assms(2)] bl by simp
  then show ?thesis unfolding blob read_header [OF lt] by (simp add: tree_of_root)
qed

section \<open>When writing succeeds\<close>

fun fdt_bound :: "node \<Rightarrow> nat" where
  "fdt_bound (Node n ps cs) = 16 + length n +
     sum_list (map (\<lambda>(p, v). 16 + length p + length v) ps) + sum_list (map fdt_bound cs)"

definition dsize :: "dtb \<Rightarrow> nat" where
  "dsize s = length (strings s) + length (struct_blk s)"

text \<open>The step from \<open>s\<close> to \<open>r\<close> does not raise while the total stays below \<open>2 ^ 32\<close>, and adds at most \<open>k\<close> bytes.\<close>

definition fits :: "nat \<Rightarrow> dtb \<Rightarrow> dtb option \<Rightarrow> bool" where
  "fits k s r \<longleftrightarrow> (strings_wf s \<and> dsize s + k < 2 ^ 32 \<longrightarrow>
     (\<exists>s'. r = Some s' \<and> strings_wf s' \<and> dsize s' \<le> dsize s + k))"

lemma fits_bind:
  assumes "fits k s r" "\<And>s1. r = Some s1 \<Longrightarrow> fits k' s1 (f s1)"
  shows "fits (k + k') s (Option.bind r f)"
  unfolding fits_def
proof (intro impI)
  assume pre: "strings_wf s \<and> dsize s + (k + k') < 2 ^ 32"
  with assms(1) obtain s1 where s1: "r = Some s1" "strings_wf s1" "dsize s1 \<le> dsize s + k"
    by (auto simp: fits_def)
  moreover from s1 pre have "dsize s1 + k' < 2 ^ 32" by linarith
  ultimately obtain s2 where "f s1 = Some s2" "strings_wf s2" "dsize s2 \<le> dsize s1 + k'"
    using assms(2) [OF s1(1)] by (auto simp: fits_def)
  with s1 show "\<exists>s'. Option.bind r f = Some s' \<and> strings_wf s' \<and> dsize s' \<le> dsize s + (k + k')"
    by auto
qed

lemma length_pad4: "length (pad4 b) \<le> length b + 3"
  by (simp add: pad4_def)

lemma stroff_bound:
  "strings_wf s \<Longrightarrow> fst (stroff n s) \<le> length (strings s) \<and>
   length (strings (snd (stroff n s))) \<le> length (strings s) + length n + 1"
  by (fastforce simp: stroff_def strings_wf_def str_at_def split: option.splits)

lemma emit_prop_fits: "fits (16 + length n + length v) s (emit_prop (n, v) s)"
  unfolding fits_def
proof (intro impI)
  assume pre: "strings_wf s \<and> dsize s + (16 + length n + length v) < 2 ^ 32"
  obtain off s1 where so: "stroff n s = (off, s1)" by fastforce
  have b: "off \<le> length (strings s)" "length (strings s1) \<le> length (strings s) + length n + 1"
    "strings_wf s1" "struct_blk s1 = struct_blk s"
    using stroff_bound [of s n] strtab.intern_wf [of s n] stroff_struct_blk [of n s] pre so by auto
  have p: "u32s [int FDT_PROP, int (length v), int off] = Some (be32 FDT_PROP @ be32 (length v) @ be32 off)"
    using pre b(1) pack_be32_nat [of "length v"] pack_be32_nat [of off] by (simp add: dsize_def)
  let ?s' = "pad_blk (extend v (extend (be32 FDT_PROP @ be32 (length v) @ be32 off) s1))"
  have "emit_prop (n, v) s = Some ?s'" using so p by (simp add: emit_prop_def del: u32s.simps)
  moreover have "dsize ?s' \<le> dsize s + (16 + length n + length v)"
    using b length_pad4 [of "struct_blk s1 @ (be32 FDT_PROP @ be32 (length v) @ be32 off) @ v"]
    by (simp add: dsize_def)
  ultimately show "\<exists>s'. emit_prop (n, v) s = Some s' \<and> strings_wf s' \<and>
      dsize s' \<le> dsize s + (16 + length n + length v)"
    using b(3) by simp
qed

lemma emit_props_fits:
  "fits (sum_list (map (\<lambda>(p, v). 16 + length p + length v) ps)) s (emit_props ps s)"
proof (induction ps arbitrary: s)
  case Nil
  then show ?case by (simp add: fits_def)
next
  case (Cons p ps)
  obtain n v where "p = (n, v)" by fastforce
  with fits_bind [OF emit_prop_fits [of n v s] Cons.IH] show ?case by simp
qed

lemma emit_begin_fits:
  "fits (8 + length n) s (Some (pad_blk (extend (string_z n) (extend (be32 FDT_BEGIN_NODE) s))))"
  using length_pad4 [of "struct_blk s @ be32 FDT_BEGIN_NODE @ string_z n"]
  by (simp add: fits_def dsize_def)

lemma emit_end_fits: "fits 8 s (Some (extend (be32 FDT_END_NODE) s))"
  by (simp add: fits_def dsize_def)

lemma emit_fits:
  "fits (fdt_bound t) s (emit t s)"
  "fits (sum_list (map fdt_bound cs)) s (emit_list cs s)"
proof (induction t s and cs s rule: emit_emit_list.induct)
  case (1 name props children s)
  let ?s1 = "pad_blk (extend (string_z name) (extend (be32 FDT_BEGIN_NODE) s))"
  have c: "fits (sum_list (map fdt_bound children)) s2 (emit_list children s2)"
    if "emit_props props ?s1 = Some s2" for s2
    using "1.IH" that by simp
  have e: "emit (Node name props children) s = Option.bind (Some ?s1) (\<lambda>s1.
      Option.bind (emit_props props s1) (\<lambda>s2. Option.bind (emit_list children s2)
        (\<lambda>s3. Some (extend (be32 FDT_END_NODE) s3))))"
    by (simp del: u32s.simps)
  have "fits ((8 + length name) + (sum_list (map (\<lambda>(p, v). 16 + length p + length v) props) +
      (sum_list (map fdt_bound children) + 8))) s (emit (Node name props children) s)"
    unfolding e using c
    by (intro fits_bind emit_begin_fits emit_props_fits emit_end_fits) auto
  then show ?case by (simp add: add.assoc add.left_commute add.commute)
next
  case (2 s)
  then show ?case by (simp add: fits_def)
next
  case (3 c cs s)
  then show ?case using fits_bind [of _ s "emit c s" _ "\<lambda>s1. emit_list cs s1"] by simp
qed

lemma blob_total:
  assumes "fdt_bound t + 64 < 2 ^ 32"
  shows "\<exists>blob. blob_of t = Some blob"
proof -
  obtain s where s: "emit t empty_dtb = Some s" and le: "dsize s \<le> fdt_bound t"
    using emit_fits(1) [of t empty_dtb] assms by (auto simp: fits_def empty_dtb_def strings_wf_def dsize_def)
  then have "length (strings s) + length (struct_blk s) + 64 < 2 ^ 32" using assms by (simp add: dsize_def)
  with s show ?thesis
    by (simp add: blob_of_def pack_be32_def rsv_off_def hdr_size_def rsv_def del: u32s.simps)
       (simp add: pack_be32_def)
qed

section \<open>The tree of the scripts\<close>

lemma hex_nat_nulfree: "nulfree (hex_nat n)"
proof -
  have "hex_dig d \<noteq> CHR 0x00" if "d < 16" for d
    using that hexadecimal.undig_dig [of d] by (auto simp: hex_undig_def)
  then show ?thesis
    using hexadecimal.show_chars [of n] by (auto simp: nulfree_def hex_nat_def)
qed

lemma dt_tree_names: "dt_tree isa b sz = Some t \<Longrightarrow> names_ok t"
  using hex_nat_nulfree
  by (auto simp: dt_tree_def bind_eq_Some_conv nulfree_def hex_int_def)

lemma dt_tree_Some:
  "(\<exists>t. dt_tree isa b sz = Some t) \<longleftrightarrow> 0 \<le> b \<and> b < 2 ^ 32 \<and> 0 \<le> sz \<and> sz < 2 ^ 32"
  by (auto simp: dt_tree_def pack_be32_def)

lemma length_to_base_16: "n < 16 ^ Suc k \<Longrightarrow> length (to_base 16 n) \<le> Suc k"
proof (induction k arbitrary: n)
  case 0
  then show ?case by (simp add: to_base.simps)
next
  case (Suc k)
  then have "n div 16 < 16 ^ Suc k" by (simp add: less_mult_imp_div_less)
  then show ?case using Suc.IH [of "n div 16"] by (simp add: to_base.simps [of 16 n])
qed

lemma dt_tree_bound:
  assumes "dt_tree isa b sz = Some t"
  shows "fdt_bound t \<le> 1200 + length isa"
proof -
  have b: "0 \<le> b" "b < 2 ^ 32" using assms dt_tree_Some [of isa b sz] by auto
  have "nat b < 16 ^ Suc 7" using b by simp
  then have "length (hex_int b) \<le> 8"
    using length_to_base_16 [of "nat b" 7] b by (simp add: hex_int_def hex_nat_def)
  with assms show ?thesis
    by (auto simp: dt_tree_def pack_be32_def bind_eq_Some_conv split: if_splits)
qed

section \<open>Properties\<close>

lemma build_Some:
  assumes "length isa < 2 ^ 31"
  shows "(\<exists>blob. build isa mem_base mem_size = Some blob) \<longleftrightarrow> (\<exists>t. dt_tree isa mem_base mem_size = Some t)"
proof (cases "dt_tree isa mem_base mem_size")
  case (Some t)
  then have "fdt_bound t + 64 < 2 ^ 32" using dt_tree_bound [of isa mem_base mem_size t] assms by simp
  with Some show ?thesis using blob_total [of t] by (auto simp: build_def)
qed (simp add: build_def)

text \<open>C31. Reading back the blob that \<open>build\<close> returns gives the tree that the scripts
  describe: header, reservation block, tokens, padding and every name offset into
  the strings block are right. The ISA string must not contain a NUL.\<close>

theorem build_roundtrip:
  assumes "nulfree isa" "build isa mem_base mem_size = Some blob"
  shows "\<exists>t. dt_tree isa mem_base mem_size = Some t \<and> read_fdt blob = Some t"
  using assms read_blob dt_tree_names by (auto simp: build_def bind_eq_Some_conv)

theorem build_roundtrip_witness:
  "\<exists>blob t. build ''rv32imac'' 0x10000 0x40000 = Some blob \<and> dt_tree ''rv32imac'' 0x10000 0x40000 = Some t
     \<and> read_fdt blob = Some t"
proof -
  have "\<exists>blob. build ''rv32imac'' 0x10000 0x40000 = Some blob" by (simp add: build_Some dt_tree_Some)
  moreover have "nulfree ''rv32imac''" by (simp add: nulfree_def)
  ultimately show ?thesis using build_roundtrip by blast
qed

text \<open>\<open>build\<close> raises exactly when the memory base or size does not fit its
  32-bit cell: for any ISA string of sane length, in-range arguments always give
  a blob.\<close>

theorem build_error_iff:
  assumes "length isa < 2 ^ 31"
  shows "(\<exists>blob. build isa mem_base mem_size = Some blob) \<longleftrightarrow>
    0 \<le> mem_base \<and> mem_base < 2 ^ 32 \<and> 0 \<le> mem_size \<and> mem_size < 2 ^ 32"
  unfolding build_Some [OF assms] by (rule dt_tree_Some)

end
