(* ===== verification/PyBytes.thy ===== *)
theory PyBytes
  imports PyText
begin

text \<open>
  More of Python's text and byte handling: \<open>int(s, base)\<close>, the formats \<open>#x\<close> and
  \<open>#010x\<close>, hexadecimal text of bytes, and little-endian words (\<open>struct\<close> with \<open><I\<close>).
\<close>

section \<open>Reading integers\<close>

definition strip :: "string \<Rightarrow> string" where
  "strip s = rev (dropWhile is_space (rev (dropWhile is_space s)))"

text \<open>Digits with single underscores between them.\<close>

definition py_digits :: "nat \<Rightarrow> (char \<Rightarrow> nat option) \<Rightarrow> string \<Rightarrow> nat option" where
  "py_digits b undig s =
     (let fs = split_char (CHR ''_'') s in
      if [] \<in> set fs then None else map_option (of_base b) (those (map undig (concat fs))))"

definition unsigned_hex :: "string \<Rightarrow> nat option" where
  "unsigned_hex s =
     (case s of
        z # x # r \<Rightarrow>
          if z = CHR ''0'' \<and> (x = CHR ''x'' \<or> x = CHR ''X'')
          then py_digits 16 hex_undig (case r of u # r' \<Rightarrow> if u = CHR ''_'' then r' else r | [] \<Rightarrow> r)
          else py_digits 16 hex_undig s
      | _ \<Rightarrow> py_digits 16 hex_undig s)"

definition signed :: "(string \<Rightarrow> nat option) \<Rightarrow> string \<Rightarrow> int option" where
  "signed f s =
     (case s of
        c # r \<Rightarrow> if c = CHR ''-'' then map_option (\<lambda>n. - int n) (f r)
                 else if c = CHR ''+'' then map_option int (f r) else map_option int (f s)
      | [] \<Rightarrow> None)"

text \<open>\<open>int(s, 16)\<close> and \<open>int(s)\<close>; \<open>None\<close> is a ValueError.\<close>

definition int_hex :: "string \<Rightarrow> int option" where
  "int_hex s = signed unsigned_hex (strip s)"

definition int_dec :: "string \<Rightarrow> int option" where
  "int_dec s = signed (py_digits 10 dec_undig) (strip s)"

lemma hex_undig_char: "hex_undig c = Some d \<Longrightarrow> c \<noteq> CHR ''_'' \<and> c \<noteq> CHR ''-'' \<and> c \<noteq> CHR ''+'' \<and> c \<noteq> CHR ''x'' \<and> c \<noteq> CHR ''X'' \<and> \<not> is_space c \<and> c \<noteq> CHR '',''"
  by (auto simp: hex_undig_def is_space_def Let_def split: if_splits)

lemma dec_undig_char: "dec_undig c = Some d \<Longrightarrow> c \<noteq> CHR ''_'' \<and> c \<noteq> CHR ''-'' \<and> c \<noteq> CHR ''+'' \<and> \<not> is_space c \<and> c \<noteq> CHR '',''"
  by (auto simp: dec_undig_def is_space_def Let_def split: if_splits)

lemma those_all: "those (map f xs) = Some ys \<Longrightarrow> x \<in> set xs \<Longrightarrow> \<exists>y. f x = Some y"
  by (induction xs arbitrary: ys) (auto split: option.splits)

lemma read_hex_chars: "read_hex s = Some n \<Longrightarrow> c \<in> set s \<Longrightarrow> \<exists>d. hex_undig c = Some d"
  by (auto simp: read_hex_def split: if_splits dest: those_all)

lemma read_dec_chars: "read_dec s = Some n \<Longrightarrow> c \<in> set s \<Longrightarrow> \<exists>d. dec_undig c = Some d"
  by (auto simp: read_dec_def split: if_splits dest: those_all)

lemma dropWhile_none: "(\<And>c. c \<in> set s \<Longrightarrow> \<not> P c) \<Longrightarrow> dropWhile P s = s"
  by (cases s) auto

lemma strip_id: "(\<And>c. c \<in> set s \<Longrightarrow> \<not> is_space c) \<Longrightarrow> strip s = s"
  using dropWhile_none [of "rev s" is_space] by (simp add: strip_def dropWhile_none)

lemma int_hex_read:
  assumes "read_hex s = Some n"
  shows "int_hex s = Some (int n)"
proof -
  have ch: "c \<noteq> CHR ''_'' \<and> c \<noteq> CHR ''-'' \<and> c \<noteq> CHR ''+'' \<and> c \<noteq> CHR ''x'' \<and> c \<noteq> CHR ''X'' \<and> \<not> is_space c" if "c \<in> set s" for c
    using read_hex_chars [OF assms that] hex_undig_char by blast
  have "CHR ''_'' \<notin> set s" "s \<noteq> []" using ch assms by (auto simp: read_hex_def)
  then have d: "py_digits 16 hex_undig s = Some n"
    using assms by (auto simp: py_digits_def split_char_field read_hex_def)
  have "unsigned_hex s = py_digits 16 hex_undig s"
    using ch by (auto simp: unsigned_hex_def split: list.splits)
  moreover have "signed f s = map_option int (f s)" for f
    using ch \<open>s \<noteq> []\<close> by (cases s) (auto simp: signed_def)
  ultimately show ?thesis using d ch by (simp add: int_hex_def strip_id)
qed

lemma int_dec_read:
  assumes "read_dec s = Some n"
  shows "int_dec s = Some (int n)"
proof -
  have ch: "c \<noteq> CHR ''_'' \<and> c \<noteq> CHR ''-'' \<and> c \<noteq> CHR ''+'' \<and> \<not> is_space c" if "c \<in> set s" for c
    using read_dec_chars [OF assms that] dec_undig_char by blast
  have "CHR ''_'' \<notin> set s" "s \<noteq> []" using ch assms by (auto simp: read_dec_def)
  then have d: "py_digits 10 dec_undig s = Some n"
    using assms by (auto simp: py_digits_def split_char_field read_dec_def)
  moreover have "signed f s = map_option int (f s)" for f
    using ch \<open>s \<noteq> []\<close> by (cases s) (auto simp: signed_def)
  ultimately show ?thesis using ch by (simp add: int_dec_def strip_id)
qed

section \<open>Formats\<close>

text \<open>\<open>{x:#x}\<close> and \<open>{x:#010x}\<close>\<close>

definition hash_x :: "int \<Rightarrow> string" where
  "hash_x i = (if i < 0 then ''-0x'' @ hex_nat (nat (- i)) else ''0x'' @ hex_nat (nat i))"

definition hash_010x :: "int \<Rightarrow> string" where
  "hash_010x i = (if i < 0 then ''-0x'' @ zfill 7 (hex_nat (nat (- i))) else ''0x'' @ zfill 8 (hex_nat (nat i)))"

section \<open>Hexadecimal text of bytes\<close>

definition hex_byte :: "byte \<Rightarrow> string" where
  "hex_byte b = [hex_dig (unat b div 16), hex_dig (unat b mod 16)]"

definition hexbytes :: "bytes \<Rightarrow> string" where
  "hexbytes bs = concat (map hex_byte bs)"

text \<open>\<open>bytes.fromhex\<close>: blanks between the pairs are skipped.\<close>

fun fromhex :: "string \<Rightarrow> bytes option" where
  "fromhex [] = Some []"
| "fromhex [c] = (if ascii_space c then Some [] else None)"
| "fromhex (c # d # s) =
     (if ascii_space c then fromhex (d # s)
      else case (hex_undig c, hex_undig d) of
        (Some h, Some l) \<Rightarrow> map_option (\<lambda>bs. word_of_nat (16 * h + l) # bs) (fromhex s)
      | _ \<Rightarrow> None)"

lemma hex_digit_chars: "d < 16 \<Longrightarrow> hex_undig (hex_dig d) = Some d \<and> \<not> is_space (hex_dig d) \<and> \<not> ascii_space (hex_dig d)"
  using hex_undig_char [of "hex_dig d" d] by (auto simp: hexadecimal.undig_dig is_space_def ascii_space_def)

lemma fromhex_hexbytes: "fromhex (hexbytes bs) = Some bs"
proof (induction bs)
  case (Cons b bs)
  have "unat b < 256" using unsigned_less [of b] by simp
  then have "hex_undig (hex_dig (unat b div 16)) = Some (unat b div 16)" "\<not> ascii_space (hex_dig (unat b div 16))"
    "hex_undig (hex_dig (unat b mod 16)) = Some (unat b mod 16)"
    using hex_digit_chars by (simp_all add: less_mult_imp_div_less)
  with Cons show ?case by (simp add: hexbytes_def hex_byte_def)
qed (simp add: hexbytes_def)

lemma hexbytes_chars: "c \<in> set (hexbytes bs) \<Longrightarrow> \<not> is_space c"
proof -
  assume "c \<in> set (hexbytes bs)"
  then obtain b where "c \<in> set (hex_byte b)" by (auto simp: hexbytes_def)
  moreover have "unat b < 256" using unsigned_less [of b] by simp
  ultimately show "\<not> is_space c"
    using hex_digit_chars by (auto simp: hex_byte_def less_mult_imp_div_less)
qed

section \<open>Little-endian words\<close>

definition le32 :: "nat \<Rightarrow> bytes" where
  "le32 n = [word_of_nat n, word_of_nat (n div 2 ^ 8), word_of_nat (n div 2 ^ 16), word_of_nat (n div 2 ^ 24)]"

text \<open>\<open>struct.pack("<nI", *ws)\<close>; a value out of range raises.\<close>

fun pack_le :: "int list \<Rightarrow> bytes option" where
  "pack_le [] = Some []"
| "pack_le (w # ws) =
     (if 0 \<le> w \<and> w < 2 ^ 32 then map_option (\<lambda>bs. le32 (nat w) @ bs) (pack_le ws) else None)"

text \<open>\<open>struct.unpack("<I", bs)[0]\<close>; any other length raises.\<close>

definition unpack_le :: "bytes \<Rightarrow> int option" where
  "unpack_le bs = (if length bs = 4 then Some (int (\<Sum>i<4. unat (bs ! i) * 256 ^ i)) else None)"

lemma pack_le_length: "pack_le ws = Some bs \<Longrightarrow> length bs = 4 * length ws"
  by (induction ws arbitrary: bs) (auto simp: le32_def split: if_splits)

lemma pack_le_total: "list_all (\<lambda>w. 0 \<le> w \<and> w < 2 ^ 32) ws \<Longrightarrow> \<exists>bs. pack_le ws = Some bs"
  by (induction ws) auto

section \<open>Words of a text, dicts\<close>

definition is_digit :: "char \<Rightarrow> bool" where
  "is_digit c \<longleftrightarrow> dec_undig c \<noteq> None"

text \<open>\<open>\w\<close>, and a search for one of some words between word boundaries.\<close>

definition is_word :: "char \<Rightarrow> bool" where
  "is_word c \<longleftrightarrow> (let n = of_char c :: nat in
     48 \<le> n \<and> n < 58 \<or> 65 \<le> n \<and> n < 91 \<or> 97 \<le> n \<and> n < 123 \<or> n = 95 \<or> n \<in> {0xAA, 0xB2, 0xB3, 0xB5, 0xB9, 0xBA, 0xBC, 0xBD, 0xBE}
     \<or> 0xC0 \<le> n \<and> n \<noteq> 0xD7 \<and> n \<noteq> 0xF7)"

definition word_at_pos :: "string \<Rightarrow> string \<Rightarrow> nat \<Rightarrow> bool" where
  "word_at_pos w s i \<longleftrightarrow> startswith (drop i s) w \<and> (i = 0 \<or> \<not> is_word (s ! (i - 1)))
     \<and> (case drop (i + length w) s of [] \<Rightarrow> True | c # _ \<Rightarrow> \<not> is_word c)"

definition search_words :: "string list \<Rightarrow> string \<Rightarrow> bool" where
  "search_words ws s \<longleftrightarrow> list_ex (\<lambda>w. list_ex (word_at_pos w s) [0..<length s]) ws"

text \<open>A dict as an association list in insertion order.\<close>

fun dict_set :: "'k \<Rightarrow> 'v \<Rightarrow> ('k \<times> 'v) list \<Rightarrow> ('k \<times> 'v) list" where
  "dict_set k v [] = [(k, v)]"
| "dict_set k v ((k', v') # d) = (if k = k' then (k, v) # d else (k', v') # dict_set k v d)"

lemma map_of_dict_set [simp]: "map_of (dict_set k v d) = (map_of d)(k \<mapsto> v)"
  by (induction k v d rule: dict_set.induct) auto

lemma keys_dict_set: "fst ` set (dict_set k v d) = insert k (fst ` set d)"
  by (induction k v d rule: dict_set.induct) auto

lemma distinct_dict_set: "distinct (map fst d) \<Longrightarrow> distinct (map fst (dict_set k v d))"
proof (induction k v d rule: dict_set.induct)
  case (2 k v k' v' d)
  then show ?case using keys_dict_set [of k v d] by (auto simp: image_iff)
qed simp

section \<open>Hexadecimal digits in a pattern\<close>

definition is_hex :: "char \<Rightarrow> bool" where
  "is_hex c \<longleftrightarrow> (let n = of_char c :: nat in 48 \<le> n \<and> n < 58 \<or> 97 \<le> n \<and> n < 103)"

text \<open>A run of hexadecimal digits and what must follow it.\<close>

definition hex_then :: "string \<Rightarrow> string \<Rightarrow> (nat \<times> string) option" where
  "hex_then sep s =
     (let d = takeWhile is_hex s; r = dropWhile is_hex s in
      if d \<noteq> [] \<and> startswith r sep then map_option (\<lambda>n. (n, drop (length sep) r)) (read_hex d) else None)"

end
