(* ===== verification/Pipeline.thy ===== *)
theory Pipeline
  imports PyBytes Template Mkdtb
begin

text \<open>
  \<^verbatim>\<open>tools/spike_diff/pipeline.py\<close>: building and running a program, reading the two
  machines' final states, and comparing them; with the two ends of the text protocol
  of \<^verbatim>\<open>tools/spike_diff/runner.zig\<close> (a job line in, a record line out). Processes,
  the file system and the environment are parameters. A raised exception other than
  BuildError is \<open>None\<close>.
\<close>

section \<open>Constants\<close>

definition MAX_STEPS :: nat where "MAX_STEPS = 200000"

definition CONFIGS :: "string list" where "CONFIGS = [''cache'', ''nocache'', ''runtime'']"

definition CAUSES :: "(string \<times> int list) list" where
  "CAUSES = [(''ebreak'', [3]), (''ecall'', [11]), (''IllegalInstruction'', [2]), (''MisalignedAccess'', [4, 6]),
     (''AddressOutOfBounds'', [5, 7]), (''PCOutOfBounds'', [1]), (''MisalignedPC'', [0])]"

definition CAUSE_NAMES :: "(int \<times> string) list" where
  "CAUSE_NAMES = [(0, ''insn-misaligned''), (1, ''insn-access-fault''), (2, ''illegal-insn''), (3, ''breakpoint''),
     (4, ''load-misaligned''), (5, ''load-access-fault''), (6, ''store/amo-misaligned''),
     (7, ''store/amo-access-fault''), (11, ''ecall-M'')]"

section \<open>Building a program\<close>

text \<open>A process: its command gives a return code, its output and its error output.\<close>

type_synonym proc = "string list \<Rightarrow> int \<times> string \<times> string"
type_synonym syms = "string \<rightharpoonup> int"

datatype 'a outcome = Built 'a | BuildError string | Raised

fun and_then :: "'a outcome \<Rightarrow> ('a \<Rightarrow> 'b outcome) \<Rightarrow> 'b outcome" where
  "and_then (Built x) f = f x"
| "and_then (BuildError e) f = BuildError e"
| "and_then Raised f = Raised"

definition sh :: "proc \<Rightarrow> string list \<Rightarrow> string outcome" where
  "sh p cmd =
     (let (rc, out, err) = p cmd in
      if rc \<noteq> 0 then BuildError (join '' '' cmd @ nl @ out @ err) else Built out)"

fun read_syms :: "string list \<Rightarrow> syms \<Rightarrow> syms outcome" where
  "read_syms [] m = Built m"
| "read_syms (line # ls) m =
     (case split_ws line of
        [a, t, s] \<Rightarrow> (case int_hex a of None \<Rightarrow> Raised | Some v \<Rightarrow> read_syms ls (m(s \<mapsto> v)))
      | _ \<Rightarrow> read_syms ls m)"

definition symbols :: "proc \<Rightarrow> string \<Rightarrow> string \<Rightarrow> syms outcome" where
  "symbols p cross elf = and_then (sh p [cross @ ''nm'', elf]) (\<lambda>out. read_syms (splitlines out) Map.empty)"

text \<open>\<open>s[:-n]\<close>\<close>

definition chop :: "nat \<Rightarrow> 'a list \<Rightarrow> 'a list" where
  "chop n s = take (length s - n) s"

definition build_program :: "proc \<Rightarrow> string \<Rightarrow> string \<Rightarrow> string \<Rightarrow> (string \<times> string \<times> syms) outcome" where
  "build_program p cross LINK asm_path =
     (let stem = chop 2 asm_path; obj = stem @ ''.o''; elf = stem @ ''.elf''; binf = stem @ ''.bin'' in
      and_then (sh p [cross @ ''as'', ''-march='' @ ISA_AS, ''-mabi=ilp32'', asm_path, ''-o'', obj]) (\<lambda>_.
      and_then (sh p [cross @ ''ld'', ''-m'', ''elf32lriscv'', ''-T'', LINK, ''--no-relax'', ''--no-warn-rwx-segments'',
                      obj, ''-o'', elf]) (\<lambda>_.
      and_then (sh p [cross @ ''objcopy'', ''-O'', ''binary'', elf, binf]) (\<lambda>_.
      and_then (symbols p cross elf) (\<lambda>s. Built (elf, binf, s))))))"

type_synonym files = "string \<rightharpoonup> string"

definition remove_artifacts :: "string \<Rightarrow> files \<Rightarrow> files" where
  "remove_artifacts asm_path fs =
     fold (\<lambda>ext m. m(chop 2 asm_path @ ext := None)) [''.s'', ''.o'', ''.elf'', ''.bin'', ''.sig''] fs"

text \<open>Spike gets its arguments and the files, and ends (with files it may have changed) or times out.\<close>

type_synonym spike_proc = "string list \<Rightarrow> files \<Rightarrow> ((int \<times> string) option \<times> files)"

definition read_words :: "string \<Rightarrow> int list option" where
  "read_words text = those (map int_hex (split_ws text))"

definition run_spike :: "spike_proc \<Rightarrow> string \<Rightarrow> string list \<Rightarrow> string \<Rightarrow> files \<Rightarrow> ((int list option \<times> string) \<times> files) option" where
  "run_spike p spike extra elf fs =
     (let sig = chop 4 elf @ ''.sig'';
          fs1 = fs(sig := None);
          cmd = [spike, ''--isa='' @ ISA_SPIKE, ''-m'' @ SPIKE_MEM] @ extra @
                [''+signature='' @ sig, ''+signature-granularity=4'', elf]
      in case p cmd fs1 of
           (None, fs2) \<Rightarrow> Some ((None, ''spike timeout''), fs2)
         | (Some (rc, err), fs2) \<Rightarrow>
             (case fs2 sig of
                None \<Rightarrow> Some ((None, ''spike rc='' @ dec_int rc @ '' no signature: '' @ take 300 (strip err)), fs2)
              | Some text \<Rightarrow> do {
                  words \<leftarrow> read_words text;
                  Some ((Some words, ''rc='' @ dec_int rc), fs2) }))"

section \<open>The runner's protocol\<close>

definition manifest_line :: "string \<Rightarrow> syms \<Rightarrow> nat \<Rightarrow> string option" where
  "manifest_line binf syms max_steps = do {
     start \<leftarrow> syms ''test_start'';
     dump \<leftarrow> syms ''trap_dump'';
     Some (join '' '' [binf, hex_nat LOAD_ADDR, hex_int start, hex_nat LOAD_ADDR, hex_int dump, dec_nat max_steps]) }"

record det_rec =
  status :: string
  epc :: int
  retired :: int
  final_pc :: int
  x0 :: int
  reservation :: string
  regs :: "int list"
  mscratch :: int
  digest :: string
  mem :: bytes

definition parse_record :: "string \<Rightarrow> (string \<times> string \<times> det_rec) option" where
  "parse_record line =
     (case split_char (CHR '' '') line of
        [path, config, st, e, ret, fpc, z, resv, rs, ms, dg, memhex] \<Rightarrow> do {
          e \<leftarrow> int_hex e; ret \<leftarrow> int_dec ret; fpc \<leftarrow> int_hex fpc; z \<leftarrow> int_hex z;
          rs \<leftarrow> those (map int_hex (split_char (CHR '','') rs));
          ms \<leftarrow> int_hex ms;
          bs \<leftarrow> fromhex memhex;
          Some (path, config, \<lparr>status = st, epc = e, retired = ret, final_pc = fpc, x0 = z, reservation = resv,
            regs = rs, mscratch = ms, digest = dg, mem = bs\<rparr>) }
      | _ \<Rightarrow> None)"

type_synonym results = "string \<rightharpoonup> (string \<rightharpoonup> det_rec)"

fun add_records :: "string list \<Rightarrow> results \<Rightarrow> results option" where
  "add_records [] res = Some res"
| "add_records (line # ls) res = do {
     (path, config, r) \<leftarrow> parse_record line;
     add_records ls (res(path \<mapsto> (case res path of None \<Rightarrow> Map.empty | Some m \<Rightarrow> m)(config \<mapsto> r))) }"

definition run_runner :: "proc \<Rightarrow> string \<Rightarrow> string \<Rightarrow> results option" where
  "run_runner p runner manifest_path =
     (let (rc, out, err) = p [runner, manifest_path] in
      if rc \<noteq> 0 then None else add_records (splitlines out) Map.empty)"

section \<open>Comparing the final states\<close>

record spike_st =
  marker_ok :: bool
  sp_regs :: "int list"
  sp_mscratch :: int
  mcause :: int
  mepc :: int
  mtval :: int
  minstret :: int
  sp_mem :: bytes

definition word_or :: "int list \<Rightarrow> nat \<Rightarrow> int \<Rightarrow> int" where
  "word_or d i v = (if i < length d then d ! i else v)"

text \<open>
  \<open>words[:td]\<close> with \<open>struct.pack(f"<{td}I", ...)\<close>: a negative count is not a format,
  and too few words do not fill it.
\<close>

definition dump_state :: "int list \<Rightarrow> bytes \<Rightarrow> spike_st" where
  "dump_state d m =
     \<lparr>marker_ok = (length d = 37 \<and> d ! 0 = int DUMP_MARKER), sp_regs = take 31 (drop 1 d),
      sp_mscratch = word_or d 32 0, mcause = word_or d 33 (-1), mepc = word_or d 34 0,
      mtval = word_or d 35 0, minstret = word_or d 36 0, sp_mem = m\<rparr>"

definition dump_index :: "syms \<Rightarrow> nat option" where
  "dump_index syms =
     (case syms ''trap_dump'' of
        None \<Rightarrow> None
      | Some dump \<Rightarrow> if dump < int LOAD_ADDR then None else Some (nat ((dump - int LOAD_ADDR) div 4)))"

definition spike_state :: "int list \<Rightarrow> syms \<Rightarrow> spike_st option" where
  "spike_state words syms =
     (case dump_index syms of
        None \<Rightarrow> None
      | Some td \<Rightarrow>
          if length words < td then None
          else map_option (dump_state (take 37 (drop td words))) (pack_le (take td words)))"

definition cause_name :: "int \<Rightarrow> string" where
  "cause_name c = (case map_of CAUSE_NAMES c of None \<Rightarrow> ''?'' | Some s \<Rightarrow> s)"

definition want_retired :: "spike_st \<Rightarrow> det_rec \<Rightarrow> int" where
  "want_retired sp det = minstret sp - int SPIKE_INSTRET_OFFSET
     + (if status det = ''ebreak'' \<or> status det = ''ecall'' then 1 else 0)"

definition cause_ok :: "spike_st \<Rightarrow> det_rec \<Rightarrow> bool" where
  "cause_ok sp det = (case map_of CAUSES (status det) of None \<Rightarrow> False | Some want \<Rightarrow> mcause sp \<in> set want)"

definition outcome_diffs :: "spike_st \<Rightarrow> det_rec \<Rightarrow> string list" where
  "outcome_diffs sp det =
     (if \<not> cause_ok sp det then
        [''outcome: spike mcause='' @ dec_int (mcause sp) @ ''('' @ cause_name (mcause sp) @ '') mepc='' @ hash_x (mepc sp)
         @ '' vs det status='' @ status det @ '' epc='' @ hash_x (epc det)]
      else if mepc sp \<noteq> epc det then
        [''epc: spike mepc='' @ hash_x (mepc sp) @ '' vs det epc='' @ hash_x (epc det)]
      else if retired det \<noteq> want_retired sp det then
        [''retired: det='' @ dec_int (retired det) @ '' vs spike-derived='' @ dec_int (want_retired sp det)]
      else [])"

text \<open>The register loop: \<open>i\<close> is the next index; an index past either list raises.\<close>

definition reg_diff :: "nat \<Rightarrow> int \<Rightarrow> int \<Rightarrow> string list" where
  "reg_diff i a b =
     (if a \<noteq> b then [''x'' @ dec_nat (Suc i) @ '': spike='' @ hash_010x a @ '' det='' @ hash_010x b] else [])"

fun reg_diffs :: "nat \<Rightarrow> nat \<Rightarrow> int list \<Rightarrow> int list \<Rightarrow> string list option" where
  "reg_diffs 0 i a b = Some []"
| "reg_diffs (Suc n) i a b =
     (if i < length a \<and> i < length b
      then map_option (\<lambda>ds. reg_diff i (a ! i) (b ! i) @ ds) (reg_diffs n (Suc i) a b)
      else None)"

text \<open>The memory loop: the words from \<open>off\<close> on, with \<open>n\<close> differences so far; the first eight are reported.\<close>

function mem_diffs :: "nat \<Rightarrow> bytes \<Rightarrow> bytes \<Rightarrow> nat \<Rightarrow> (string list \<times> nat) option" where
  "mem_diffs off a b n =
     (if a = [] \<or> b = [] then Some ([], n)
      else if take 4 a = take 4 b then mem_diffs (off + 4) (drop 4 a) (drop 4 b) n
      else if Suc n \<le> 8 then do {
        sw \<leftarrow> unpack_le (take 4 a);
        dw \<leftarrow> unpack_le (take 4 b);
        (ds, k) \<leftarrow> mem_diffs (off + 4) (drop 4 a) (drop 4 b) (Suc n);
        Some ((''mem['' @ hash_x (int (LOAD_ADDR + off)) @ '']: spike='' @ hash_010x sw @ '' det='' @ hash_010x dw) # ds, k) }
      else mem_diffs (off + 4) (drop 4 a) (drop 4 b) (Suc n))"
  by pat_completeness auto
termination
  by (relation "measure (\<lambda>(off, a, b, n). length a)") auto

declare mem_diffs.simps [simp del]

definition memory_diffs :: "bytes \<Rightarrow> bytes \<Rightarrow> string list option" where
  "memory_diffs a b =
     (if a = b then Some []
      else do {
        (ds, n) \<leftarrow> mem_diffs 0 a b 0;
        Some (ds
          @ (if n > 8 then [''... '' @ dec_nat n @ '' differing memory words in total''] else [])
          @ (if length a \<noteq> length b
             then [''mem length spike='' @ dec_nat (length a) @ '' det='' @ dec_nat (length b)] else [])) })"

definition compare :: "spike_st \<Rightarrow> det_rec \<Rightarrow> string list option" where
  "compare sp det =
     (if \<not> marker_ok sp then Some [''spike did not reach the trap handler (no dump marker)'']
      else do {
        rd \<leftarrow> reg_diffs 31 0 (sp_regs sp) (regs det);
        md \<leftarrow> memory_diffs (sp_mem sp) (mem det);
        Some (outcome_diffs sp det
          @ (if x0 det \<noteq> 0 then [''det regs[0] = '' @ hash_x (x0 det) @ '' (x0 written)''] else [])
          @ rd
          @ (if sp_mscratch sp \<noteq> mscratch det
             then [''mscratch: spike='' @ hash_010x (sp_mscratch sp) @ '' det='' @ hash_010x (mscratch det)] else [])
          @ md) })"

text \<open>The keys of a record, in order, with whether two records differ on each.\<close>

definition key_diffs :: "det_rec \<Rightarrow> det_rec \<Rightarrow> (string \<times> bool) list" where
  "key_diffs a b = [(''status'', status a \<noteq> status b), (''epc'', epc a \<noteq> epc b), (''retired'', retired a \<noteq> retired b),
     (''final_pc'', final_pc a \<noteq> final_pc b), (''x0'', x0 a \<noteq> x0 b), (''reservation'', reservation a \<noteq> reservation b),
     (''regs'', regs a \<noteq> regs b), (''mscratch'', mscratch a \<noteq> mscratch b), (''digest'', digest a \<noteq> digest b),
     (''mem'', mem a \<noteq> mem b)]"

definition compare_configs :: "(string \<rightharpoonup> det_rec) \<Rightarrow> string list" where
  "compare_configs r =
     (let missing = [c \<leftarrow> CONFIGS. r c = None] in
      if missing \<noteq> [] then [''runner record missing for '' @ join '', '' missing]
      else let a = the (r ''cache'') in
        map (\<lambda>(k, _). ''decode cache on/off differ on '' @ k) (filter snd (key_diffs a (the (r ''nocache''))))
        @ map (\<lambda>(k, _). ''CpuType/RuntimeCpuType differ on '' @ k) (filter snd (key_diffs a (the (r ''runtime'')))))"

section \<open>What the comparison decides\<close>

lemma reg_diff_nil [simp]: "reg_diff i a b = [] \<longleftrightarrow> a = b"
  by (simp add: reg_diff_def)

lemma reg_diffs_total:
  "n + i \<le> length a \<Longrightarrow> n + i \<le> length b \<Longrightarrow>
   \<exists>ds. reg_diffs n i a b = Some ds \<and> (ds = [] \<longleftrightarrow> take n (drop i a) = take n (drop i b))"
proof (induction n arbitrary: i)
  case (Suc n)
  have "n + Suc i \<le> length a" "n + Suc i \<le> length b" using Suc.prems by simp_all
  from Suc.IH [OF this] obtain ds where "reg_diffs n (Suc i) a b = Some ds"
    "ds = [] \<longleftrightarrow> take n (drop (Suc i) a) = take n (drop (Suc i) b)" by blast
  moreover have "drop i xs = xs ! i # drop (Suc i) xs" if "i < length xs" for xs :: "int list"
    using that by (simp add: Cons_nth_drop_Suc)
  ultimately show ?case using Suc.prems by simp
qed simp

lemma reg_diffs_eq:
  "length a = n \<Longrightarrow> length b = n \<Longrightarrow> \<exists>ds. reg_diffs n 0 a b = Some ds \<and> (ds = [] \<longleftrightarrow> a = b)"
  using reg_diffs_total [of n 0 a b] by simp

text \<open>The words, by index, on which two memories differ.\<close>

definition word_at :: "bytes \<Rightarrow> nat \<Rightarrow> bytes" where
  "word_at a j = take 4 (drop (4 * j) a)"

definition differing :: "bytes \<Rightarrow> bytes \<Rightarrow> nat list" where
  "differing a b = [j \<leftarrow> [0..<min (length a) (length b) div 4]. word_at a j \<noteq> word_at b j]"

lemma word_at_0 [simp]: "word_at a 0 = take 4 a"
  by (simp add: word_at_def)

lemma word_at_Suc [simp]: "word_at a (Suc j) = word_at (drop 4 a) j"
  by (simp add: word_at_def add.commute)

lemma differing_Nil: "a = [] \<or> b = [] \<Longrightarrow> differing a b = []"
  by (auto simp: differing_def)

lemma differing_step:
  assumes "4 \<le> length a" "4 \<le> length b"
  shows "differing a b = (if take 4 a = take 4 b then [] else [0]) @ map Suc (differing (drop 4 a) (drop 4 b))"
proof -
  let ?n = "min (length (drop 4 a)) (length (drop 4 b)) div 4"
  have "min (length a) (length b) div 4 = Suc ?n" using assms by auto
  then have "[0..<min (length a) (length b) div 4] = 0 # map Suc [0..<?n]"
    by (simp add: map_Suc_upt upt_conv_Cons del: upt_Suc)
  then show ?thesis by (simp add: differing_def filter_map o_def)
qed

lemma mult4_cases: "4 dvd length a \<Longrightarrow> a \<noteq> [] \<Longrightarrow> 4 \<le> length a"
  by (auto simp: dvd_imp_le)

lemma mem_diffs_count:
  "4 dvd length a \<Longrightarrow> 4 dvd length b \<Longrightarrow>
   \<exists>ds k. mem_diffs off a b n = Some (ds, k) \<and> k = n + length (differing a b) \<and> length ds = min 8 k - min 8 n"
proof (induction off a b n rule: mem_diffs.induct)
  case (1 off a b n)
  show ?case
  proof (cases "a = [] \<or> b = []")
    case True
    then show ?thesis by (simp add: mem_diffs.simps differing_Nil)
  next
    case False
    then have len: "4 \<le> length a" "4 \<le> length b" using 1(4,5) mult4_cases by auto
    have dv: "4 dvd length (drop 4 a)" "4 dvd length (drop 4 b)" using 1(4,5) by simp_all
    have un: "\<exists>x. unpack_le (take 4 a) = Some x" "\<exists>x. unpack_le (take 4 b) = Some x"
      using len by (simp_all add: unpack_le_def)
    show ?thesis
    proof (cases "take 4 a = take 4 b")
      case True
      with False 1(1) dv len show ?thesis by (simp add: mem_diffs.simps [of off a] differing_step)
    next
      case ne: False
      show ?thesis
      proof (cases "Suc n \<le> 8")
        case True
        from 1(2) [OF False ne True] un dv obtain ds k where
          "mem_diffs (off + 4) (drop 4 a) (drop 4 b) (Suc n) = Some (ds, k)"
          "k = Suc n + length (differing (drop 4 a) (drop 4 b))" "length ds = min 8 k - min 8 (Suc n)" by blast
        with False ne True un len show ?thesis
          by (auto simp: mem_diffs.simps [of off a] differing_step)
      next
        case big: False
        with 1(3) [OF False ne] dv False ne len show ?thesis
          by (simp add: mem_diffs.simps [of off a] differing_step)
      qed
    qed
  qed
qed

lemma differing_eq:
  "4 dvd length a \<Longrightarrow> length a = length b \<Longrightarrow> differing a b = [] \<longleftrightarrow> a = b"
proof (induction "length a" arbitrary: a b rule: less_induct)
  case less
  show ?case
  proof (cases "a = []")
    case False
    then have "4 \<le> length a" "4 \<le> length b" using less.prems mult4_cases [of a] by auto
    moreover have "differing (drop 4 a) (drop 4 b) = [] \<longleftrightarrow> drop 4 a = drop 4 b"
      using less.prems calculation by (intro less.hyps) auto
    moreover have "a = b \<longleftrightarrow> take 4 a = take 4 b \<and> drop 4 a = drop 4 b"
      by (metis append_take_drop_id)
    ultimately show ?thesis by (simp add: differing_step)
  qed (use less.prems in \<open>simp add: differing_def\<close>)
qed

lemma memory_diffs_total:
  assumes "4 dvd length a" "4 dvd length b"
  shows "\<exists>ds. memory_diffs a b = Some ds \<and> (ds = [] \<longleftrightarrow> a = b)
     \<and> length ds = min 8 (length (differing a b)) + (if 8 < length (differing a b) then 1 else 0)
                  + (if length a = length b then 0 else 1)"
proof -
  obtain ds k where d: "mem_diffs 0 a b 0 = Some (ds, k)" "k = length (differing a b)" "length ds = min 8 k"
    using mem_diffs_count [OF assms, of 0 0] by auto
  have eq: "differing a a = []" for a by (simp add: differing_def)
  have "ds \<noteq> []" if "a \<noteq> b" "length a = length b"
    using that d differing_eq [OF assms(1), of b] by (auto simp: min_def split: if_splits)
  with d show ?thesis by (auto simp: memory_diffs_def eq)
qed

text \<open>What it means that the machines agree; the specification of \<open>compare\<close>.\<close>

definition agree :: "spike_st \<Rightarrow> det_rec \<Rightarrow> bool" where
  "agree sp det \<longleftrightarrow>
     marker_ok sp \<and> cause_ok sp det \<and> mepc sp = epc det \<and> retired det = want_retired sp det
     \<and> x0 det = 0 \<and> sp_regs sp = regs det \<and> sp_mscratch sp = mscratch det \<and> sp_mem sp = mem det"

lemma outcome_diffs_nil:
  "outcome_diffs sp det = [] \<longleftrightarrow> cause_ok sp det \<and> mepc sp = epc det \<and> retired det = want_retired sp det"
  by (simp add: outcome_diffs_def)

lemma spike_state_cases:
  assumes "spike_state words syms = Some sp"
  obtains td m where "dump_index syms = Some td" "td \<le> length words" "pack_le (take td words) = Some m"
    "sp = dump_state (take 37 (drop td words)) m"
  using assms by (auto simp: spike_state_def split: option.splits if_splits)

lemma spike_state_shape:
  assumes "spike_state words syms = Some sp"
  shows "4 dvd length (sp_mem sp)" "marker_ok sp \<Longrightarrow> length (sp_regs sp) = 31"
  by (rule spike_state_cases [OF assms], simp add: dump_state_def pack_le_length)+

lemma report_nil: "(if b then [x] else []) = [] \<longleftrightarrow> \<not> b"
  by simp

lemma compare_marker:
  assumes "marker_ok sp" "reg_diffs 31 0 (sp_regs sp) (regs det) = Some rd" "memory_diffs (sp_mem sp) (mem det) = Some md"
  shows "\<exists>ds. compare sp det = Some ds \<and> (ds = [] \<longleftrightarrow> outcome_diffs sp det = [] \<and> x0 det = 0 \<and> rd = []
     \<and> sp_mscratch sp = mscratch det \<and> md = [])"
  unfolding compare_def assms(2,3) bind.bind_lunit
  by (subst if_not_P, use assms(1) in blast)
     (rule exI, rule conjI, rule refl, simp only: append_is_Nil_conv report_nil not_not simp_thms)

lemma compare_agree:
  assumes sp: "4 dvd length (sp_mem sp)" "marker_ok sp \<Longrightarrow> length (sp_regs sp) = 31"
    and det: "length (regs det) = 31" "4 dvd length (mem det)"
  shows "\<exists>ds. compare sp det = Some ds \<and> (ds = [] \<longleftrightarrow> agree sp det)"
proof (cases "marker_ok sp")
  case True
  obtain rd where r: "reg_diffs 31 0 (sp_regs sp) (regs det) = Some rd" "rd = [] \<longleftrightarrow> sp_regs sp = regs det"
    using reg_diffs_eq [OF sp(2) [OF True] det(1)] by blast
  obtain md where m: "memory_diffs (sp_mem sp) (mem det) = Some md" "md = [] \<longleftrightarrow> sp_mem sp = mem det"
    using memory_diffs_total [OF sp(1) det(2)] by blast
  from compare_marker [OF True r(1) m(1)] show ?thesis
    unfolding agree_def outcome_diffs_nil r(2) m(2) using True by (simp only: simp_thms conj_assoc)
qed (simp add: compare_def agree_def)

text \<open>Records as the runner prints them: 31 registers and a whole number of words.\<close>

definition shaped :: "results \<Rightarrow> bool" where
  "shaped det \<longleftrightarrow> (\<forall>p rec c d. det p = Some rec \<longrightarrow> rec c = Some d \<longrightarrow> length (regs d) = 31 \<and> 4 dvd length (mem d))"

lemma compare_shaped:
  assumes "spike_state words syms = Some sp" "shaped det" "det b = Some rec" "rec c = Some d"
  shows "\<exists>ds. compare sp d = Some ds \<and> (ds = [] \<longleftrightarrow> agree sp d)"
  using compare_agree [OF spike_state_shape [OF assms(1)]] assms(2-4) by (simp add: shaped_def)

lemma key_diffs_none: "filter snd (key_diffs a b) = [] \<longleftrightarrow> a = b"
  by (auto simp: key_diffs_def)

text \<open>C3. \<open>compare\<close> never raises on a state read from Spike's signature and a runner record with 31
  registers and a whole number of words, and it reports no difference exactly when the machines agree:
  the dump marker is there, the trap cause fits the status, and the trap address, the retired
  instructions, x0, every register, mscratch and every byte of memory agree.\<close>

theorem compare_nil_iff:
  assumes "spike_state words syms = Some sp"
    and "length (regs det) = 31" and "4 dvd length (mem det)"
  shows "\<exists>ds. compare sp det = Some ds \<and> (ds = [] \<longleftrightarrow> agree sp det)"
  by (rule compare_agree [OF spike_state_shape [OF assms(1)] assms(2,3)])

definition sample_words :: "int list" where
  "sample_words = [0x100073, int DUMP_MARKER] @ replicate 31 7 @ [1, 3, 0x10000, 0, 9]"

definition sample_det :: det_rec where
  "sample_det = \<lparr>status = ''ebreak'', epc = 0x10000, retired = 1, final_pc = 0x10004, x0 = 0, reservation = ''none'',
     regs = replicate 31 7, mscratch = 1, digest = [], mem = [0x73, 0, 0x10, 0]\<rparr>"

lemma sample_agree: "\<exists>sp. spike_state sample_words [''trap_dump'' \<mapsto> 0x10004] = Some sp \<and> agree sp sample_det"
proof -
  let ?sp = "\<lparr>marker_ok = True, sp_regs = replicate 31 7, sp_mscratch = 1, mcause = 3, mepc = 0x10000, mtval = 0, minstret = 9,
      sp_mem = [0x73, 0, 0x10, 0]\<rparr>"
  have "spike_state sample_words [''trap_dump'' \<mapsto> 0x10004] = Some ?sp"
    by (simp add: spike_state_def dump_index_def sample_words_def LOAD_ADDR_def dump_state_def word_or_def nth_append le32_def)
  moreover have "agree ?sp sample_det"
    by (simp add: agree_def sample_det_def cause_ok_def CAUSES_def want_retired_def SPIKE_INSTRET_OFFSET_def)
  ultimately show ?thesis by blast
qed

lemma sample_det_shape: "length (regs sample_det) = 31" "4 dvd length (mem sample_det)"
  by code_simp+

theorem compare_nil_iff_witness:
  "\<exists>sp. spike_state sample_words [''trap_dump'' \<mapsto> 0x10004] = Some sp \<and> compare sp sample_det = Some []"
proof -
  obtain sp where s: "spike_state sample_words [''trap_dump'' \<mapsto> 0x10004] = Some sp" "agree sp sample_det" using sample_agree by blast
  then show ?thesis using compare_nil_iff [OF s(1) sample_det_shape] by auto
qed

text \<open>The memory report is complete and short: it is empty exactly for equal memories; otherwise it
  has one line for each of the first eight differing words, one with their number when there are more,
  and one when the lengths differ.\<close>

theorem memory_report:
  assumes "4 dvd length a" and "4 dvd length b"
  shows "\<exists>ds. memory_diffs a b = Some ds \<and> (ds = [] \<longleftrightarrow> a = b)
     \<and> length ds = min 8 (length (differing a b)) + (if 8 < length (differing a b) then 1 else 0)
                  + (if length a = length b then 0 else 1)"
  by (rule memory_diffs_total [OF assms])

theorem memory_report_witness:
  "\<exists>ds. memory_diffs [0, 0, 0, 0, 1, 1, 1, 1] [0, 0, 0, 0, 1, 2, 1, 1] = Some ds \<and> length ds = 1"
proof -
  have "differing [0, 0, 0, 0, 1, 1, 1, 1] [0, 0, 0, 0, 1, 2, 1, 1] = [1]" by (simp add: differing_def word_at_def upt_rec)
  moreover have "4 dvd length [0, 0, 0, 0, 1, 1, 1, 1 :: byte]" "4 dvd length [0, 0, 0, 0, 1, 2, 1, 1 :: byte]" by code_simp+
  ultimately show ?thesis
    using memory_report [of "[0, 0, 0, 0, 1, 1, 1, 1]" "[0, 0, 0, 0, 1, 2, 1, 1]"] by auto
qed

lemma configs_equal:
  "compare_configs r = [] \<longleftrightarrow> (\<exists>d. \<forall>c \<in> set CONFIGS. r c = Some d)"
proof (cases "\<forall>c \<in> set CONFIGS. r c \<noteq> None")
  case True
  then obtain a b d where "r ''cache'' = Some a" "r ''nocache'' = Some b" "r ''runtime'' = Some d"
    by (auto simp: CONFIGS_def)
  then show ?thesis
    by (auto simp: compare_configs_def CONFIGS_def key_diffs_none)
next
  case False
  then have "[c \<leftarrow> CONFIGS. r c = None] \<noteq> []" by (auto simp: filter_empty_conv)
  with False show ?thesis by (force simp: compare_configs_def Let_def)
qed

text \<open>\<open>compare_configs\<close> is silent exactly when the runner printed a record for each of the three
  configurations and the records are equal in every field.\<close>

theorem compare_configs_nil_iff:
  "compare_configs r = [] \<longleftrightarrow> (\<exists>d. list_all (\<lambda>c. r c = Some d) CONFIGS)"
  unfolding list_all_iff by (rule configs_equal)

end
