(* ===== verification/Protocol.thy ===== *)
theory Protocol
  imports Pipeline "HOL-Library.Word"
begin

text \<open>
  The text protocol between \<^verbatim>\<open>pipeline.py\<close> and \<^verbatim>\<open>tools/spike_diff/runner.zig\<close>: the runner's
  \<open>parseJob\<close> reads what \<open>manifest_line\<close> writes, and \<open>run_runner\<close> reads what the runner's
  \<open>runJob\<close> prints. Zig's integers are words of their width.
\<close>

section \<open>The runner's side\<close>

definition mem_size :: nat where "mem_size = 0x50000"

record job =
  path :: string
  load :: "32 word"
  entry :: "32 word"
  dump_lo :: "32 word"
  dump_hi :: "32 word"
  max_steps :: "64 word"

text \<open>\<open>std.mem.tokenizeAny(u8, line, " \t")\<close>\<close>

definition tokens :: "string \<Rightarrow> string list" where
  "tokens s = filter (\<lambda>f. f \<noteq> []) (split_char (CHR '' '') (map (\<lambda>c. if c = CHR 0x09 then CHR '' '' else c) s))"

text \<open>
  \<open>std.fmt.parseInt\<close> for an unsigned type of \<open>w\<close> bits: a sign, then digits with
  underscores inside; \<open>None\<close> is InvalidCharacter or Overflow.
\<close>

definition zig_digits :: "nat \<Rightarrow> (char \<Rightarrow> nat option) \<Rightarrow> string \<Rightarrow> nat option" where
  "zig_digits b undig s =
     (if s = [] \<or> hd s = CHR ''_'' \<or> last s = CHR ''_'' then None
      else map_option (of_base b) (those (map undig (filter (\<lambda>c. c \<noteq> CHR ''_'') s))))"

definition parseInt :: "nat \<Rightarrow> nat \<Rightarrow> (char \<Rightarrow> nat option) \<Rightarrow> string \<Rightarrow> nat option" where
  "parseInt w b undig s =
     (case s of
        [] \<Rightarrow> None
      | c # r \<Rightarrow>
          (case zig_digits b undig (if c = CHR ''+'' \<or> c = CHR ''-'' then r else s) of
             None \<Rightarrow> None
           | Some n \<Rightarrow> if n < 2 ^ w \<and> (c = CHR ''-'' \<longrightarrow> n = 0) then Some n else None))"

definition parseJob :: "string \<Rightarrow> job option" where
  "parseJob line =
     (case tokens line of
        [p, l, e, lo, hi, mx] \<Rightarrow> do {
          l \<leftarrow> parseInt 32 16 hex_undig l;
          e \<leftarrow> parseInt 32 16 hex_undig e;
          lo \<leftarrow> parseInt 32 16 hex_undig lo;
          hi \<leftarrow> parseInt 32 16 hex_undig hi;
          mx \<leftarrow> parseInt 64 10 dec_undig mx;
          if lo > hi \<or> hi > mem_size then None
          else Some \<lparr>path = p, load = word_of_nat l, entry = word_of_nat e, dump_lo = word_of_nat lo,
                     dump_hi = word_of_nat hi, max_steps = word_of_nat mx\<rparr> }
      | _ \<Rightarrow> None)"

text \<open>The state a run ends in, as far as \<open>runJob\<close> prints it; \<open>vm_regs\<close> are x1 to x31.\<close>

record run_end =
  vm_status :: string
  vm_epc :: "32 word"
  cycle_count :: "64 word"
  vm_pc :: "32 word"
  vm_x0 :: "32 word"
  vm_reservation :: "32 word option"
  vm_regs :: "32 word list"
  vm_mscratch :: "32 word"
  stateDigest :: bytes
  vm_mem :: bytes

definition hex8 :: "32 word \<Rightarrow> string" where
  "hex8 w = zfill 8 (hex_nat (unat w))"

definition resv_text :: "32 word option \<Rightarrow> string" where
  "resv_text r = (case r of None \<Rightarrow> ''none'' | Some a \<Rightarrow> hex8 a)"

definition print_line :: "string \<Rightarrow> string \<Rightarrow> run_end \<Rightarrow> string" where
  "print_line p config v =
     join '' '' [p, config, vm_status v, hex8 (vm_epc v), dec_nat (unat (cycle_count v)), hex8 (vm_pc v), hex8 (vm_x0 v),
       resv_text (vm_reservation v), join '','' (map hex8 (vm_regs v)), hex8 (vm_mscratch v),
       hexbytes (stateDigest v), hexbytes (vm_mem v)]"

definition print_run :: "string \<Rightarrow> string \<Rightarrow> run_end \<Rightarrow> string" where
  "print_run p config v = print_line p config v @ nl"

text \<open>The record \<open>run_runner\<close> is to make of it.\<close>

definition record_of :: "run_end \<Rightarrow> det_rec" where
  "record_of v = \<lparr>status = vm_status v, epc = int (unat (vm_epc v)), retired = int (unat (cycle_count v)),
     final_pc = int (unat (vm_pc v)), x0 = int (unat (vm_x0 v)), reservation = resv_text (vm_reservation v),
     regs = map (\<lambda>w. int (unat w)) (vm_regs v), mscratch = int (unat (vm_mscratch v)),
     digest = hexbytes (stateDigest v), mem = vm_mem v\<rparr>"

section \<open>Reading numbers\<close>

lemma zig_digits_plain:
  assumes "those (map undig s) = Some ds" "s \<noteq> []" "undig (CHR ''_'') = None"
  shows "zig_digits b undig s = Some (of_base b ds)"
proof -
  have "CHR ''_'' \<notin> set s" using those_all [OF assms(1)] assms(3) by fastforce
  moreover from this have "filter (\<lambda>c. c \<noteq> CHR ''_'') s = s" by (induction s) auto
  ultimately show ?thesis using assms by (auto simp: zig_digits_def dest: hd_in_set last_in_set)
qed

lemma parseInt_plain:
  assumes "those (map undig s) = Some ds" "s \<noteq> []" "of_base b ds < 2 ^ w"
    and "undig (CHR ''_'') = None" "undig (CHR ''+'') = None" "undig (CHR ''-'') = None"
  shows "parseInt w b undig s = Some (of_base b ds)"
proof -
  obtain c r where s: "s = c # r" using assms(2) by (cases s) auto
  have "c \<noteq> CHR ''+'' \<and> c \<noteq> CHR ''-''" using those_all [OF assms(1), of c] assms(5,6) s by auto
  then show ?thesis using zig_digits_plain [OF assms(1,2,4), of b] assms(3) by (simp add: parseInt_def s)
qed

lemma parseInt_hex: "read_hex s = Some n \<Longrightarrow> n < 2 ^ w \<Longrightarrow> parseInt w 16 hex_undig s = Some n"
  by (auto simp: read_hex_def hex_undig_def split: if_splits intro!: parseInt_plain)

lemma parseInt_dec: "read_dec s = Some n \<Longrightarrow> n < 2 ^ w \<Longrightarrow> parseInt w 10 dec_undig s = Some n"
  by (auto simp: read_dec_def dec_undig_def split: if_splits intro!: parseInt_plain)

lemma read_hex_hex8 [simp]: "read_hex (hex8 w) = Some (unat w)"
  by (simp add: hex8_def read_hex_zfill)

lemma int_hex_hex8 [simp]: "int_hex (hex8 w) = Some (int (unat w))"
  by (rule int_hex_read) simp

lemma int_dec_dec_nat [simp]: "int_dec (dec_nat n) = Some (int n)"
  by (rule int_dec_read) simp

text \<open>Characters that no number and no field of the protocol has.\<close>

lemma read_hex_field: "read_hex s = Some n \<Longrightarrow> c \<in> set s \<Longrightarrow> \<not> is_space c \<and> c \<noteq> CHR '',''"
  using read_hex_chars hex_undig_char by blast

lemma read_dec_field: "read_dec s = Some n \<Longrightarrow> c \<in> set s \<Longrightarrow> \<not> is_space c \<and> c \<noteq> CHR '',''"
  using read_dec_chars dec_undig_char by blast

definition plain :: "string \<Rightarrow> bool" where
  "plain s \<longleftrightarrow> list_all (\<lambda>c. \<not> is_space c) s"

lemma plain_hex8 [simp]: "plain (hex8 w)" and plain_hex_nat [simp]: "plain (hex_nat n)" and plain_dec_nat [simp]: "plain (dec_nat n)"
  and plain_hexbytes [simp]: "plain (hexbytes bs)"
  by (auto simp: plain_def list_all_iff dest: read_hex_field [OF read_hex_hex8] read_hex_field [OF read_hex_hex_nat]
        read_dec_field [OF read_dec_dec_nat] hexbytes_chars)

lemma plainD: "plain s \<Longrightarrow> c \<in> set s \<Longrightarrow> \<not> is_space c"
  by (simp add: plain_def list_all_iff)

lemma plain_blank: "plain s \<Longrightarrow> CHR '' '' \<notin> set s" "plain s \<Longrightarrow> CHR 0x09 \<notin> set s"
  by (auto simp: plain_def list_all_iff is_space_def)

lemma plain_resv [simp]: "plain (resv_text r)"
  by (cases r) (simp_all add: resv_text_def plain_def [of "''none''"] is_space_def)

lemma line_end_space: "line_end c \<Longrightarrow> is_space c"
  by (auto simp: line_end_def is_space_def)

section \<open>The manifest\<close>

lemma map_id_notin: "a \<notin> set s \<Longrightarrow> map (\<lambda>c. if c = a then b else c) s = s"
  by (induction s) auto

lemma set_join: "set (join sep fs) \<subseteq> set sep \<union> (\<Union>f \<in> set fs. set f)"
  by (induction sep fs rule: join.induct) auto

lemma tokens_join:
  assumes "fs \<noteq> []" "list_all (\<lambda>f. f \<noteq> [] \<and> plain f) fs"
  shows "tokens (join '' '' fs) = fs"
proof -
  have "CHR 0x09 \<notin> set (join '' '' fs)"
    using set_join [of "'' ''" fs] assms(2) by (auto simp: list_all_iff dest: plain_blank)
  moreover have "split_char (CHR '' '') (join '' '' fs) = fs"
    using assms by (intro split_char_join) (auto simp: list_all_iff dest: plain_blank)
  moreover have "filter (\<lambda>f. f \<noteq> []) fs = fs" using assms(2) by (induction fs) auto
  ultimately show ?thesis by (simp add: tokens_def map_id_notin)
qed

lemma parseInt_overflow:
  assumes "those (map undig s) = Some ds" "s \<noteq> []" "\<not> of_base b ds < 2 ^ w"
    and "undig (CHR ''_'') = None" "undig (CHR ''+'') = None" "undig (CHR ''-'') = None"
  shows "parseInt w b undig s = None"
proof -
  obtain c r where s: "s = c # r" using assms(2) by (cases s) auto
  have "c \<noteq> CHR ''+'' \<and> c \<noteq> CHR ''-''" using those_all [OF assms(1), of c] assms(5,6) s by auto
  then show ?thesis using zig_digits_plain [OF assms(1,2,4), of b] assms(3) by (simp add: parseInt_def s)
qed

lemma parseInt_hex_nat [simp]: "parseInt w 16 hex_undig (hex_nat n) = (if n < 2 ^ w then Some n else None)"
  using read_hex_hex_nat [of n]
  by (auto simp: read_hex_def hex_undig_def split: if_splits intro!: parseInt_overflow parseInt_plain)

lemma parseInt_dec_nat [simp]: "parseInt w 10 dec_undig (dec_nat n) = (if n < 2 ^ w then Some n else None)"
  using read_dec_dec_nat [of n]
  by (auto simp: read_dec_def dec_undig_def split: if_splits intro!: parseInt_overflow parseInt_plain)

definition job_of :: "string \<Rightarrow> nat \<Rightarrow> nat \<Rightarrow> nat \<Rightarrow> job" where
  "job_of p e d n = \<lparr>path = p, load = 0x10000, entry = word_of_nat e, dump_lo = 0x10000, dump_hi = word_of_nat d, max_steps = word_of_nat n\<rparr>"

lemma parseJob_tokens:
  assumes "tokens line = [p, hex_nat LOAD_ADDR, hex_nat e, hex_nat LOAD_ADDR, hex_nat d, dec_nat n]"
  shows "parseJob line = (if e < 2 ^ 32 \<and> LOAD_ADDR \<le> d \<and> d \<le> mem_size \<and> n < 2 ^ 64 then Some (job_of p e d n) else None)"
proof -
  have "LOAD_ADDR < 2 ^ 32" "d \<le> mem_size \<Longrightarrow> d < 2 ^ 32" by (simp_all add: LOAD_ADDR_def mem_size_def)
  then show ?thesis by (simp add: parseJob_def assms job_of_def LOAD_ADDR_def not_less)
qed

text \<open>C30. The runner reads a job line back as it was meant: for a path without blanks and symbols that are
  not negative, \<open>parseJob\<close> of \<open>manifest_line\<close> gives the path, the load address, \<open>test_start\<close>,
  the memory range up to \<open>trap_dump\<close> and the step limit; and it rejects the line exactly when
  \<open>test_start\<close> or the limit does not fit its word, or \<open>trap_dump\<close> is outside the range from the load
  address to the end of the runner's memory.\<close>

theorem manifest_roundtrip:
  assumes "p \<noteq> []" and "plain p"
    and "syms ''test_start'' = Some (int e)" and "syms ''trap_dump'' = Some (int d)"
  shows "\<exists>line. manifest_line p syms n = Some line \<and>
     parseJob line = (if e < 2 ^ 32 \<and> LOAD_ADDR \<le> d \<and> d \<le> mem_size \<and> n < 2 ^ 64 then Some (job_of p e d n) else None)"
proof -
  let ?fs = "[p, hex_nat LOAD_ADDR, hex_nat e, hex_nat LOAD_ADDR, hex_nat d, dec_nat n]"
  have "tokens (join '' '' ?fs) = ?fs" using assms by (intro tokens_join) simp_all
  then have "parseJob (join '' '' ?fs) =
      (if e < 2 ^ 32 \<and> LOAD_ADDR \<le> d \<and> d \<le> mem_size \<and> n < 2 ^ 64 then Some (job_of p e d n) else None)"
    by (rule parseJob_tokens)
  moreover have "manifest_line p syms n = Some (join '' '' ?fs)"
    using assms by (simp add: manifest_line_def hex_int_def)
  ultimately show ?thesis by blast
qed

definition sample_syms :: syms where
  "sample_syms = [''test_start'' \<mapsto> 0x1000C, ''trap_dump'' \<mapsto> 0x10004]"

theorem manifest_roundtrip_witness:
  "\<exists>line. manifest_line ''a.bin'' sample_syms MAX_STEPS = Some line \<and> parseJob line = Some (job_of ''a.bin'' 0x1000C 0x10004 MAX_STEPS)"
  using manifest_roundtrip [of "''a.bin''" sample_syms "0x1000C" "0x10004" MAX_STEPS]
  by (simp add: sample_syms_def plain_def is_space_def LOAD_ADDR_def mem_size_def MAX_STEPS_def)

section \<open>The records\<close>

lemma hex8_no_comma: "CHR '','' \<notin> set (hex8 w)"
  using read_hex_field [OF read_hex_hex8] by blast

lemma those_map_Some: "(\<And>x. x \<in> set xs \<Longrightarrow> f x = Some (g x)) \<Longrightarrow> those (map f xs) = Some (map g xs)"
  by (induction xs) auto

lemma plain_regs: "plain (join '','' (map hex8 ws))"
proof -
  have "\<not> is_space c" if "c \<in> set (hex8 w)" for c w
    using that plain_hex8 [of w] by (simp add: plain_def list_all_iff)
  moreover have "\<not> is_space (CHR '','')" by (simp add: is_space_def)
  ultimately show ?thesis
    using set_join [of "'',''" "map hex8 ws"] by (auto simp: plain_def list_all_iff)
qed

definition clean :: "string \<times> string \<times> run_end \<Rightarrow> bool" where
  "clean x \<longleftrightarrow> (case x of (p, config, v) \<Rightarrow> plain p \<and> plain config \<and> plain (vm_status v) \<and> vm_regs v \<noteq> [])"

lemma parse_print:
  assumes "clean (p, config, v)"
  shows "parse_record (print_line p config v) = Some (p, config, record_of v)"
proof -
  have "split_char (CHR '' '') (print_line p config v) =
      [p, config, vm_status v, hex8 (vm_epc v), dec_nat (unat (cycle_count v)), hex8 (vm_pc v), hex8 (vm_x0 v),
       resv_text (vm_reservation v), join '','' (map hex8 (vm_regs v)), hex8 (vm_mscratch v),
       hexbytes (stateDigest v), hexbytes (vm_mem v)]"
    unfolding print_line_def using assms by (intro split_char_join) (simp_all add: clean_def plain_blank plain_regs)
  moreover have "those (map int_hex (split_char (CHR '','') (join '','' (map hex8 (vm_regs v))))) = Some (map (\<lambda>w. int (unat w)) (vm_regs v))"
    using assms split_char_join [of "map hex8 (vm_regs v)" "CHR '',''"] those_map_Some [of "vm_regs v" "\<lambda>w. int_hex (hex8 w)"]
    by (simp add: clean_def list_all_iff hex8_no_comma o_def)
  ultimately show ?thesis by (simp add: parse_record_def record_of_def fromhex_hexbytes)
qed

lemma join_plain:
  "list_all plain fs \<Longrightarrow> c \<in> set (join '' '' fs) \<Longrightarrow> is_space c \<Longrightarrow> c = CHR '' ''"
  using set_join [of "'' ''" fs] by (auto simp: list_all_iff dest: plainD)

lemma print_line_end:
  assumes "clean (p, config, v)"
  shows "list_all (\<lambda>c. \<not> line_end c) (print_line p config v)"
proof -
  have "is_space c \<Longrightarrow> c = CHR '' ''" if "c \<in> set (print_line p config v)" for c
    using that unfolding print_line_def by (rule join_plain [rotated]) (use assms in \<open>simp_all add: clean_def plain_regs\<close>)
  moreover have "\<not> line_end (CHR '' '')" by (simp add: line_end_def)
  ultimately show ?thesis by (auto simp: list_all_iff dest: line_end_space)
qed

definition printed :: "(string \<times> string \<times> run_end) list \<Rightarrow> string" where
  "printed xs = concat (map (\<lambda>(p, config, v). print_run p config v) xs)"

lemma splitlines_printed:
  "list_all clean xs \<Longrightarrow> splitlines (printed xs) = map (\<lambda>(p, config, v). print_line p config v) xs"
proof (induction xs)
  case (Cons x xs)
  obtain p config v where x: "x = (p, config, v)" by (cases x)
  with Cons have "list_all (\<lambda>c. \<not> line_end c) (print_line p config v)" by (simp add: print_line_end)
  from splitlines_newline [OF this, of "printed xs"] Cons x show ?case
    by (simp add: printed_def print_run_def nl_def)
qed (simp add: printed_def)

text \<open>The table after some records; the last record of a path and configuration counts.\<close>

definition put_record :: "string \<times> string \<times> run_end \<Rightarrow> results \<Rightarrow> results" where
  "put_record x res = (case x of (p, config, v) \<Rightarrow>
     res(p \<mapsto> (case res p of None \<Rightarrow> Map.empty | Some m \<Rightarrow> m)(config \<mapsto> record_of v)))"

definition lookup_record :: "results \<Rightarrow> string \<Rightarrow> string \<Rightarrow> det_rec option" where
  "lookup_record res p config = (case res p of None \<Rightarrow> None | Some m \<Rightarrow> m config)"

lemma add_records_printed:
  "list_all clean xs \<Longrightarrow> add_records (map (\<lambda>(p, config, v). print_line p config v) xs) res = Some (fold put_record xs res)"
  by (induction xs arbitrary: res) (auto simp: parse_print put_record_def split: prod.splits)

lemma lookup_put:
  "lookup_record (put_record (p, config, v) res) q c = (if q = p \<and> c = config then Some (record_of v) else lookup_record res q c)"
  by (auto simp: put_record_def lookup_record_def split: option.splits)

lemma lookup_fold:
  "lookup_record (fold put_record xs res) p c =
     (case map_of (rev (map (\<lambda>(p, config, v). ((p, config), record_of v)) xs)) (p, c) of
        None \<Rightarrow> lookup_record res p c | Some r \<Rightarrow> Some r)"
  by (induction xs arbitrary: res) (auto simp: lookup_put map_add_def split: option.splits)

text \<open>C15. The Python side reads the runner's output back exactly: when the runner succeeds and prints the
  final states of its runs (paths, configurations and statuses without blanks, registers printed),
  \<open>run_runner\<close> never raises, and its table has a record for a path and configuration
  exactly when one was printed, the last one, with every field's value.\<close>

theorem run_runner_reads:
  assumes "run [runner, manifest] = (0, printed xs, err)" and "list_all clean xs"
  shows "\<exists>res. run_runner run runner manifest = Some res \<and>
     (\<forall>p c. lookup_record res p c = map_of (rev (map (\<lambda>(p, config, v). ((p, config), record_of v)) xs)) (p, c))"
proof -
  have "run_runner run runner manifest = Some (fold put_record xs Map.empty)"
    using assms by (simp add: run_runner_def splitlines_printed add_records_printed)
  moreover have "lookup_record Map.empty p c = None" for p c by (simp add: lookup_record_def)
  ultimately show ?thesis by (simp add: lookup_fold split: option.split)
qed

definition sample_end :: run_end where
  "sample_end = \<lparr>vm_status = ''ebreak'', vm_epc = 0x1000C, cycle_count = 1, vm_pc = 0x10010, vm_x0 = 0,
     vm_reservation = None, vm_regs = replicate 31 0, vm_mscratch = 0, stateDigest = [1, 2], vm_mem = [0x73, 0, 0x10, 0]\<rparr>"

theorem run_runner_reads_witness:
  "\<exists>res. run_runner (\<lambda>_. (0, printed [(''a.bin'', ''cache'', sample_end)], [])) ''runner'' ''m.txt'' = Some res \<and>
     lookup_record res ''a.bin'' ''cache'' = Some (record_of sample_end) \<and> lookup_record res ''a.bin'' ''nocache'' = None"
proof -
  have "clean (''a.bin'', ''cache'', sample_end)" by (simp add: clean_def plain_def is_space_def sample_end_def)
  then obtain res where r: "run_runner (\<lambda>_. (0, printed [(''a.bin'', ''cache'', sample_end)], [])) ''runner'' ''m.txt'' = Some res"
      "\<forall>p c. lookup_record res p c = map_of [((''a.bin'', ''cache''), record_of sample_end)] (p, c)"
    using run_runner_reads [of "\<lambda>_. (0, printed [(''a.bin'', ''cache'', sample_end)], [])" "''runner''" "''m.txt''"
      "[(''a.bin'', ''cache'', sample_end)]" "[]"] by auto
  have "lookup_record res ''a.bin'' ''cache'' = Some (record_of sample_end)" "lookup_record res ''a.bin'' ''nocache'' = None"
    by (simp_all add: r(2))
  with r(1) show ?thesis by blast
qed

end
