(* ===== verification/Trace.thy ===== *)
theory Trace
  imports Protocol
begin

text \<open>
  \<^verbatim>\<open>tools/spike_diff/trace.py\<close>: reading Spike's commit log (\<open>spike_trace\<close>) and the runner's step trace
  (\<open>det_trace\<close>), and aligning the two to find the first step at which the machines differ; with what
  \<open>traceJob\<close> of \<^verbatim>\<open>tools/spike_diff/runner.zig\<close> prints. Spike and the runner are parameters; \<open>None\<close> is a raised
  exception.
\<close>

section \<open>Steps\<close>

text \<open>A dict is an association list in insertion order.\<close>

record tstep =
  t_pc :: int
  t_raw :: int
  t_regs :: "(int \<times> int) list"
  t_csrs :: "(string \<times> int) list"
  t_mem :: "(int \<times> int) list"
  t_resv :: "string option"

datatype spike_ev = Trap string | SStep tstep
datatype det_ev = End string int | DStep tstep

section \<open>Spike's log\<close>

text \<open>The patterns \<open>COMMIT\<close> and \<open>DISASM\<close>: address, word, and the rest of the line.\<close>

definition after_core :: "string \<Rightarrow> string \<Rightarrow> string option" where
  "after_core sep line =
     (let r = drop 4 line; r1 = dropWhile is_space r in
      if startswith line ''core'' \<and> length r1 < length r \<and> startswith r1 sep then Some (drop (length sep) r1) else None)"

definition log_match :: "string \<Rightarrow> string \<Rightarrow> string \<Rightarrow> (nat \<times> nat \<times> string) option" where
  "log_match before after line = do {
     r \<leftarrow> after_core before line;
     (pc, r) \<leftarrow> hex_then '' (0x'' r;
     (raw, r) \<leftarrow> hex_then after r;
     Some (pc, raw, r) }"

definition COMMIT :: "string \<Rightarrow> (nat \<times> nat \<times> string) option" where
  "COMMIT = log_match ''0: 3 0x'' '')''"

definition DISASM :: "string \<Rightarrow> (nat \<times> nat \<times> string) option" where
  "DISASM = log_match ''0: 0x'' '') ''"

text \<open>\<open>re.fullmatch(r"x\d+", t)\<close> and \<open>re.fullmatch(r"c[0-9a-f]+_\w+", t)\<close>, the latter with the name.\<close>

definition xreg :: "string \<Rightarrow> bool" where
  "xreg t \<longleftrightarrow> startswith t ''x'' \<and> length t > 1 \<and> list_all is_digit (tl t)"

definition csr_tok :: "string \<Rightarrow> string option" where
  "csr_tok t =
     (let n = takeWhile is_hex (tl t); r = drop (Suc (length n)) t in
      if startswith t ''c'' \<and> n \<noteq> [] \<and> startswith r ''_'' \<and> length r > 1 \<and> list_all is_word (tl r) then Some (tl r) else None)"

text \<open>The loop over the tokens of a commit line; reading past the last one raises.\<close>

function parse_toks :: "string list \<Rightarrow> tstep \<Rightarrow> tstep option" where
  "parse_toks ws s =
     (case ws of
        [] \<Rightarrow> Some s
      | t # ts \<Rightarrow>
          if xreg t then
            (case ts of [] \<Rightarrow> None
             | v # ts' \<Rightarrow> do { r \<leftarrow> int_dec (tl t); x \<leftarrow> int_hex v; parse_toks ts' (s\<lparr>t_regs := dict_set r x (t_regs s)\<rparr>) })
          else if t = ''mem'' then
            (case ts of
               a # v # ts' \<Rightarrow>
                 if startswith v ''0x'' \<and> \<not> xreg v
                 then do { a \<leftarrow> int_hex a; x \<leftarrow> int_hex v; parse_toks ts' (s\<lparr>t_mem := t_mem s @ [(a, x)]\<rparr>) }
                 else parse_toks (v # ts') s
             | _ \<Rightarrow> parse_toks (drop 1 ts) s)
          else
            (case csr_tok t of
               None \<Rightarrow> parse_toks ts s
             | Some name \<Rightarrow>
                 (case ts of [] \<Rightarrow> None
                  | v # ts' \<Rightarrow> do { x \<leftarrow> int_hex v; parse_toks ts' (s\<lparr>t_csrs := dict_set name x (t_csrs s)\<rparr>) })))"
  by pat_completeness auto
termination
  by (relation "measure (\<lambda>(ws, s). length ws)") auto

declare parse_toks.simps [simp del]

definition step0 :: "int \<Rightarrow> int \<Rightarrow> tstep" where
  "step0 pc raw = \<lparr>t_pc = pc, t_raw = raw, t_regs = [], t_csrs = [], t_mem = [], t_resv = None\<rparr>"

type_synonym disasm = "int \<rightharpoonup> string"

fun spike_lines :: "int \<Rightarrow> int \<Rightarrow> bool \<Rightarrow> string list \<Rightarrow> disasm \<Rightarrow> (spike_ev list \<times> disasm) option" where
  "spike_lines start stop on [] dis = Some ([], dis)"
| "spike_lines start stop on (line # ls) dis =
     (case DISASM line of
        Some (pc, _, text) \<Rightarrow> spike_lines start stop on ls (dis(int pc \<mapsto> strip text))
      | None \<Rightarrow>
          if find_sub line ''exception'' \<noteq> None \<and> on then Some ([Trap (strip line)], dis)
          else
            (case COMMIT line of
               None \<Rightarrow> spike_lines start stop on ls dis
             | Some (pc, raw, rest) \<Rightarrow>
                 (let on' = (on \<or> int pc = start) in
                  if \<not> on' then spike_lines start stop on' ls dis
                  else if int pc = stop then Some ([], dis)
                  else do {
                    s \<leftarrow> parse_toks (split_ws rest) (step0 (int pc) (int raw));
                    (ss, dis) \<leftarrow> spike_lines start stop on' ls dis;
                    Some (SStep s # ss, dis) })))"

text \<open>Spike's error output, if it ends in time.\<close>

definition spike_trace :: "(string list \<Rightarrow> string option) \<Rightarrow> string \<Rightarrow> string \<Rightarrow> int \<Rightarrow> int \<Rightarrow> (spike_ev list \<times> disasm) option" where
  "spike_trace run spike elf start stop = do {
     err \<leftarrow> run [spike, ''--isa='' @ ISA_SPIKE, ''-m'' @ SPIKE_MEM, ''-l'', ''--log-commits'', elf];
     spike_lines start stop False (splitlines err) Map.empty }"

section \<open>The runner's trace\<close>

text \<open>\<open>k, v = t.split("=")\<close>\<close>

definition det_tok :: "string \<Rightarrow> tstep \<Rightarrow> tstep option" where
  "det_tok t s =
     (case split_char (CHR ''='') t of
        [k, v] \<Rightarrow>
          if startswith k ''x'' then do { r \<leftarrow> int_dec (tl k); x \<leftarrow> int_hex v; Some (s\<lparr>t_regs := dict_set r x (t_regs s)\<rparr>) }
          else if k = ''mscratch'' then do { x \<leftarrow> int_hex v; Some (s\<lparr>t_csrs := dict_set ''mscratch'' x (t_csrs s)\<rparr>) }
          else if startswith k ''mem['' then do {
            a \<leftarrow> int_hex (butlast (drop 4 k)); x \<leftarrow> int_hex v; Some (s\<lparr>t_mem := t_mem s @ [(a, x)]\<rparr>) }
          else if k = ''resv'' then Some (s\<lparr>t_resv := Some v\<rparr>)
          else Some s
      | _ \<Rightarrow> None)"

fun det_toks :: "string list \<Rightarrow> tstep \<Rightarrow> tstep option" where
  "det_toks [] s = Some s"
| "det_toks (t # ts) s = Option.bind (det_tok t s) (det_toks ts)"

fun det_lines :: "string list \<Rightarrow> det_ev list option" where
  "det_lines [] = Some []"
| "det_lines (line # ls) =
     (case split_ws line of
        [] \<Rightarrow> None
      | p0 # ps \<Rightarrow>
          if p0 = ''end'' then
            (case ps of st # pc # _ \<Rightarrow> map_option (\<lambda>pc. [End st pc]) (int_hex pc) | _ \<Rightarrow> None)
          else
            (case ps of
               [] \<Rightarrow> None
             | p1 # ts \<Rightarrow> do {
                 pc \<leftarrow> int_hex p0;
                 raw \<leftarrow> int_hex p1;
                 s \<leftarrow> det_toks ts (step0 pc raw);
                 ss \<leftarrow> det_lines ls;
                 Some (DStep s # ss) }))"

text \<open>\<open>fail\<close> (with its message) or an exception.\<close>

datatype trace_error = RunnerFailed string | Raised_exception

definition det_trace :: "proc \<Rightarrow> string \<Rightarrow> string \<Rightarrow> int \<Rightarrow> trace_error + det_ev list" where
  "det_trace run runner binf start =
     (case run [runner, ''--trace'', binf, hex_nat LOAD_ADDR, hex_int start, dec_nat MAX_STEPS] of
        (rc, out, err) \<Rightarrow>
          if rc \<noteq> 0 then Inl (RunnerFailed (drop (length err - 2000) err))
          else (case det_lines (splitlines out) of None \<Rightarrow> Inl Raised_exception | Some ss \<Rightarrow> Inr ss))"

section \<open>Alignment\<close>

text \<open>Determinant's registers as far as the trace shows them; an index outside a list of 32 raises.\<close>

type_synonym dregs = "int option list"

definition reg_at :: "dregs \<Rightarrow> int \<Rightarrow> int option option" where
  "reg_at f r = (if - 32 \<le> r \<and> r < 32 then Some (f ! nat (r mod 32)) else None)"

fun write_regs :: "(int \<times> int) list \<Rightarrow> dregs \<Rightarrow> dregs option" where
  "write_regs [] f = Some f"
| "write_regs ((r, v) # rs) f = (if - 32 \<le> r \<and> r < 32 then write_regs rs (f[nat (r mod 32) := Some v]) else None)"

definition is_ctr :: "disasm \<Rightarrow> tstep \<Rightarrow> bool" where
  "is_ctr dis s \<longleftrightarrow> search_words [''cycle'', ''instret''] (case dis (t_pc s) of None \<Rightarrow> [] | Some t \<Rightarrow> t)"

definition reg_problem :: "int \<Rightarrow> int \<Rightarrow> int \<Rightarrow> string" where
  "reg_problem r v w = ''x'' @ dec_int r @ '' spike='' @ hash_010x v @ '' det='' @ hash_010x w"

definition check_reg :: "bool \<Rightarrow> dregs \<Rightarrow> int \<Rightarrow> int \<Rightarrow> int option \<Rightarrow> (string list \<times> int option) option" where
  "check_reg ctr f r v off =
     (if r = 0 then Some ([], off)
      else case reg_at f r of
        None \<Rightarrow> None
      | Some None \<Rightarrow> Some ([], off)
      | Some (Some w) \<Rightarrow>
          if w = v then Some ([], off)
          else
            (let o1 = (v - w) mod 2 ^ 32; off' = (if ctr \<and> off = None then Some o1 else off) in
             if ctr \<and> off' = Some o1 then Some ([], off') else Some ([reg_problem r v w], off')))"

fun check_regs :: "bool \<Rightarrow> dregs \<Rightarrow> (int \<times> int) list \<Rightarrow> int option \<Rightarrow> (string list \<times> int option) option" where
  "check_regs ctr f [] off = Some ([], off)"
| "check_regs ctr f ((r, v) # rs) off = do {
     (ps, off) \<leftarrow> check_reg ctr f r v off;
     (qs, off) \<leftarrow> check_regs ctr f rs off;
     Some (ps @ qs, off) }"

definition pc_problems :: "tstep \<Rightarrow> tstep \<Rightarrow> string list" where
  "pc_problems s d = (if t_pc s \<noteq> t_pc d then [''pc spike='' @ hash_x (t_pc s) @ '' det='' @ hash_x (t_pc d)] else [])"

definition mscratch_problems :: "tstep \<Rightarrow> tstep \<Rightarrow> string list" where
  "mscratch_problems s d =
     (case (map_of (t_csrs s) ''mscratch'', map_of (t_csrs d) ''mscratch'') of
        (Some a, Some b) \<Rightarrow> if a \<noteq> b then [''mscratch spike='' @ hash_x a @ '' det='' @ hash_x b] else []
      | _ \<Rightarrow> [])"

definition check_step :: "disasm \<Rightarrow> dregs \<Rightarrow> int option \<Rightarrow> tstep \<Rightarrow> tstep \<Rightarrow> (string list \<times> int option) option" where
  "check_step dis f off s d =
     map_option (\<lambda>(ps, off). (pc_problems s d @ ps @ mscratch_problems s d, off)) (check_regs (is_ctr dis s) f (t_regs s) off)"

datatype alignment = Diverged nat "string list" | Stopped_at nat spike_ev det_ev | NoDivergence

fun align :: "disasm \<Rightarrow> nat \<Rightarrow> dregs \<Rightarrow> int option \<Rightarrow> (spike_ev \<times> det_ev) list \<Rightarrow> alignment option" where
  "align dis n f off [] = Some NoDivergence"
| "align dis n f off ((SStep s, DStep d) # zs) = do {
     f \<leftarrow> write_regs (t_regs d) f;
     (ps, off) \<leftarrow> check_step dis f off s d;
     if ps \<noteq> [] then Some (Diverged n ps) else align dis (Suc n) f off zs }"
| "align dis n f off ((s, d) # zs) = Some (Stopped_at n s d)"

definition no_regs :: dregs where "no_regs = replicate 32 None"

definition trace_exit :: "alignment \<Rightarrow> nat" where
  "trace_exit a = (case a of Diverged _ _ \<Rightarrow> 1 | _ \<Rightarrow> 0)"

text \<open>The steps shown at a divergence, \<open>range(max(0, n - context), n + 1)\<close> of both traces, with Spike's disassembly. Only a step
  can be shown: a trap or the end of the run has no registers, and raises.\<close>

definition shown_step :: "spike_ev list \<Rightarrow> det_ev list \<Rightarrow> disasm \<Rightarrow> nat \<Rightarrow> (nat \<times> tstep \<times> string \<times> tstep) option" where
  "shown_step sp dt dis k =
     (if k < length sp \<and> k < length dt then
        (case (sp ! k, dt ! k) of
           (SStep s, DStep d) \<Rightarrow> Some (k, s, (case dis (t_pc s) of None \<Rightarrow> [] | Some t \<Rightarrow> t), d)
         | _ \<Rightarrow> None)
      else None)"

definition context_of :: "int \<Rightarrow> nat \<Rightarrow> spike_ev list \<Rightarrow> det_ev list \<Rightarrow> disasm \<Rightarrow> (nat \<times> tstep \<times> string \<times> tstep) list option" where
  "context_of ctx n sp dt dis = those (map (shown_step sp dt dis) [nat (max 0 (int n - ctx))..<Suc n])"

text \<open>The script behind \<open>setup\<close>: the symbols, both traces, the alignment, the steps shown, the exit status.\<close>

definition trace_main :: "proc \<Rightarrow> (string list \<Rightarrow> string option) \<Rightarrow> string \<Rightarrow> string \<Rightarrow> string \<Rightarrow> string \<Rightarrow> int
    \<Rightarrow> (alignment \<times> (nat \<times> tstep \<times> string \<times> tstep) list \<times> nat) option" where
  "trace_main run spike_run cross spike runner elf ctx =
     (case symbols run cross elf of
        Built syms \<Rightarrow> do {
          start \<leftarrow> syms ''test_start'';
          stop \<leftarrow> syms ''trap_handler'';
          (sp, dis) \<leftarrow> spike_trace spike_run spike elf start stop;
          dt \<leftarrow> (case det_trace run runner (chop 4 elf @ ''.bin'') start of Inl _ \<Rightarrow> None | Inr dt \<Rightarrow> Some dt);
          a \<leftarrow> align dis 0 no_regs None (zip sp dt);
          cs \<leftarrow> (case a of Diverged n _ \<Rightarrow> context_of ctx n sp dt dis | _ \<Rightarrow> Some []);
          Some (a, cs, trace_exit a) }
      | _ \<Rightarrow> None)"

section \<open>What the alignment finds\<close>

text \<open>
  The specification of a step: the same address, every register Spike writes (and the trace has shown) has
  Determinant's value, and so has mscratch. Values read from a counter may differ by \<open>c\<close>, one constant for the whole run.
\<close>

definition reg_ok :: "bool \<Rightarrow> int \<Rightarrow> dregs \<Rightarrow> int \<times> int \<Rightarrow> bool" where
  "reg_ok ctr c f rv =
     (case rv of (r, v) \<Rightarrow> r = 0 \<or> (case f ! nat r of None \<Rightarrow> True | Some w \<Rightarrow> v = w \<or> ctr \<and> (v - w) mod 2 ^ 32 = c))"

definition step_ok :: "disasm \<Rightarrow> int \<Rightarrow> dregs \<times> tstep \<times> tstep \<Rightarrow> bool" where
  "step_ok dis c x =
     (case x of (f, s, d) \<Rightarrow> t_pc s = t_pc d \<and> list_all (reg_ok (is_ctr dis s) c f) (t_regs s) \<and> mscratch_problems s d = [])"

text \<open>The steps both machines made, each with the registers Determinant's trace has shown by its end.\<close>

fun paired :: "dregs \<Rightarrow> (spike_ev \<times> det_ev) list \<Rightarrow> (dregs \<times> tstep \<times> tstep) list" where
  "paired f ((SStep s, DStep d) # zs) = (let f' = the (write_regs (t_regs d) f) in (f', s, d) # paired f' zs)"
| "paired f _ = []"

text \<open>Registers are x0 to x31.\<close>

fun in_range :: "spike_ev \<times> det_ev \<Rightarrow> bool" where
  "in_range (SStep s, DStep d) \<longleftrightarrow>
     list_all (\<lambda>(r, _). 0 \<le> r \<and> r < 32) (t_regs s) \<and> list_all (\<lambda>(r, _). 0 \<le> r \<and> r < 32) (t_regs d)"
| "in_range _ \<longleftrightarrow> True"

definition fits :: "int option \<Rightarrow> int \<Rightarrow> bool" where
  "fits off c \<longleftrightarrow> off = None \<or> off = Some c"

lemma write_regs_total:
  "list_all (\<lambda>(r, _). 0 \<le> r \<and> r < 32) rs \<Longrightarrow> \<exists>f'. write_regs rs f = Some f'"
  by (induction rs f rule: write_regs.induct) auto

lemma check_reg_iff:
  assumes "0 \<le> r" "r < 32"
  shows "\<exists>ps off'. check_reg ctr f r v off = Some (ps, off') \<and> (\<forall>c. fits off c \<and> reg_ok ctr c f (r, v) \<longleftrightarrow> ps = [] \<and> fits off' c)"
proof -
  have r: "reg_at f r = Some (f ! nat r)" using assms by (simp add: reg_at_def)
  show ?thesis
  proof (cases "r = 0 \<or> f ! nat r = None \<or> f ! nat r = Some v")
    case True
    then show ?thesis using r by (auto simp: check_reg_def reg_ok_def)
  next
    case False
    then obtain w where w: "f ! nat r = Some w" "w \<noteq> v" "r \<noteq> 0" by (cases "f ! nat r") auto
    let ?o = "(v - w) mod 2 ^ 32"
    have k: "reg_ok ctr c f (r, v) \<longleftrightarrow> ctr \<and> ?o = c" for c using w by (auto simp: reg_ok_def)
    show ?thesis
    proof (cases "ctr \<and> (off = None \<or> off = Some ?o)")
      case True
      then have e: "check_reg ctr f r v off = Some ([], Some ?o)" using w r by (auto simp: check_reg_def Let_def)
      show ?thesis unfolding e k using True by (auto simp: fits_def)
    next
      case bad: False
      have no: "\<not> (fits off c \<and> reg_ok ctr c f (r, v))" for c using bad k by (auto simp: fits_def)
      have "\<exists>off'. check_reg ctr f r v off = Some ([reg_problem r v w], off')"
        using bad w r by (auto simp: check_reg_def Let_def)
      then show ?thesis using no by auto
    qed
  qed
qed

lemma check_regs_iff:
  "list_all (\<lambda>(r, _). 0 \<le> r \<and> r < 32) rs \<Longrightarrow>
   \<exists>ps off'. check_regs ctr f rs off = Some (ps, off')
     \<and> (\<forall>c. fits off c \<and> list_all (reg_ok ctr c f) rs \<longleftrightarrow> ps = [] \<and> fits off' c)"
proof (induction rs arbitrary: off)
  case (Cons rv rs)
  obtain r v where rv: "rv = (r, v)" by (cases rv)
  obtain ps o1 where a: "check_reg ctr f r v off = Some (ps, o1)" "\<And>c. fits off c \<and> reg_ok ctr c f (r, v) \<longleftrightarrow> ps = [] \<and> fits o1 c"
    using check_reg_iff [of r ctr f v off] Cons.prems rv by auto
  obtain qs o2 where b: "check_regs ctr f rs o1 = Some (qs, o2)" "\<And>c. fits o1 c \<and> list_all (reg_ok ctr c f) rs \<longleftrightarrow> qs = [] \<and> fits o2 c"
    using Cons.IH [of o1] Cons.prems rv by auto
  have "fits off c \<and> list_all (reg_ok ctr c f) (rv # rs) \<longleftrightarrow> ps @ qs = [] \<and> fits o2 c" for c
    using a(2) [of c] b(2) [of c] rv by auto
  then show ?case using a(1) b(1) rv by auto
qed simp

lemma check_step_iff:
  assumes "in_range (SStep s, DStep d)"
  shows "\<exists>ps off'. check_step dis f off s d = Some (ps, off') \<and> (\<forall>c. fits off c \<and> step_ok dis c (f, s, d) \<longleftrightarrow> ps = [] \<and> fits off' c)"
proof -
  obtain ps off' where "check_regs (is_ctr dis s) f (t_regs s) off = Some (ps, off')"
    "\<And>c. fits off c \<and> list_all (reg_ok (is_ctr dis s) c f) (t_regs s) \<longleftrightarrow> ps = [] \<and> fits off' c"
    using check_regs_iff [of "t_regs s" "is_ctr dis s" f off] assms by auto
  then show ?thesis by (auto simp: check_step_def step_ok_def pc_problems_def)
qed

definition explained :: "disasm \<Rightarrow> int option \<Rightarrow> (dregs \<times> tstep \<times> tstep) list \<Rightarrow> bool" where
  "explained dis off xs \<longleftrightarrow> (\<exists>c. fits off c \<and> list_all (step_ok dis c) xs)"

text \<open>The outcome by the longest explained part.\<close>

fun outcome_ok :: "disasm \<Rightarrow> int option \<Rightarrow> nat \<Rightarrow> (dregs \<times> tstep \<times> tstep) list \<Rightarrow> alignment \<Rightarrow> bool" where
  "outcome_ok dis off n xs (Diverged m ps) \<longleftrightarrow>
     n \<le> m \<and> m - n < length xs \<and> explained dis off (take (m - n) xs) \<and> \<not> explained dis off (take (Suc (m - n)) xs)"
| "outcome_ok dis off n xs (Stopped_at m s d) \<longleftrightarrow> m = n + length xs \<and> explained dis off xs"
| "outcome_ok dis off n xs NoDivergence \<longleftrightarrow> explained dis off xs"

lemma explained_Cons:
  assumes "\<And>c. fits off c \<and> step_ok dis c x \<longleftrightarrow> fits off' c"
  shows "explained dis off (x # xs) \<longleftrightarrow> explained dis off' xs"
  using assms by (auto simp: explained_def)

lemma explained_Nil [simp]: "explained dis off []"
  by (cases off) (auto simp: explained_def fits_def)

lemma align_outcome:
  "list_all in_range zs \<Longrightarrow> \<exists>a. align dis n f off zs = Some a \<and> outcome_ok dis off n (paired f zs) a"
proof (induction dis n f off zs rule: align.induct)
  case (2 dis n f off s d zs)
  obtain f' where f': "write_regs (t_regs d) f = Some f'" using write_regs_total 2(2) by fastforce
  obtain ps off' where c: "check_step dis f' off s d = Some (ps, off')"
    "\<And>c. fits off c \<and> step_ok dis c (f', s, d) \<longleftrightarrow> ps = [] \<and> fits off' c"
    using check_step_iff [of s d dis f' off] 2(2) by auto
  show ?case
  proof (cases "ps = []")
    case True
    have ex: "explained dis off ((f', s, d) # xs) \<longleftrightarrow> explained dis off' xs" for xs
      using c(2) True by (intro explained_Cons) simp
    obtain a where a: "align dis (Suc n) f' off' zs = Some a" "outcome_ok dis off' (Suc n) (paired f' zs) a"
      using 2(1) [OF f' c(1) refl] True 2(2) by auto
    have "outcome_ok dis off n ((f', s, d) # paired f' zs) a"
    proof (cases a)
      case (Diverged m qs)
      then obtain k where k: "m = Suc (n + k)" using a(2) by (auto simp: le_iff_add)
      show ?thesis using a(2) unfolding Diverged k by (simp add: Suc_diff_le ex)
    next
      case (Stopped_at m u v)
      then show ?thesis using a(2) by (auto simp: ex)
    qed (use a(2) in \<open>simp add: ex\<close>)
    then show ?thesis using f' c(1) True a(1) by simp
  next
    case False
    then have "\<not> explained dis off [(f', s, d)]" using c(2) by (auto simp: explained_def)
    then show ?thesis using f' c(1) False by simp
  qed
qed simp_all


text \<open>A run with a counter read: Spike's counter is 8 ahead at both reads, then x6 differs.\<close>

definition sample_pair :: "int \<Rightarrow> (int \<times> int) list \<Rightarrow> (int \<times> int) list \<Rightarrow> spike_ev \<times> det_ev" where
  "sample_pair pc a b = (SStep (step0 pc 0\<lparr>t_regs := a\<rparr>), DStep (step0 pc 0\<lparr>t_regs := b\<rparr>))"

definition sample_dis :: disasm where "sample_dis = [4 \<mapsto> ''csrr a0, cycle'']"


section \<open>What is shown\<close>

lemma align_steps:
  "align dis m f off zs = Some (Diverged n ps) \<Longrightarrow> m \<le> n \<and> n - m < length zs \<and> (\<forall>k \<le> n - m. \<exists>s d. zs ! k = (SStep s, DStep d))"
proof (induction dis m f off zs rule: align.induct)
  case (2 dis m f off s d zs)
  obtain f' ps' off' where st: "write_regs (t_regs d) f = Some f'" "check_step dis f' off s d = Some (ps', off')"
    using 2(2) by (auto simp: bind_eq_Some_conv)
  show ?case
  proof (cases "ps' = []")
    case True
    then have "align dis (Suc m) f' off' zs = Some (Diverged n ps)" using 2(2) st by simp
    with 2(1) [OF st(1) st(2) refl] True
    have IH: "Suc m \<le> n" "n - Suc m < length zs" "\<And>k. k \<le> n - Suc m \<Longrightarrow> \<exists>s d. zs ! k = (SStep s, DStep d)" by auto
    have "\<exists>s' d'. ((SStep s, DStep d) # zs) ! k = (SStep s', DStep d')" if "k \<le> n - m" for k
      using that IH(1,3) by (cases k) auto
    then show ?thesis using IH(1,2) by auto
  next
    case False
    then show ?thesis using 2(2) st by simp
  qed
qed simp_all

text \<open>A divergence is always shown: when the alignment finds one at step \<open>n\<close>, printing its context never raises, whatever the
  number of steps asked for, and shows the steps from \<open>max(0, n - context)\<close> to \<open>n\<close>, with what both machines did in them.\<close>

theorem divergence_shown:
  assumes "align dis 0 no_regs None (zip sp dt) = Some (Diverged n ps)"
  shows "\<exists>cs. context_of ctx n sp dt dis = Some cs \<and> map fst cs = [nat (max 0 (int n - ctx))..<Suc n]
    \<and> list_all (\<lambda>(k, s, t, d). sp ! k = SStep s \<and> dt ! k = DStep d) cs"
proof -
  let ?ks = "[nat (max 0 (int n - ctx))..<Suc n]"
  have n: "n < length sp" "n < length dt" "\<And>k. k \<le> n \<Longrightarrow> \<exists>s d. zip sp dt ! k = (SStep s, DStep d)"
    using align_steps [OF assms] by auto
  have "\<forall>k. \<exists>x. k \<le> n \<longrightarrow> shown_step sp dt dis k = Some (k, x) \<and> sp ! k = SStep (fst x) \<and> dt ! k = DStep (snd (snd x))"
  proof
    fix k
    show "\<exists>x. k \<le> n \<longrightarrow> shown_step sp dt dis k = Some (k, x) \<and> sp ! k = SStep (fst x) \<and> dt ! k = DStep (snd (snd x))"
    proof (cases "k \<le> n")
      case True
      then obtain s d where "zip sp dt ! k = (SStep s, DStep d)" using n(3) by blast
      then have "sp ! k = SStep s" "dt ! k = DStep d" using True n(1,2) by simp_all
      then show ?thesis using True n(1,2) by (simp add: shown_step_def)
    qed simp
  qed
  from choice [OF this] obtain g where
    g: "\<And>k. k \<le> n \<Longrightarrow> shown_step sp dt dis k = Some (k, g k) \<and> sp ! k = SStep (fst (g k)) \<and> dt ! k = DStep (snd (snd (g k)))" by blast
  have "context_of ctx n sp dt dis = Some (map (\<lambda>k. (k, g k)) ?ks)"
    unfolding context_of_def by (rule those_map_Some) (use g in \<open>auto simp del: upt_Suc\<close>)
  moreover have "list_all (\<lambda>(k, s, t, d). sp ! k = SStep s \<and> dt ! k = DStep d) (map (\<lambda>k. (k, g k)) ?ks)"
    using g by (auto simp: list_all_iff case_prod_beta)
  moreover have "map fst (map (\<lambda>k. (k, g k)) ?ks) = ?ks" by (simp add: comp_def)
  ultimately show ?thesis by blast
qed

theorem divergence_shown_witness:
  "\<exists>cs. context_of 1 2 [fst (sample_pair 4 [] []), fst (sample_pair 6 [] []), fst (sample_pair 8 [(6, 1)] [(6, 2)])]
      [snd (sample_pair 4 [] []), snd (sample_pair 6 [] []), snd (sample_pair 8 [(6, 1)] [(6, 2)])] sample_dis = Some cs \<and> map fst cs = [1, 2]"
proof -
  let ?sp = "[fst (sample_pair 4 [] []), fst (sample_pair 6 [] []), fst (sample_pair 8 [(6, 1)] [(6, 2)])]"
  let ?dt = "[snd (sample_pair 4 [] []), snd (sample_pair 6 [] []), snd (sample_pair 8 [(6, 1)] [(6, 2)])]"
  have "align sample_dis 0 no_regs None (zip ?sp ?dt) = Some (Diverged 2 [''x6 spike=0x00000001 det=0x00000002''])" by code_simp
  from divergence_shown [OF this, of 1] show ?thesis by (auto simp: upt_rec)
qed

section \<open>What the runner prints\<close>

text \<open>
  The state of the VM as far as \<open>traceJob\<close> prints it; \<open>v_word a\<close> is the word of its memory at the aligned
  address \<open>a\<close>. A line has the address and the word of the instruction and what it changed.
\<close>

record vm =
  v_pc :: "32 word"
  v_regs :: "32 word list"
  v_mscratch :: "32 word"
  v_word :: "nat \<Rightarrow> 32 word"
  v_resv :: "32 word option"

definition changed_regs :: "vm \<Rightarrow> vm \<Rightarrow> nat list" where
  "changed_regs old new = filter (\<lambda>i. v_regs new ! i \<noteq> v_regs old ! i) [1..<32]"

definition changed_words :: "vm \<Rightarrow> vm \<Rightarrow> nat list" where
  "changed_words old new = filter (\<lambda>a. v_word new a \<noteq> v_word old a) (map ((*) 4) [0..<mem_size div 4])"

definition tok :: "string \<Rightarrow> string \<Rightarrow> string" where
  "tok k v = k @ CHR ''='' # v"

definition reg_name :: "nat \<Rightarrow> string" where
  "reg_name i = ''x'' @ dec_nat i"

definition mem_name :: "nat \<Rightarrow> string" where
  "mem_name a = ''mem['' @ hex8 (word_of_nat a) @ '']''"

definition trace_fields :: "vm \<Rightarrow> 32 word \<Rightarrow> vm \<Rightarrow> string list" where
  "trace_fields old raw new =
     [hex8 (v_pc old), hex8 raw]
     @ map (\<lambda>i. tok (reg_name i) (hex8 (v_regs new ! i))) (changed_regs old new)
     @ (if v_mscratch new \<noteq> v_mscratch old then [tok ''mscratch'' (hex8 (v_mscratch new))] else [])
     @ map (\<lambda>a. tok (mem_name a) (hex8 (v_word new a))) (changed_words old new)
     @ (if v_resv new \<noteq> v_resv old then [tok ''resv'' (resv_text (v_resv new))] else [])"

fun trace_lines :: "vm \<Rightarrow> (32 word \<times> vm) list \<Rightarrow> string \<Rightarrow> string list" where
  "trace_lines old [] st = [join '' '' [''end'', st, hex8 (v_pc old)]]"
| "trace_lines old ((raw, new) # steps) st = join '' '' (trace_fields old raw new) # trace_lines new steps st"

text \<open>The steps the script is to make of it.\<close>

definition uval :: "32 word \<Rightarrow> int" where
  "uval w = int (unat w)"

definition step_of :: "vm \<Rightarrow> 32 word \<Rightarrow> vm \<Rightarrow> tstep" where
  "step_of old raw new = \<lparr>t_pc = uval (v_pc old), t_raw = uval raw,
     t_regs = map (\<lambda>i. (int i, uval (v_regs new ! i))) (changed_regs old new),
     t_csrs = (if v_mscratch new \<noteq> v_mscratch old then [(''mscratch'', uval (v_mscratch new))] else []),
     t_mem = map (\<lambda>a. (int a, uval (v_word new a))) (changed_words old new),
     t_resv = (if v_resv new \<noteq> v_resv old then Some (resv_text (v_resv new)) else None)\<rparr>"

fun steps_of :: "vm \<Rightarrow> (32 word \<times> vm) list \<Rightarrow> string \<Rightarrow> det_ev list" where
  "steps_of old [] st = [End st (uval (v_pc old))]"
| "steps_of old ((raw, new) # steps) st = DStep (step_of old raw new) # steps_of new steps st"

lemma hex8_no_eq [simp]: "CHR ''='' \<notin> set (hex8 w)"
proof
  assume "CHR ''='' \<in> set (hex8 w)"
  then obtain d where "hex_undig (CHR ''='') = Some d" using read_hex_chars [OF read_hex_hex8] by blast
  then show False by (simp add: hex_undig_def)
qed

lemma dec_nat_no_eq [simp]: "CHR ''='' \<notin> set (dec_nat n)"
proof
  assume "CHR ''='' \<in> set (dec_nat n)"
  then obtain d where "dec_undig (CHR ''='') = Some d" using read_dec_chars [OF read_dec_dec_nat] by blast
  then show False by (simp add: dec_undig_def)
qed

lemma resv_no_eq [simp]: "CHR ''='' \<notin> set (resv_text r)"
  by (cases r) (simp_all add: resv_text_def)

lemma split_tok: "CHR ''='' \<notin> set k \<Longrightarrow> CHR ''='' \<notin> set v \<Longrightarrow> split_char (CHR ''='') (tok k v) = [k, v]"
  by (simp add: tok_def split_char_append split_char_field)

lemma int_hex_uval [simp]: "int_hex (hex8 w) = Some (uval w)"
  by (simp only: uval_def int_hex_hex8)

lemma dict_set_new: "k \<notin> fst ` set d \<Longrightarrow> dict_set k v d = d @ [(k, v)]"
  by (induction k v d rule: dict_set.induct) auto

lemma det_tok_reg: "det_tok (tok (reg_name i) (hex8 w)) s = Some (s\<lparr>t_regs := dict_set (int i) (uval w) (t_regs s)\<rparr>)"
  unfolding det_tok_def by (subst split_tok) (simp_all add: reg_name_def del: int_hex_hex8)

lemma det_tok_mscratch: "det_tok (tok ''mscratch'' (hex8 w)) s = Some (s\<lparr>t_csrs := dict_set ''mscratch'' (uval w) (t_csrs s)\<rparr>)"
  unfolding det_tok_def by (subst split_tok) (simp_all del: int_hex_hex8)

lemma det_tok_mem:
  assumes "a < 2 ^ 32"
  shows "det_tok (tok (mem_name a) (hex8 w)) s = Some (s\<lparr>t_mem := t_mem s @ [(int a, uval w)]\<rparr>)"
proof -
  have "uval (word_of_nat a) = int a" using assms by (simp add: uval_def unat_of_nat)
  then show ?thesis unfolding det_tok_def by (subst split_tok) (simp_all add: mem_name_def butlast_append del: int_hex_hex8)
qed

lemma det_tok_resv: "det_tok (tok ''resv'' (resv_text r)) s = Some (s\<lparr>t_resv := Some (resv_text r)\<rparr>)"
  unfolding det_tok_def by (subst split_tok) simp_all

lemma det_toks_append: "det_toks (a @ b) s = Option.bind (det_toks a s) (det_toks b)"
  by (induction a s rule: det_toks.induct) (simp_all split: bind_split)

lemma det_toks_regs:
  "distinct is \<Longrightarrow> int ` set is \<inter> fst ` set (t_regs s) = {} \<Longrightarrow>
   det_toks (map (\<lambda>i. tok (reg_name i) (hex8 (f i))) is) s = Some (s\<lparr>t_regs := t_regs s @ map (\<lambda>i. (int i, uval (f i))) is\<rparr>)"
proof (induction "is" arbitrary: s)
  case (Cons i "is")
  have "det_tok (tok (reg_name i) (hex8 (f i))) s = Some (s\<lparr>t_regs := t_regs s @ [(int i, uval (f i))]\<rparr>)"
    unfolding det_tok_reg using Cons.prems(2) by (subst dict_set_new) auto
  moreover have "int ` set is \<inter> fst ` set (t_regs (s\<lparr>t_regs := t_regs s @ [(int i, uval (f i))]\<rparr>)) = {}"
    using Cons.prems by auto
  ultimately show ?case using Cons.IH Cons.prems(1) by simp
qed simp

lemma det_toks_mem:
  "list_all (\<lambda>a. a < 2 ^ 32) as \<Longrightarrow>
   det_toks (map (\<lambda>a. tok (mem_name a) (hex8 (f a))) as) s = Some (s\<lparr>t_mem := t_mem s @ map (\<lambda>a. (int a, uval (f a))) as\<rparr>)"
  by (induction "as" arbitrary: s) (simp_all add: det_tok_mem)

text \<open>Fields without blanks, joined by blanks, are split back.\<close>

definition field :: "string \<Rightarrow> bool" where
  "field f \<longleftrightarrow> f \<noteq> [] \<and> plain f"

lemma is_field [simp]: "field (c # s) \<longleftrightarrow> \<not> is_space c \<and> plain s" "\<not> field []"
  by (auto simp: field_def plain_def)

lemma plain_simps [simp]: "plain (s @ t) \<longleftrightarrow> plain s \<and> plain t" "plain (c # s) \<longleftrightarrow> \<not> is_space c \<and> plain s" "plain []"
  by (auto simp: plain_def)

lemma field_while:
  assumes "field f"
  shows "dropWhile is_space (f @ s) = f @ s" "takeWhile (\<lambda>c. \<not> is_space c) (f @ CHR '' '' # s) = f"
    "dropWhile (\<lambda>c. \<not> is_space c) (f @ CHR '' '' # s) = CHR '' '' # s"
    "takeWhile (\<lambda>c. \<not> is_space c) f = f" "dropWhile (\<lambda>c. \<not> is_space c) f = []"
proof -
  have a: "list_all (\<lambda>c. \<not> is_space c) f" "f \<noteq> []" using assms by (simp_all add: field_def plain_def)
  then show "dropWhile is_space (f @ s) = f @ s" by (cases f) simp_all
  have "is_space (CHR '' '')" by (simp add: is_space_def)
  then show "takeWhile (\<lambda>c. \<not> is_space c) (f @ CHR '' '' # s) = f" "dropWhile (\<lambda>c. \<not> is_space c) (f @ CHR '' '' # s) = CHR '' '' # s"
    using a(1) by (simp_all add: takeWhile_append_stop dropWhile_append_stop)
  show "takeWhile (\<lambda>c. \<not> is_space c) f = f" "dropWhile (\<lambda>c. \<not> is_space c) f = []" using a(1) by (simp_all add: list_all_iff)
qed

lemma split_ws_Nil [simp]: "split_ws [] = []"
  by (subst split_ws.simps) simp

lemma split_ws_field:
  assumes "field f"
  shows "split_ws f = [f]" "split_ws (f @ CHR '' '' # s) = f # split_ws s"
proof -
  have n: "f \<noteq> []" "f @ s \<noteq> []" for s using assms by (auto simp: field_def)
  have "dropWhile is_space f = f" using field_while(1) [OF assms, of "[]"] by simp
  then show "split_ws f = [f]" using n by (subst split_ws.simps) (simp only: Let_def field_while(4,5) [OF assms] split_ws_Nil if_False)
  have b: "is_space (CHR '' '')" by (simp add: is_space_def)
  have "split_ws (CHR '' '' # s) = split_ws s" by (subst (1 2) split_ws.simps) (simp add: b)
  then show "split_ws (f @ CHR '' '' # s) = f # split_ws s"
    using field_while(1) [OF assms, of "CHR '' '' # s"] field_while(2,3) [OF assms, of s] n by (subst split_ws.simps) (simp add: Let_def)
qed

lemma split_ws_join: "list_all field fs \<Longrightarrow> split_ws (join '' '' fs) = fs"
proof (induction "'' ''" fs rule: join.induct)
  case 1
  then show ?case by (subst split_ws.simps) simp
qed (auto simp: split_ws_field)

lemma field_nat [simp]: "field (hex8 w)" "field (dec_nat n)"
  using read_hex_hex8 [of w] by (auto simp: field_def read_hex_def split: if_splits)

lemma field_tok: "plain k \<Longrightarrow> plain v \<Longrightarrow> field (tok k v)"
proof -
  assume "plain k" "plain v"
  moreover have "\<not> is_space (CHR ''='')" by (simp add: is_space_def)
  ultimately show ?thesis by (simp add: tok_def field_def)
qed

lemma plain_names [simp]: "plain (reg_name i)" "plain (mem_name a)" "plain ''mscratch''" "plain ''resv''"
  by (simp_all add: reg_name_def mem_name_def is_space_def)

lemma trace_fields_ok: "list_all field (trace_fields old raw new)"
  unfolding trace_fields_def list_all_append list.pred_map list.pred_inject o_def
  by (simp add: field_tok list_all_iff del: plain_simps)

lemma det_toks_fields: "det_toks (drop 2 (trace_fields old raw new)) (step0 (uval (v_pc old)) (uval raw)) = Some (step_of old raw new)"
proof -
  have d: "distinct (changed_regs old new)" by (simp add: changed_regs_def)
  have m: "list_all (\<lambda>a. a < 2 ^ 32) (changed_words old new)" by (auto simp: changed_words_def list_all_iff mem_size_def)
  have "drop 2 (trace_fields old raw new) =
      map (\<lambda>i. tok (reg_name i) (hex8 (v_regs new ! i))) (changed_regs old new)
     @ (if v_mscratch new \<noteq> v_mscratch old then [tok ''mscratch'' (hex8 (v_mscratch new))] else [])
     @ map (\<lambda>a. tok (mem_name a) (hex8 (v_word new a))) (changed_words old new)
     @ (if v_resv new \<noteq> v_resv old then [tok ''resv'' (resv_text (v_resv new))] else [])"
    by (simp add: trace_fields_def)
  then show ?thesis
    using d m by (simp add: det_toks_append det_toks_regs det_toks_mem det_tok_resv det_tok_mscratch step0_def step_of_def)
qed


lemma hex8_not_end: "hex8 w \<noteq> ''end''"
proof
  assume "hex8 w = ''end''"
  then have "read_hex ''end'' = Some (unat w)" using read_hex_hex8 [of w] by simp
  then show False by (simp add: read_hex_def hex_undig_def)
qed

lemma field_end: "field ''end''"
  by (simp add: is_space_def)

lemma det_lines_step:
  "det_lines (join '' '' (trace_fields old raw new) # ls) = map_option ((#) (DStep (step_of old raw new))) (det_lines ls)"
proof -
  have f: "trace_fields old raw new = hex8 (v_pc old) # hex8 raw # drop 2 (trace_fields old raw new)" by (simp add: trace_fields_def)
  have "split_ws (join '' '' (trace_fields old raw new)) = hex8 (v_pc old) # hex8 raw # drop 2 (trace_fields old raw new)"
    using split_ws_join [OF trace_fields_ok] f by metis
  then show ?thesis
    by (simp add: hex8_not_end det_toks_fields del: int_hex_hex8) (simp add: option.map_comp split: bind_split)
qed

lemma split_end: "field st \<Longrightarrow> split_ws (join '' '' [''end'', st, hex8 w]) = [''end'', st, hex8 w]"
  by (rule split_ws_join) (simp add: field_end del: is_field(1))

lemma det_lines_trace:
  assumes "field st"
  shows "det_lines (trace_lines v steps st) = Some (steps_of v steps st)"
  using assms
proof (induction v steps st rule: trace_lines.induct)
  case (1 old st')
  then show ?case by (simp add: split_end del: join.simps int_hex_hex8)
qed (simp add: det_lines_step del: det_lines.simps(2))

lemma trace_line_ends:
  assumes "field st" "l \<in> set (trace_lines v steps st)"
  shows "list_all (\<lambda>c. \<not> line_end c) l"
proof -
  have j: "list_all (\<lambda>c. \<not> line_end c) (join '' '' fs)" if "list_all field fs" for fs
  proof -
    have "list_all plain fs" using that by (auto simp: list_all_iff field_def)
    moreover have "\<not> line_end (CHR '' '')" by (simp add: line_end_def)
    ultimately show ?thesis using join_plain [of fs] by (auto simp: list_all_iff dest: line_end_space)
  qed
  show ?thesis
    using assms by (induction v steps st rule: trace_lines.induct) (auto intro!: j trace_fields_ok simp: field_end simp del: is_field(1) join.simps)
qed

lemma splitlines_lines:
  "list_all (list_all (\<lambda>c. \<not> line_end c)) ls \<Longrightarrow> splitlines (concat (map (\<lambda>l. l @ nl) ls)) = ls"
  by (induction ls) (simp_all add: nl_def splitlines_newline)

definition trace_text :: "vm \<Rightarrow> (32 word \<times> vm) list \<Rightarrow> string \<Rightarrow> string" where
  "trace_text v steps st = concat (map (\<lambda>l. l @ nl) (trace_lines v steps st))"

text \<open>C18. The script reads the runner's trace back exactly: for any states the VM went through and the status it stopped with,
  \<open>det_trace\<close> returns one step for each printed line, with the instruction's address and word and the registers,
  mscratch, memory words and reservation it changed, and then the end.\<close>

theorem det_trace_reads:
  assumes "run [runner, ''--trace'', binf, hex_nat LOAD_ADDR, hex_int start, dec_nat MAX_STEPS] = (0, trace_text v steps st, err)"
    and "field st"
  shows "det_trace run runner binf start = Inr (steps_of v steps st)"
proof -
  have "splitlines (trace_text v steps st) = trace_lines v steps st"
    unfolding trace_text_def using trace_line_ends [OF assms(2)] by (intro splitlines_lines) (simp add: list_all_iff)
  then show ?thesis using det_lines_trace [OF assms(2)] by (simp add: det_trace_def assms(1))
qed

text \<open>The registers the alignment has after a trace.\<close>

fun shown :: "dregs \<Rightarrow> det_ev list \<Rightarrow> dregs option" where
  "shown f (DStep d # ds) = Option.bind (write_regs (t_regs d) f) (\<lambda>f. shown f ds)"
| "shown f _ = Some f"

fun last_vm :: "vm \<Rightarrow> (32 word \<times> vm) list \<Rightarrow> vm" where
  "last_vm v [] = v"
| "last_vm v ((_, v') # steps) = last_vm v' steps"

definition tracks :: "vm \<Rightarrow> vm \<Rightarrow> dregs \<Rightarrow> bool" where
  "tracks v0 v f \<longleftrightarrow> length f = 32 \<and> (\<forall>i \<in> {1..<32}. f ! i = Some (uval (v_regs v ! i)) \<or> f ! i = None \<and> v_regs v ! i = v_regs v0 ! i)"

lemma write_regs_map:
  assumes "distinct is" "set is \<subseteq> {..<32}" "length f = 32"
  shows "\<exists>f'. write_regs (map (\<lambda>i. (int i, g i)) is) f = Some f' \<and> length f' = 32 \<and> (\<forall>i < 32. f' ! i = (if i \<in> set is then Some (g i) else f ! i))"
  using assms
proof (induction "is" arbitrary: f)
  case (Cons i "is")
  obtain f' where "write_regs (map (\<lambda>i. (int i, g i)) is) (f[i := Some (g i)]) = Some f'" "length f' = 32"
    "\<And>k. k < 32 \<Longrightarrow> f' ! k = (if k \<in> set is then Some (g k) else f[i := Some (g i)] ! k)"
    using Cons.IH [of "f[i := Some (g i)]"] Cons.prems by auto
  then show ?case using Cons.prems by (auto simp: nth_list_update)
qed simp

lemma tracks_step:
  assumes "tracks v0 v f"
  shows "\<exists>f'. write_regs (t_regs (step_of v raw v')) f = Some f' \<and> tracks v0 v' f'"
proof -
  have "distinct (changed_regs v v')" "set (changed_regs v v') \<subseteq> {..<32}" by (auto simp: changed_regs_def)
  from write_regs_map [OF this, of f "\<lambda>i. uval (v_regs v' ! i)"] assms obtain f' where
    f': "write_regs (t_regs (step_of v raw v')) f = Some f'" "length f' = 32"
      "\<And>i. i < 32 \<Longrightarrow> f' ! i = (if i \<in> set (changed_regs v v') then Some (uval (v_regs v' ! i)) else f ! i)"
    by (auto simp: tracks_def step_of_def)
  have "tracks v0 v' f'" using assms f'(2,3) by (auto simp: tracks_def changed_regs_def)
  with f'(1) show ?thesis by blast
qed


definition sample_vm :: "32 word \<Rightarrow> vm" where
  "sample_vm x = \<lparr>v_pc = 0x10000, v_regs = (replicate 32 0)[5 := x], v_mscratch = 0, v_word = (\<lambda>_. 0), v_resv = None\<rparr>"

theorem det_trace_reads_witness:
  "det_trace (\<lambda>_. (0, trace_text (sample_vm 0) [(0x13, sample_vm 7)] ''ebreak'', [])) ''r'' ''p.bin'' 0x10000
     = Inr (steps_of (sample_vm 0) [(0x13, sample_vm 7)] ''ebreak'')"
  by (rule det_trace_reads [OF refl]) (simp add: is_space_def)

end
