(* ===== verification/Setup.thy ===== *)
theory Setup
  imports Pipeline "HOL-Library.Sublist"
begin

text \<open>
  \<open>setup\<close> and \<open>build_runner\<close> of \<^verbatim>\<open>tools/spike_diff/pipeline.py\<close>: the checks of the tools and the
  preparation of the work directory, as the list of actions on the file system and the
  result. The host (path resolution, executables, the environment, the compiler) is a parameter.
\<close>

section \<open>Paths\<close>

text \<open>\<open>os.path.join\<close> and \<open>os.path.commonpath\<close> of two absolute paths.\<close>

definition path_join :: "string \<Rightarrow> string \<Rightarrow> string" where
  "path_join a b =
     (if startswith b ''/'' then b else if a = [] \<or> endswith a ''/'' then a @ b else a @ ''/'' @ b)"

definition comps :: "string \<Rightarrow> string list" where
  "comps p = filter (\<lambda>c. c \<noteq> [] \<and> c \<noteq> ''.'') (split_char (CHR ''/'') p)"

fun common_prefix :: "'a list \<Rightarrow> 'a list \<Rightarrow> 'a list" where
  "common_prefix (x # xs) (y # ys) = (if x = y then x # common_prefix xs ys else [])"
| "common_prefix _ _ = []"

definition commonpath :: "string \<Rightarrow> string \<Rightarrow> string" where
  "commonpath a b = ''/'' @ join ''/'' (common_prefix (comps a) (comps b))"

section \<open>The host and the result\<close>

record host =
  realpath :: "string \<Rightarrow> string"
  abspath :: "string \<Rightarrow> string"
  which :: "string \<Rightarrow> string option"
  x_ok :: "string \<Rightarrow> bool"
  env_path :: "string option"
  REPO :: string
  compile :: "string list \<Rightarrow> int \<times> string \<times> string"

record args =
  a_work :: string
  a_spike :: string
  a_cross :: string
  a_runner :: "string option"

record tools =
  t_work :: string
  t_spike :: string
  t_cross :: string
  t_runner :: string
  t_path :: string

datatype action =
    Makedirs string | WriteBytes string bytes | WriteText string string | Chmod string nat | Exec "string list"

text \<open>The messages of \<open>fail\<close>, and an exception.\<close>

datatype setup_error =
    InsideRepo string | Whitespace string | NoSpike string | NoToolchain string | NotExecutable string
  | NoZig | RunnerFailed string | Exception

definition DTC_STUB :: string where
  \<open>DTC_STUB = text_of
    [''#!/bin/sh'',
     ''# Stub dtc for Spike, written by tools/spike_diff/pipeline.py: returns ../spike.dtb.'',
     ''here=$(cd "$(dirname "$0")" && pwd)'',
     ''cat >/dev/null'',
     ''case "$*" in'',
     ''  *"-I dtb"*) printf '' @ [CHR 0x27] @ ''/dts-v1/;'' @ [CHR 0x5C] @ ''n/ { };'' @ [CHR 0x5C] @ ''n'' @ [CHR 0x27] @ '' ;;'',
     ''  *) cat "$here/../spike.dtb" ;;'',
     ''esac'']\<close>

section \<open>The operations\<close>

definition build_runner :: "host \<Rightarrow> string \<Rightarrow> action list \<times> (setup_error + string)" where
  "build_runner h work =
     (if which h ''zig'' = None then ([], Inl NoZig)
      else
        let prefx = path_join work ''runner'';
            cmd = [''zig'', ''build'', ''spike-runner'', ''-Doptimize=safe'', ''--prefix'', prefx,
                   ''--cache-dir'', path_join work ''zig-cache''];
            (rc, out, err) = compile h cmd
        in ([Exec cmd],
            if rc \<noteq> 0 then Inl (RunnerFailed (out @ err)) else Inr (path_join (path_join prefx ''bin'') ''spike-runner'')))"

definition choose_runner :: "host \<Rightarrow> args \<Rightarrow> string \<Rightarrow> bool \<Rightarrow> action list \<times> (setup_error + string)" where
  "choose_runner h a work need_runner =
     (case a_runner a of
        Some r \<Rightarrow>
          if r \<noteq> [] then ([], if x_ok h (abspath h r) then Inr (abspath h r) else Inl (NotExecutable (abspath h r)))
          else if need_runner then build_runner h work else ([], Inr [])
      | None \<Rightarrow> if need_runner then build_runner h work else ([], Inr []))"

text \<open>The files under the work directory: Spike's device tree and the stub.\<close>

definition prepare_work :: "string \<Rightarrow> bytes \<Rightarrow> action list" where
  "prepare_work work dtb_bytes =
     (let fakebin = path_join work ''fakebin''; stub = path_join fakebin ''dtc'' in
      [WriteBytes (path_join work ''spike.dtb'') dtb_bytes, Makedirs fakebin, WriteText stub DTC_STUB, Chmod stub 493])"

definition out_dir :: "string \<Rightarrow> string option \<Rightarrow> string option" where
  "out_dir work subdir = (case subdir of None \<Rightarrow> None | Some s \<Rightarrow> if s = [] then None else Some (path_join work s))"

definition setup_run :: "host \<Rightarrow> args \<Rightarrow> string option \<Rightarrow> bool \<Rightarrow> action list \<times> (setup_error + tools \<times> string option)" where
  "setup_run h a subdir need_runner =
     (let work = realpath h (a_work a); repo = realpath h (REPO h) in
      if commonpath work repo = repo then ([], Inl (InsideRepo work))
      else if list_ex is_space work then ([], Inl (Whitespace work))
      else
        case which h (a_spike a) of
          None \<Rightarrow> ([Makedirs work], Inl (NoSpike (a_spike a)))
        | Some spike \<Rightarrow>
            let found = map (\<lambda>t. which h (a_cross a @ t)) [''as'', ''ld'', ''objcopy'', ''nm''] in
            if None \<in> set found then ([Makedirs work], Inl (NoToolchain (a_cross a)))
            else
              case build ISA_SPIKE (int SPIKE_MEM_BASE) (int SPIKE_MEM_SIZE) of
                None \<Rightarrow> ([Makedirs work, WriteBytes (path_join work ''spike.dtb'') []], Inl Exception)
              | Some blob \<Rightarrow>
                  let (acts, r) = choose_runner h a work need_runner;
                      done = Makedirs work # prepare_work work blob @ acts;
                      out = out_dir work subdir
                  in case r of
                       Inl e \<Rightarrow> (done, Inl e)
                     | Inr rn \<Rightarrow>
                         (done @ (case out of None \<Rightarrow> [] | Some d \<Rightarrow> [Makedirs d]),
                          Inr (\<lparr>t_work = work, t_spike = spike, t_cross = chop 2 (the (hd found)), t_runner = rn,
                                t_path = path_join work ''fakebin'' @ '':'' @ (case env_path h of None \<Rightarrow> [] | Some p \<Rightarrow> p)\<rparr>, out)))"

section \<open>Where it writes\<close>

text \<open>The paths an action writes; the compiler writes to its prefix and its cache.\<close>

fun touches :: "action \<Rightarrow> string list" where
  "touches (Makedirs p) = [p]"
| "touches (WriteBytes p _) = [p]"
| "touches (WriteText p _) = [p]"
| "touches (Chmod p _) = [p]"
| "touches (Exec cmd) = [cmd ! 5, cmd ! 7]"

definition under :: "string \<Rightarrow> string \<Rightarrow> bool" where
  "under d p \<longleftrightarrow> prefix (comps d) (comps p)"

text \<open>A resolved path, as \<open>os.path.realpath\<close> documents it: absolute, no empty component and no dot.\<close>

definition normal :: "string \<Rightarrow> bool" where
  "normal p \<longleftrightarrow> p = ''/'' @ join ''/'' (comps p)"

lemma split_char_snoc: "split_char c (a @ c # b) = split_char c a @ split_char c b"
  by (induction a) (auto split: list.splits)

lemma split_char_end: "endswith a [c] \<Longrightarrow> \<exists>a'. a = a' @ [c]"
  by (auto simp: endswith_def startswith_iff rev_eq_append_conv)

lemma comps_append: "comps (a @ CHR ''/'' # b) = comps a @ comps b"
  by (simp add: comps_def split_char_snoc)

lemma comps_Nil [simp]: "comps [] = []"
  by (simp add: comps_def)

lemma comps_join: "\<not> startswith b ''/'' \<Longrightarrow> comps (path_join a b) = comps a @ comps b"
  using split_char_end [of a "CHR ''/''"] comps_append [of a b] comps_append [of _ b] comps_append [of _ "[]"]
  by (auto simp: path_join_def)

lemma common_prefix_right: "common_prefix xs ys = ys \<longleftrightarrow> prefix ys xs"
  by (induction xs ys rule: common_prefix.induct) auto

lemma comps_parts: "c \<in> set (comps p) \<Longrightarrow> c \<noteq> [] \<and> c \<noteq> ''.'' \<and> CHR ''/'' \<notin> set c"
proof -
  have "c \<in> set (split_char x p) \<Longrightarrow> x \<notin> set c" for x :: char
    by (induction p arbitrary: c) (auto split: if_splits list.splits)
  then show "c \<in> set (comps p) \<Longrightarrow> ?thesis" by (auto simp: comps_def)
qed

lemma comps_of_join:
  assumes "list_all (\<lambda>c. c \<noteq> [] \<and> c \<noteq> ''.'' \<and> CHR ''/'' \<notin> set c) cs"
  shows "comps (''/'' @ join ''/'' cs) = cs"
proof (cases "cs = []")
  case False
  then have "split_char (CHR ''/'') (join ''/'' cs) = cs" using assms by (intro split_char_join) (auto simp: list_all_iff)
  moreover have "filter (\<lambda>c. c \<noteq> [] \<and> c \<noteq> ''.'') cs = cs" using assms by (induction cs) auto
  ultimately show ?thesis by (simp add: comps_def)
qed (simp add: comps_def)

lemma common_prefix_set: "set (common_prefix xs ys) \<subseteq> set ys"
  by (induction xs ys rule: common_prefix.induct) auto

lemma commonpath_repo: "normal r \<Longrightarrow> commonpath w r = r \<longleftrightarrow> prefix (comps r) (comps w)"
proof -
  assume r: "normal r"
  have "comps (commonpath w r) = common_prefix (comps w) (comps r)"
    unfolding commonpath_def
    by (intro comps_of_join) (use common_prefix_set comps_parts in \<open>fastforce simp: list_all_iff\<close>)
  then have "commonpath w r = r \<longleftrightarrow> common_prefix (comps w) (comps r) = comps r"
    using r by (auto simp: commonpath_def normal_def)
  then show "commonpath w r = r \<longleftrightarrow> prefix (comps r) (comps w)" by (simp add: common_prefix_right)
qed

lemma under_refl [simp]: "under w w"
  by (simp add: under_def)

lemma under_join [simp]: "under w p \<Longrightarrow> \<not> startswith b ''/'' \<Longrightarrow> under w (path_join p b)"
  by (auto simp: under_def comps_join)

definition inside :: "string \<Rightarrow> action list \<Rightarrow> bool" where
  "inside w acts \<longleftrightarrow> list_all (\<lambda>x. list_all (under w) (touches x)) acts"

lemma inside_simps [simp]:
  "inside w []" "inside w (x # xs) \<longleftrightarrow> list_all (under w) (touches x) \<and> inside w xs"
  "inside w (xs @ ys) \<longleftrightarrow> inside w xs \<and> inside w ys"
  by (simp_all add: inside_def)

lemma inside_build_runner [simp]: "inside w (fst (build_runner h w))"
  by (auto simp: build_runner_def Let_def split: prod.splits)

lemma inside_choose_runner [simp]: "inside w (fst (choose_runner h a w need))"
  by (auto simp: choose_runner_def split: option.splits)

lemma inside_prepare_work [simp]: "inside w (prepare_work w bs)"
  by (simp add: prepare_work_def Let_def)

lemma under_out_dir:
  "out_dir w subdir = Some d \<Longrightarrow> (\<And>s. subdir = Some s \<Longrightarrow> \<not> startswith s ''/'') \<Longrightarrow> under w d"
  by (auto simp: out_dir_def split: option.splits if_splits)

lemma inside_setup:
  assumes "\<And>s. subdir = Some s \<Longrightarrow> \<not> startswith s ''/''"
  shows "inside (realpath h (a_work a)) (fst (setup_run h a subdir need))"
proof -
  obtain acts r where c: "choose_runner h a (realpath h (a_work a)) need = (acts, r)" by fastforce
  then have "inside (realpath h (a_work a)) acts" using inside_choose_runner [of "realpath h (a_work a)" h a need] by simp
  with assms show ?thesis
    by (simp add: setup_run_def Let_def c under_out_dir split: option.split sum.split)
qed

lemma spike_dtb_built: "\<exists>blob. build ISA_SPIKE (int SPIKE_MEM_BASE) (int SPIKE_MEM_SIZE) = Some blob"
proof -
  have "length ISA_SPIKE < 2 ^ 31" by (simp add: ISA_SPIKE_def)
  from build_Some [OF this] dt_tree_Some show ?thesis by (force simp: SPIKE_MEM_BASE_def SPIKE_MEM_SIZE_def)
qed

lemma choose_runner_errors:
  "choose_runner h a w need = (acts, Inl e) \<Longrightarrow> e \<noteq> Exception \<and> e \<noteq> InsideRepo p"
  by (auto simp: choose_runner_def build_runner_def Let_def split: option.splits prod.splits if_splits)

lemma setup_results:
  "snd (setup_run h a subdir need) \<noteq> Inl Exception
   \<and> (snd (setup_run h a subdir need) = Inl (InsideRepo (realpath h (a_work a)))
      \<longleftrightarrow> commonpath (realpath h (a_work a)) (realpath h (REPO h)) = realpath h (REPO h))"
proof -
  obtain acts r where c: "choose_runner h a (realpath h (a_work a)) need = (acts, r)" by fastforce
  obtain blob where "build ISA_SPIKE (int SPIKE_MEM_BASE) (int SPIKE_MEM_SIZE) = Some blob" using spike_dtb_built by blast
  moreover have "r \<noteq> Inl Exception" "r \<noteq> Inl (InsideRepo p)" for p
    using c choose_runner_errors [of h a _ need acts] by fastforce+
  ultimately show ?thesis
    by (auto simp: setup_run_def Let_def c split: option.split sum.split)
qed


definition sample_host :: host where
  "sample_host = \<lparr>realpath = (\<lambda>p. p), abspath = (\<lambda>p. p), which = Some, x_ok = (\<lambda>_. True), env_path = None, REPO = ''/r'',
     compile = (\<lambda>_. (0, [], []))\<rparr>"

definition sample_args :: "string \<Rightarrow> args" where
  "sample_args w = \<lparr>a_work = w, a_spike = ''spike'', a_cross = ''x-'', a_runner = None\<rparr>"


end
