(* ===== verification/Dump.thy ===== *)
theory Dump
  imports Pipeline
begin

text \<open>
  Spike's trap handler (\<open>template.trap_handler\<close>) against its reader (\<open>pipeline.spike_state\<close>):
  the handler's instructions, what they do to the registers, the control registers and the
  dump, and that \<open>spike_state\<close> reads the trapped machine back from the dump.
\<close>

section \<open>The handler's instructions\<close>

datatype csr = MINSTRET | MSCRATCH | MCAUSE | MEPC | MTVAL | SSCRATCH | STVAL

datatype hinsn =
    Csrw csr nat | Csrr nat csr | La nat string | Li nat nat | Sw nat nat nat | Hang

fun csr_name :: "csr \<Rightarrow> string" where
  "csr_name MINSTRET = ''minstret''" | "csr_name MSCRATCH = ''mscratch''" | "csr_name MCAUSE = ''mcause''"
| "csr_name MEPC = ''mepc''" | "csr_name MTVAL = ''mtval''" | "csr_name SSCRATCH = ''sscratch''" | "csr_name STVAL = ''stval''"

text \<open>The handler writes x31 by its ABI name.\<close>

definition hreg :: "nat \<Rightarrow> string" where
  "hreg r = (if r = 31 then ''t6'' else ''x'' @ dec_nat r)"

fun hline :: "hinsn \<Rightarrow> string" where
  "hline (Csrw c r) = ''  csrw '' @ csr_name c @ '', '' @ hreg r"
| "hline (Csrr r c) = ''  csrr '' @ hreg r @ '', '' @ csr_name c"
| "hline (La r s) = ''  la '' @ hreg r @ '', '' @ s"
| "hline (Li r v) = ''  li '' @ hreg r @ '', '' @ (if v < 10 then dec_nat v else ''0x'' @ hex_nat v)"
| "hline (Sw r off b) = ''  sw '' @ hreg r @ '', '' @ dec_nat off @ ''('' @ hreg b @ '')''"
| "hline Hang = ''1: j 1b''"

definition start_insns :: "hinsn list" where
  "start_insns = [Csrw SSCRATCH 31, Csrr 31 MINSTRET, Csrw STVAL 31, La 31 ''trap_dump'']"

definition end_insns :: "hinsn list" where
  "end_insns = [Csrr 1 SSCRATCH, Sw 1 124 31, Csrr 1 MSCRATCH, Sw 1 128 31, Csrr 1 MCAUSE, Sw 1 132 31,
        Csrr 1 MEPC, Sw 1 136 31, Csrr 1 MTVAL, Sw 1 140 31, Csrr 1 STVAL, Sw 1 144 31,
        Li 1 DUMP_MARKER, Sw 1 0 31, Li 1 1, La 31 ''tohost'', Sw 1 0 31, Sw 0 4 31, Hang]"

definition dump_insns :: "hinsn list" where
  "dump_insns = start_insns @ map (\<lambda>i. Sw i (4 * i) 31) [1..<31] @ end_insns"

lemma hline_sw: "i < 31 \<Longrightarrow> hline (Sw i (4 * i) 31) = dump_line i"
  by (simp add: dump_line_def hreg_def)

lemma trap_handler_insns:
  "trap_handler_lines = [''  .option norvc'', ''  .align 2'', ''trap_handler:''] @ map hline dump_insns"
proof -
  have "map hline (map (\<lambda>i. Sw i (4 * i) 31) [1..<31]) = map dump_line [1..<31]"
    by (simp add: hline_sw del: upt_conv_Cons_Cons hline.simps)
  moreover have "dec_nat 124 = ''124''" "dec_nat 128 = ''128''" "dec_nat 132 = ''132''" "dec_nat 136 = ''136''"
    "dec_nat 140 = ''140''" "dec_nat 144 = ''144''" "dec_nat 0 = ''0''" "dec_nat 1 = ''1''" "dec_nat 4 = ''4''"
    by code_simp+
  moreover have "\<not> DUMP_MARKER < 10" by (simp add: DUMP_MARKER_def)
  ultimately show ?thesis
    by (simp add: trap_handler_lines_def dump_insns_def start_insns_def end_insns_def hreg_def del: upt.simps)
qed

section \<open>What they do\<close>

text \<open>
  Registers (x0 is zero), control registers and the words of memory by address; \<open>adr\<close> gives the
  linked address of a symbol. Every instruction retires: \<open>la\<close> is two, and so is \<open>li\<close> of more than
  twelve bits. The last line jumps to itself.
\<close>

record hart =
  xr :: "nat \<Rightarrow> int"
  cr :: "csr \<Rightarrow> int"
  ram :: "int \<Rightarrow> int"

definition xget :: "hart \<Rightarrow> nat \<Rightarrow> int" where
  "xget h r = (if r = 0 then 0 else xr h r)"

definition retire :: "nat \<Rightarrow> hart \<Rightarrow> hart" where
  "retire n h = h\<lparr>cr := (cr h)(MINSTRET := cr h MINSTRET + int n)\<rparr>"

fun hstep :: "(string \<Rightarrow> int) \<Rightarrow> hinsn \<Rightarrow> hart \<Rightarrow> hart" where
  "hstep adr (Csrw c r) h = retire 1 (h\<lparr>cr := (cr h)(c := xget h r)\<rparr>)"
| "hstep adr (Csrr r c) h = retire 1 (h\<lparr>xr := (xr h)(r := cr h c)\<rparr>)"
| "hstep adr (La r s) h = retire 2 (h\<lparr>xr := (xr h)(r := adr s)\<rparr>)"
| "hstep adr (Li r v) h = retire (if v < 2048 then 1 else 2) (h\<lparr>xr := (xr h)(r := int v)\<rparr>)"
| "hstep adr (Sw r off b) h = retire 1 (h\<lparr>ram := (ram h)(xget h b + int off := xget h r)\<rparr>)"
| "hstep adr Hang h = h"

definition handle :: "(string \<Rightarrow> int) \<Rightarrow> hart \<Rightarrow> hart" where
  "handle adr h = fold (hstep adr) dump_insns h"

definition dump_words :: "(string \<Rightarrow> int) \<Rightarrow> hart \<Rightarrow> int list" where
  "dump_words adr h = map (\<lambda>i. ram h (adr ''trap_dump'' + 4 * int i)) [0..<37]"

text \<open>The loop of stores writes register \<open>i\<close> to word \<open>i\<close> and nothing else.\<close>

definition saved :: "nat set \<Rightarrow> hart \<Rightarrow> int \<Rightarrow> int" where
  "saved R h a = (if \<exists>i \<in> R. a = xr h 31 + 4 * int i then xr h (nat ((a - xr h 31) div 4)) else ram h a)"

lemma fold_sw:
  "0 \<notin> set is \<Longrightarrow> fold (hstep adr) (map (\<lambda>i. Sw i (4 * i) 31) is) h
     = h\<lparr>ram := saved (set is) h, cr := (cr h)(MINSTRET := cr h MINSTRET + int (length is))\<rparr>"
proof (induction "is" arbitrary: h)
  case (Cons i "is")
  let ?h = "hstep adr (Sw i (4 * i) 31) h"
  have "saved (set is) ?h = saved (set (i # is)) h"
    using Cons.prems by (auto simp: saved_def fun_eq_iff retire_def xget_def)
  with Cons show ?case by (simp add: retire_def add.assoc cong: if_cong)
next
  case Nil
  have "saved {} h = ram h" by (simp add: saved_def fun_eq_iff)
  then show ?case by simp
qed

lemma saved_word [simp]: "i \<in> R \<Longrightarrow> xr h 31 = a \<Longrightarrow> saved R h (a + 4 * int i) = xr h i"
  by (auto simp: saved_def)

definition trap_state :: "(string \<Rightarrow> int) \<Rightarrow> hart \<Rightarrow> hart" where
  "trap_state adr h = fold (hstep adr) start_insns h"

lemma trap_state_simps [simp]:
  "xr (trap_state adr h) r = (if r = 31 then adr ''trap_dump'' else xr h r)"
  "cr (trap_state adr h) SSCRATCH = xr h 31" "cr (trap_state adr h) STVAL = cr h MINSTRET + 1"
  "cr (trap_state adr h) MSCRATCH = cr h MSCRATCH" "cr (trap_state adr h) MCAUSE = cr h MCAUSE"
  "cr (trap_state adr h) MEPC = cr h MEPC" "cr (trap_state adr h) MTVAL = cr h MTVAL"
  by (simp_all add: trap_state_def start_insns_def retire_def xget_def)

lemma handle_split:
  "handle adr h = fold (hstep adr) end_insns ((trap_state adr h)\<lparr>ram := saved (set [1..<31]) (trap_state adr h),
     cr := (cr (trap_state adr h))(MINSTRET := cr (trap_state adr h) MINSTRET + 30)\<rparr>)"
proof -
  have n: "0 \<notin> set [1..<31::nat]" and l: "int (length [1..<31::nat]) = 30" by simp_all
  show ?thesis by (simp only: handle_def dump_insns_def fold_append comp_apply trap_state_def fold_sw [OF n] l)
qed

lemma end_ram:
  assumes "xr h 31 = d" "d + 192 \<le> adr ''tohost''" "x < d + 192"
  shows "ram (fold (hstep adr) end_insns h) x =
    ((ram h)(d + 124 := cr h SSCRATCH, d + 128 := cr h MSCRATCH, d + 132 := cr h MCAUSE, d + 136 := cr h MEPC,
       d + 140 := cr h MTVAL, d + 144 := cr h STVAL, d := int DUMP_MARKER)) x"
  using assms by (simp add: end_insns_def retire_def xget_def)


lemma handle_ram:
  assumes "d = adr ''trap_dump''" "d + 192 \<le> adr ''tohost''" "x < d + 192"
  shows "ram (handle adr h) x =
    ((saved (set [1..<31]) (trap_state adr h))(d + 124 := xr h 31, d + 128 := cr h MSCRATCH, d + 132 := cr h MCAUSE,
       d + 136 := cr h MEPC, d + 140 := cr h MTVAL, d + 144 := cr h MINSTRET + 1, d := int DUMP_MARKER)) x"
  unfolding handle_split using assms by (subst end_ram [of _ d]) simp_all

lemma handle_reg:
  assumes "adr ''trap_dump'' + 192 \<le> adr ''tohost''" "0 < i" "i \<le> 31"
  shows "ram (handle adr h) (adr ''trap_dump'' + 4 * int i) = xr h i"
proof (cases "i = 31")
  case True
  then show ?thesis using assms by (simp add: handle_ram [OF refl])
next
  case False
  then have i: "i \<in> set [1..<31]" "i < 31" "4 * int i < 124" using assms by auto
  have "ram (handle adr h) (adr ''trap_dump'' + 4 * int i) = saved (set [1..<31]) (trap_state adr h) (adr ''trap_dump'' + 4 * int i)"
    using assms i by (simp add: handle_ram [OF refl])
  also have "\<dots> = xr (trap_state adr h) i" using i by (intro saved_word) simp_all
  finally show ?thesis using i by simp
qed

lemma upt_split: "a \<le> b \<Longrightarrow> b \<le> c \<Longrightarrow> [a..<c] = [a..<b] @ [b..<c]"
  by (metis le_add_diff_inverse upt_add_eq_append)

lemma dump_words_handle:
  assumes "adr ''trap_dump'' + 192 \<le> adr ''tohost''"
  shows "dump_words adr (handle adr h) = int DUMP_MARKER # map (xr h) [1..<32]
     @ [cr h MSCRATCH, cr h MCAUSE, cr h MEPC, cr h MTVAL, cr h MINSTRET + 1]"
proof -
  have "[0..<37::nat] = 0 # [1..<32] @ [32, 33, 34, 35, 36]" by code_simp
  moreover have "map (\<lambda>i. ram (handle adr h) (adr ''trap_dump'' + 4 * int i)) [1..<32] = map (xr h) [1..<32]"
    using assms by (intro map_cong refl) (auto simp: handle_reg)
  ultimately show ?thesis
    using assms by (simp add: dump_words_def handle_ram [OF refl] del: upt.simps)
qed

lemma dump_state_words:
  "length rs = 31 \<Longrightarrow> dump_state (int DUMP_MARKER # rs @ [a, b, c, d, e]) m =
     \<lparr>marker_ok = True, sp_regs = rs, sp_mscratch = a, mcause = b, mepc = c, mtval = d, minstret = e, sp_mem = m\<rparr>"
  by (simp add: dump_state_def word_or_def nth_append)

lemma handler_state:
  assumes "adr ''trap_dump'' + 192 \<le> adr ''tohost''" and "syms ''trap_dump'' = Some (int LOAD_ADDR + 4 * int (length ws))"
    and "pack_le ws = Some m"
  shows "spike_state (ws @ dump_words adr (handle adr h) @ rest) syms =
     Some \<lparr>marker_ok = True, sp_regs = map (xr h) [1..<32], sp_mscratch = cr h MSCRATCH, mcause = cr h MCAUSE,
           mepc = cr h MEPC, mtval = cr h MTVAL, minstret = cr h MINSTRET + 1, sp_mem = m\<rparr>"
proof -
  have i: "dump_index syms = Some (length ws)" using assms(2) by (simp add: dump_index_def)
  have "length (dump_words adr (handle adr h)) = 37" by (simp add: dump_words_def)
  then have "take 37 (dump_words adr (handle adr h) @ rest) = dump_words adr (handle adr h)" by simp
  moreover have "dump_state (dump_words adr (handle adr h)) m = \<lparr>marker_ok = True, sp_regs = map (xr h) [1..<32],
      sp_mscratch = cr h MSCRATCH, mcause = cr h MCAUSE, mepc = cr h MEPC, mtval = cr h MTVAL,
      minstret = cr h MINSTRET + 1, sp_mem = m\<rparr>"
    unfolding dump_words_handle [OF assms(1)] by (rule dump_state_words) simp
  ultimately show ?thesis using assms(3) by (simp add: spike_state_def i)
qed

text \<open>C8. The reader of Spike's signature fits its trap handler: on a signature made of \<open>n\<close> words of image
  and the dump the handler leaves (the dump's room not overlapping the mailbox),
  \<open>spike_state\<close> gives the image's bytes and the trapped machine back: the marker, x1 to x31 as they were before
  the handler used any of them, mscratch, mcause, mepc, mtval, and minstret as the handler's second
  instruction read it.\<close>

theorem spike_state_dump:
  assumes "adr ''trap_dump'' + 192 \<le> adr ''tohost''" and "syms ''trap_dump'' = Some (int LOAD_ADDR + 4 * int (length ws))"
    and "pack_le ws = Some m"
  shows "spike_state (ws @ dump_words adr (handle adr h) @ rest) syms =
     Some \<lparr>marker_ok = True, sp_regs = map (xr h) [1..<32], sp_mscratch = cr h MSCRATCH, mcause = cr h MCAUSE,
           mepc = cr h MEPC, mtval = cr h MTVAL, minstret = cr h MINSTRET + 1, sp_mem = m\<rparr>"
  using assms by (rule handler_state)

text \<open>The constant \<open>SPIKE_INSTRET_OFFSET\<close> is right: when \<open>n\<close> instructions of the test retired after
  the five of the boot ROM and the three of the preamble, what \<open>compare\<close> wants Determinant to have
  retired is \<open>n\<close>, and one more for ECALL and EBREAK, which retire there.\<close>

theorem want_retired_dump:
  assumes "adr ''trap_dump'' + 192 \<le> adr ''tohost''" and "syms ''trap_dump'' = Some (int LOAD_ADDR + 4 * int (length ws))"
    and "cr h MINSTRET = 5 + 3 + int n" and "spike_state (ws @ dump_words adr (handle adr h) @ rest) syms = Some sp"
  shows "want_retired sp det = int n + (if status det = ''ebreak'' \<or> status det = ''ecall'' then 1 else 0)"
proof -
  have i: "dump_index syms = Some (length ws)" using assms(2) by (simp add: dump_index_def)
  have "length (dump_words adr (handle adr h)) = 37" by (simp add: dump_words_def)
  with assms(4) obtain m where "sp = dump_state (dump_words adr (handle adr h)) m" by (auto simp: spike_state_def i)
  then have "minstret sp = cr h MINSTRET + 1"
    unfolding dump_words_handle [OF assms(1)] by (simp add: dump_state_words)
  then show ?thesis using assms(3) by (simp add: want_retired_def SPIKE_INSTRET_OFFSET_def)
qed

definition sample_adr :: "string \<Rightarrow> int" where
  "sample_adr s = (if s = ''trap_dump'' then 0x10004 else 0x10100)"

definition sample_hart :: hart where
  "sample_hart = \<lparr>xr = int, cr = (\<lambda>c. if c = MINSTRET then 10 else if c = MCAUSE then 3 else 0), ram = (\<lambda>_. 0)\<rparr>"

theorem spike_state_dump_witness:
  "spike_state ([0x100073] @ dump_words sample_adr (handle sample_adr sample_hart) @ []) [''trap_dump'' \<mapsto> 0x10004] =
     Some \<lparr>marker_ok = True, sp_regs = map int [1..<32], sp_mscratch = 0, mcause = 3, mepc = 0, mtval = 0, minstret = 11,
           sp_mem = [0x73, 0, 0x10, 0]\<rparr>"
  using spike_state_dump [of sample_adr "[''trap_dump'' \<mapsto> 0x10004]" "[0x100073]" "[0x73, 0, 0x10, 0]" sample_hart "[]"]
  by (simp add: sample_adr_def sample_hart_def LOAD_ADDR_def le32_def del: upt.simps)

theorem want_retired_dump_witness:
  "want_retired (the (spike_state ([0x100073] @ dump_words sample_adr (handle sample_adr sample_hart) @ []) [''trap_dump'' \<mapsto> 0x10004]))
     \<lparr>status = ''ebreak'', epc = 0, retired = 3, final_pc = 0, x0 = 0, reservation = ''none'', regs = [], mscratch = 0, digest = [], mem = []\<rparr> = 3"
proof -
  have "\<exists>sp. spike_state ([0x100073] @ dump_words sample_adr (handle sample_adr sample_hart) @ []) [''trap_dump'' \<mapsto> 0x10004] = Some sp"
    by (simp add: spike_state_def dump_index_def LOAD_ADDR_def)
  then show ?thesis
    using want_retired_dump [of sample_adr "[''trap_dump'' \<mapsto> 0x10004]" "[0x100073]" sample_hart 2 "[]"]
    by (auto simp: sample_adr_def sample_hart_def LOAD_ADDR_def)
qed

end
