(* ===== verification/Fuzz.thy ===== *)
theory Fuzz
  imports Gen Setup Protocol
begin

text \<open>
  \<^verbatim>\<open>tools/spike_diff/fuzz.py\<close>: preparing a random program (\<open>prepare\<close>), judging a batch of them,
  and the exit status. The assembler, Spike and the runner are the parameters of \<open>build_program\<close>,
  \<open>run_spike\<close> and \<open>run_runner\<close>; a raised exception is \<open>None\<close>.
\<close>

section \<open>Preparing a program\<close>

datatype prepared = Failed string | Ready string syms "int list option" string

record prog =
  p_mix :: string
  p_seed :: int
  p_asm :: string
  p_result :: prepared

text \<open>The seed's random numbers are the tape; files are the ones Spike sees.\<close>

definition prepare :: "proc \<Rightarrow> spike_proc \<Rightarrow> tools \<Rightarrow> string \<Rightarrow> string \<Rightarrow> string \<Rightarrow> int \<Rightarrow> (nat \<Rightarrow> nat) \<Rightarrow> nat \<Rightarrow> files \<Rightarrow> (prog \<times> files) option" where
  "prepare p sp tools LINK out mix seed tp items fs =
     (let asm = path_join (path_join out mix) (''s'' @ dec_int seed @ ''.s'') in
      case Option.bind (Gen_init tp mix) (program items) of
        None \<Rightarrow> None
      | Some src \<Rightarrow>
          (let fs1 = fs(asm \<mapsto> src) in
           case build_program p (t_cross tools) LINK asm of
             Raised \<Rightarrow> None
           | BuildError e \<Rightarrow> Some (\<lparr>p_mix = mix, p_seed = seed, p_asm = asm, p_result = Failed (''build: '' @ take 3000 e)\<rparr>, fs1)
           | Built (elf, binf, syms) \<Rightarrow>
               map_option (\<lambda>((words, note), fs2).
                   (\<lparr>p_mix = mix, p_seed = seed, p_asm = asm, p_result = Ready binf syms words note\<rparr>, fs2))
                 (run_spike sp (t_spike tools) [] elf fs1)))"

text \<open>The manifest of a batch: a line for every program that ran on Spike.\<close>

fun manifest :: "prog list \<Rightarrow> string option" where
  "manifest [] = Some []"
| "manifest (r # rs) =
     (case p_result r of
        Ready binf syms (Some _) _ \<Rightarrow> do {
          line \<leftarrow> manifest_line binf syms MAX_STEPS;
          rest \<leftarrow> manifest rs;
          Some (line @ nl @ rest) }
      | _ \<Rightarrow> manifest rs)"

section \<open>Judging a batch\<close>

datatype kind = KBuild string | KSpike string | KConfigs "string list" | KDiffs "string list"

record tally =
  st :: "string \<Rightarrow> nat"
  bad_total :: nat
  divlog :: "(string \<times> int \<times> kind) list"
  retired_all :: "int list"
  outcomes :: "string \<Rightarrow> nat"
  removed :: "string list"

definition inc :: "string \<Rightarrow> tally \<Rightarrow> tally" where
  "inc k t = t\<lparr>st := (st t)(k := Suc (st t k))\<rparr>"

definition note_bad :: "prog \<Rightarrow> kind \<Rightarrow> tally \<Rightarrow> tally" where
  "note_bad r k t = t\<lparr>divlog := divlog t @ [(p_mix r, p_seed r, k)]\<rparr>"

definition add_bad :: "tally \<Rightarrow> tally" where
  "add_bad t = t\<lparr>bad_total := Suc (bad_total t)\<rparr>"

definition finish :: "bool \<Rightarrow> prog \<Rightarrow> spike_st \<Rightarrow> det_rec \<Rightarrow> bool \<Rightarrow> tally \<Rightarrow> tally" where
  "finish keep r sp det bad t =
     (let t1 = (if bad then add_bad t else t);
          oc = status det @ ''/mcause='' @ dec_int (mcause sp);
          t2 = t1\<lparr>retired_all := retired_all t1 @ [retired det], outcomes := (outcomes t1)(oc := Suc (outcomes t1 oc))\<rparr>;
          t3 = (if retired det > 4900 then inc ''long_program(>4900 insns)'' t2 else t2)
      in if \<not> bad \<and> \<not> keep then t3\<lparr>removed := removed t3 @ [p_asm r]\<rparr> else t3)"

definition judge :: "results \<Rightarrow> bool \<Rightarrow> prog \<Rightarrow> tally \<Rightarrow> tally option" where
  "judge det keep r t0 =
     (let t = inc ''programs'' t0 in
      case p_result r of
        Failed e \<Rightarrow> Some (note_bad r (KBuild e) (add_bad (inc ''build_error'' t)))
      | Ready binf syms None note \<Rightarrow> Some (note_bad r (KSpike note) (add_bad (inc ''spike_error'' t)))
      | Ready binf syms (Some words) note \<Rightarrow> do {
          rec \<leftarrow> det binf;
          sp \<leftarrow> spike_state words syms;
          c \<leftarrow> rec ''cache'';
          diffs \<leftarrow> compare sp c;
          let dd = compare_configs rec;
              t1 = inc ''compared'' t;
              t2 = (if dd \<noteq> [] then note_bad r (KConfigs dd) (inc ''configs_differ'' t1) else t1);
              t3 = (if diffs \<noteq> [] then note_bad r (KDiffs diffs) (inc ''diverged'' t2) else t2)
          in Some (finish keep r sp c (dd \<noteq> [] \<or> diffs \<noteq> []) t3) })"

fun judge_all :: "results \<Rightarrow> bool \<Rightarrow> prog list \<Rightarrow> tally \<Rightarrow> tally option" where
  "judge_all det keep [] t = Some t"
| "judge_all det keep (r # rs) t = Option.bind (judge det keep r t) (judge_all det keep rs)"

text \<open>The batches of a run, each with the runner's records, and the exit status.\<close>

fun judge_batches :: "bool \<Rightarrow> (results \<times> prog list) list \<Rightarrow> tally \<Rightarrow> tally option" where
  "judge_batches keep [] t = Some t"
| "judge_batches keep ((det, rs) # bs) t = Option.bind (judge_all det keep rs t) (judge_batches keep bs)"

definition start_tally :: tally where
  "start_tally = \<lparr>st = (\<lambda>_. 0), bad_total = 0, divlog = [], retired_all = [], outcomes = (\<lambda>_. 0), removed = []\<rparr>"

definition fuzz_exit :: "bool \<Rightarrow> (results \<times> prog list) list \<Rightarrow> nat option" where
  "fuzz_exit keep bs = map_option (\<lambda>t. if bad_total t \<noteq> 0 then 1 else 0) (judge_batches keep bs start_tally)"

section \<open>What exit status 0 means\<close>

text \<open>A program on which the machines agree: built, run on Spike, one record for all configurations, equal states.\<close>

definition clean_prog :: "results \<Rightarrow> prog \<Rightarrow> bool" where
  "clean_prog det r \<longleftrightarrow>
     (\<exists>binf syms words note sp d rec. p_result r = Ready binf syms (Some words) note \<and> spike_state words syms = Some sp
        \<and> det binf = Some rec \<and> (\<forall>c \<in> set CONFIGS. rec c = Some d) \<and> agree sp d)"

lemma bad_total_simps [simp]:
  "bad_total (inc k t) = bad_total t" "bad_total (note_bad r k' t) = bad_total t" "bad_total (add_bad t) = Suc (bad_total t)"
  "bad_total (finish keep r sp d bad t) = (if bad then Suc (bad_total t) else bad_total t)"
  by (simp_all add: inc_def note_bad_def add_bad_def finish_def Let_def)

lemma removed_simps [simp]:
  "removed (inc k t) = removed t" "removed (note_bad r k' t) = removed t" "removed (add_bad t) = removed t"
  "removed (finish keep r sp d bad t) = removed t @ (if \<not> bad \<and> \<not> keep then [p_asm r] else [])"
  by (simp_all add: inc_def note_bad_def add_bad_def finish_def Let_def)

lemma judge_bad:
  assumes "judge det keep r t = Some t'" "shaped det"
  shows "bad_total t' = bad_total t + (if clean_prog det r then 0 else 1)
    \<and> removed t' = removed t @ (if clean_prog det r \<and> \<not> keep then [p_asm r] else [])"
proof (cases "\<exists>binf syms words note. p_result r = Ready binf syms (Some words) note")
  case False
  then have "\<not> clean_prog det r" by (auto simp: clean_prog_def)
  moreover from False have "bad_total t' = Suc (bad_total t) \<and> removed t' = removed t"
    using assms(1) by (cases "p_result r") (auto simp: judge_def Let_def split: option.splits)
  ultimately show ?thesis by simp
next
  case True
  then obtain binf syms words nt where p: "p_result r = Ready binf syms (Some words) nt" by blast
  obtain rec sp c diffs where x: "det binf = Some rec" "spike_state words syms = Some sp" "rec ''cache'' = Some c" "compare sp c = Some diffs"
    and b: "bad_total t' = (if compare_configs rec \<noteq> [] \<or> diffs \<noteq> [] then Suc (bad_total t) else bad_total t)"
      "removed t' = removed t @ (if \<not> (compare_configs rec \<noteq> [] \<or> diffs \<noteq> []) \<and> \<not> keep then [p_asm r] else [])"
    using assms(1) by (auto simp: judge_def p Let_def bind_eq_Some_conv)
  have "\<exists>ds. compare sp c = Some ds \<and> (ds = [] \<longleftrightarrow> agree sp c)"
    by (rule compare_shaped [OF x(2) assms(2) x(1,3)])
  then have d: "diffs = [] \<longleftrightarrow> agree sp c" using x(4) by simp
  have e: "clean_prog det r \<longleftrightarrow> (\<exists>d. (\<forall>c \<in> set CONFIGS. rec c = Some d) \<and> agree sp d)"
    by (simp add: clean_prog_def p x(1,2))
  have u: "d = c" if "\<forall>c \<in> set CONFIGS. rec c = Some d" for d
    using that x(3) by (simp add: CONFIGS_def)
  have "clean_prog det r \<longleftrightarrow> compare_configs rec = [] \<and> diffs = []"
    unfolding e configs_equal d using u by blast
  then show ?thesis using b by simp
qed

lemma judge_all_bad:
  "judge_all det keep rs t = Some t' \<Longrightarrow> shaped det \<Longrightarrow>
   bad_total t' = bad_total t + length (filter (\<lambda>r. \<not> clean_prog det r) rs)
   \<and> removed t' = removed t @ (if keep then [] else map p_asm (filter (clean_prog det) rs))"
proof (induction rs arbitrary: t)
  case (Cons r rs)
  then obtain t1 where "judge det keep r t = Some t1" "judge_all det keep rs t1 = Some t'" by (auto simp: bind_eq_Some_conv)
  with Cons judge_bad [of det keep r t t1] show ?case by auto
qed simp

lemma judge_batches_bad:
  "judge_batches keep bs t = Some t' \<Longrightarrow> list_all (\<lambda>(det, _). shaped det) bs \<Longrightarrow>
   bad_total t' = bad_total t + length (filter (\<lambda>(det, r). \<not> clean_prog det r) (concat (map (\<lambda>(det, rs). map (Pair det) rs) bs)))"
proof (induction bs arbitrary: t)
  case (Cons b bs)
  obtain det rs where b: "b = (det, rs)" by (cases b)
  with Cons.prems obtain t1 where "judge_all det keep rs t = Some t1" "judge_batches keep bs t1 = Some t'" by (auto simp: bind_eq_Some_conv)
  with Cons b judge_all_bad [of det keep rs t t1] show ?case by (simp add: filter_map o_def)
qed simp

lemma all_clean:
  "filter (\<lambda>(det, r). \<not> clean_prog det r) (concat (map (\<lambda>(det, rs). map (Pair det) rs) bs)) = []
   \<longleftrightarrow> list_all (\<lambda>(det, rs). list_all (clean_prog det) rs) bs"
  by (induction bs) (auto simp: filter_empty_conv list_all_iff)

text \<open>The fuzzer's exit status is 0 exactly when every program of every batch built, ran on Spike, gave three equal
  runner records, and ended in the same state on both machines (registers, memory, cause, address and
  retired instructions), for records of the runner's shape.\<close>

theorem fuzz_exit_zero_iff:
  assumes "fuzz_exit keep bs = Some n" and "list_all (\<lambda>(det, _). shaped det) bs"
  shows "n = 0 \<longleftrightarrow> list_all (\<lambda>(det, rs). list_all (clean_prog det) rs) bs"
proof -
  obtain t where t: "judge_batches keep bs start_tally = Some t" "n = (if bad_total t \<noteq> 0 then 1 else 0)"
    using assms(1) by (auto simp: fuzz_exit_def)
  have "bad_total t = length (filter (\<lambda>(det, r). \<not> clean_prog det r) (concat (map (\<lambda>(det, rs). map (Pair det) rs) bs)))"
    using judge_batches_bad [OF t(1) assms(2)] by (simp add: start_tally_def)
  then show ?thesis using t(2) by (simp add: all_clean)
qed

text \<open>Only the artifacts of passing programs are removed: without \<open>--keep\<close>, a judged batch removes exactly the
  programs on which the machines agree; with it, none.\<close>

theorem fuzz_keeps_failures:
  assumes "judge_all det keep rs t = Some t'" and "shaped det"
  shows "removed t' = removed t @ (if keep then [] else map p_asm (filter (clean_prog det) rs))"
  using judge_all_bad [OF assms] by blast

definition sample_prog :: prog where
  "sample_prog = \<lparr>p_mix = ''alu'', p_seed = 0, p_asm = ''s0.s'', p_result = Ready ''s0.bin'' [''trap_dump'' \<mapsto> 0x10004] (Some sample_words) []\<rparr>"

definition sample_results :: results where
  "sample_results = [''s0.bin'' \<mapsto> [''cache'' \<mapsto> sample_det, ''nocache'' \<mapsto> sample_det, ''runtime'' \<mapsto> sample_det]]"

lemma sample_clean: "shaped sample_results" "clean_prog sample_results sample_prog"
proof -
  show "shaped sample_results"
    using sample_det_shape by (auto simp: shaped_def sample_results_def split: if_splits)
  show "clean_prog sample_results sample_prog"
    using sample_agree by (auto simp: clean_prog_def sample_prog_def sample_results_def CONFIGS_def)
qed

lemma sample_judged: "\<exists>t'. judge_all sample_results False [sample_prog] t = Some t'"
proof -
  obtain sp where s: "spike_state sample_words [''trap_dump'' \<mapsto> 0x10004] = Some sp" using sample_agree by blast
  obtain ds where "compare sp sample_det = Some ds" using compare_agree [OF spike_state_shape [OF s] sample_det_shape] by blast
  with s show ?thesis by (simp add: judge_def sample_prog_def sample_results_def Let_def)
qed

theorem fuzz_exit_zero_iff_witness: "fuzz_exit False [(sample_results, [sample_prog])] = Some 0"
proof -
  obtain t' where "judge_all sample_results False [sample_prog] start_tally = Some t'" using sample_judged by blast
  then have e: "fuzz_exit False [(sample_results, [sample_prog])] = Some (if bad_total t' \<noteq> 0 then 1 else 0)" by (simp add: fuzz_exit_def)
  then show ?thesis using fuzz_exit_zero_iff [OF e] sample_clean by (simp split: if_splits)
qed

theorem fuzz_keeps_failures_witness:
  "\<exists>t'. judge_all sample_results False [sample_prog] start_tally = Some t' \<and> removed t' = [''s0.s'']"
proof -
  obtain t' where t': "judge_all sample_results False [sample_prog] start_tally = Some t'" using sample_judged by blast
  from fuzz_keeps_failures [OF this sample_clean(1)] t' sample_clean(2) show ?thesis by (simp add: start_tally_def sample_prog_def)
qed

end
