(* ===== verification/Endtoend.thy ===== *)
theory Endtoend
  imports Dump Fuzz
begin

text \<open>
  The parts of the differential test put together: the trap handler of the program (\<open>Dump\<close>), the runner's printed
  records (\<open>Protocol\<close>), \<open>spike_state\<close>, \<open>compare\<close> and the judgement of \<^verbatim>\<open>fuzz.py\<close>. Whatever the two machines did,
  the judgement of a program is exactly whether they ended in the same state.
\<close>

section \<open>The same final state\<close>

text \<open>
  Spike's hart \<open>h\<close> at the trap, with the memory image \<open>m\<close>, and Determinant's end \<open>v\<close>: eight instructions of Spike's boot
  ROM and of the preamble precede the test, and ECALL and EBREAK retire on Determinant only.
\<close>

definition stopped_by_call :: "run_end \<Rightarrow> bool" where
  "stopped_by_call v \<longleftrightarrow> vm_status v = ''ebreak'' \<or> vm_status v = ''ecall''"

definition same_machine :: "bytes \<Rightarrow> hart \<Rightarrow> run_end \<Rightarrow> bool" where
  "same_machine m h v \<longleftrightarrow>
     map (xr h) [1..<32] = map (\<lambda>w. int (unat w)) (vm_regs v) \<and> vm_x0 v = 0
     \<and> hart.cr h MSCRATCH = int (unat (vm_mscratch v)) \<and> hart.cr h MEPC = int (unat (vm_epc v))
     \<and> (case map_of CAUSES (vm_status v) of None \<Rightarrow> False | Some cs \<Rightarrow> hart.cr h MCAUSE \<in> set cs)
     \<and> int (unat (cycle_count v)) = hart.cr h MINSTRET - 8 + (if stopped_by_call v then 1 else 0)
     \<and> m = vm_mem v"

text \<open>Ends as the runner prints them: 31 registers and whole words of memory.\<close>

definition full_end :: "run_end \<Rightarrow> bool" where
  "full_end v \<longleftrightarrow> length (vm_regs v) = 31 \<and> 4 dvd length (vm_mem v)"

definition trapped :: "bytes \<Rightarrow> hart \<Rightarrow> spike_st" where
  "trapped m h = \<lparr>marker_ok = True, sp_regs = map (xr h) [1..<32], sp_mscratch = hart.cr h MSCRATCH, mcause = hart.cr h MCAUSE,
     mepc = hart.cr h MEPC, mtval = hart.cr h MTVAL, minstret = hart.cr h MINSTRET + 1, sp_mem = m\<rparr>"

lemma agree_trapped: "agree (trapped m h) (record_of v) \<longleftrightarrow> same_machine m h v"
proof -
  have "(0 = int (unat w)) = (w = 0)" "(int (unat w) = 0) = (w = 0)" for w :: "32 word" by (simp_all add: eq_commute [of 0] uint_0_iff)
  then show ?thesis
    by (auto simp: agree_def trapped_def record_of_def same_machine_def cause_ok_def want_retired_def SPIKE_INSTRET_OFFSET_def
        stopped_by_call_def split: option.splits)
qed

section \<open>The runner's record is faithful\<close>

lemma resv_text_inj: "resv_text a = resv_text b \<longleftrightarrow> a = b"
proof -
  have n: "hex8 w \<noteq> ''none''" for w
  proof
    assume "hex8 w = ''none''"
    then have "read_hex ''none'' = Some (unat w)" using read_hex_hex8 [of w] by simp
    then show False by (simp add: read_hex_def hex_undig_def)
  qed
  have "hex8 w = hex8 u \<Longrightarrow> w = u" for w u using read_hex_hex8 [of w] read_hex_hex8 [of u] by (simp add: word_unat_eq_iff)
  then show ?thesis using n n [symmetric] by (auto simp: resv_text_def split: option.splits)
qed

lemma record_of_inj: "record_of v = record_of u \<longleftrightarrow> v = u"
proof
  assume e: "record_of v = record_of u"
  have "hexbytes a = hexbytes b \<Longrightarrow> a = b" for a b using fromhex_hexbytes by (metis option.inject)
  moreover have "map (\<lambda>w. int (unat w)) a = map (\<lambda>w. int (unat w)) b \<Longrightarrow> a = b" for a b :: "32 word list"
    by (rule map_injective [of _ _ _]) (auto intro!: injI)
  ultimately show "v = u" using e by (intro run_end.equality) (auto simp: record_of_def resv_text_inj word_uint_eq_iff)
qed simp

section \<open>From the printed records to the judgement\<close>

definition end_of :: "(string \<times> string \<times> run_end) list \<Rightarrow> string \<Rightarrow> string \<Rightarrow> run_end option" where
  "end_of xs p c = map_of (rev (map (\<lambda>(p, config, v). ((p, config), v)) xs)) (p, c)"

lemma run_printed:
  assumes "prc [runner, man] = (0, printed xs, err)" "list_all clean xs"
  obtains det where "run_runner prc runner man = Some det"
    "\<And>p c. lookup_record det p c = map_option record_of (end_of xs p c)"
proof
  show "run_runner prc runner man = Some (fold put_record xs Map.empty)"
    using assms by (simp add: run_runner_def splitlines_printed add_records_printed)
  have "rev (map (\<lambda>(p, config, v). ((p, config), record_of v)) xs) = map (\<lambda>(k, v). (k, record_of v)) (rev (map (\<lambda>(p, config, v). ((p, config), v)) xs))"
    by (simp add: rev_map comp_def case_prod_beta)
  then have e: "map_of (rev (map (\<lambda>(p, config, v). ((p, config), record_of v)) xs)) (p, c) = map_option record_of (end_of xs p c)" for p c
    unfolding end_of_def by (simp only: map_of_map comp_def)
  have "lookup_record Map.empty p c = None" for p c by (simp add: lookup_record_def)
  then show "lookup_record (fold put_record xs Map.empty) p c = map_option record_of (end_of xs p c)" for p c
    unfolding lookup_fold e by (simp split: option.split)
qed

lemma judge_ends:
  assumes r: "p_result r = Ready binf syms (Some words) nt" "spike_state words syms = Some (trapped m h)" "4 dvd length m"
    and det: "\<And>c. c \<in> set CONFIGS \<Longrightarrow> lookup_record det binf c = Some (record_of (v c))" and full: "full_end (v ''cache'')"
  shows "\<exists>t'. judge det keep r t = Some t' \<and>
    bad_total t' = bad_total t + (if same_machine m h (v ''cache'') \<and> list_all (\<lambda>c. v c = v ''cache'') CONFIGS then 0 else 1)"
proof -
  obtain rec where rec: "det binf = Some rec" using det [of "''cache''"] by (auto simp: CONFIGS_def lookup_record_def split: option.splits)
  have c: "rec c = Some (record_of (v c))" if "c \<in> set CONFIGS" for c
    using det [OF that] rec by (simp add: lookup_record_def)
  then have cache: "rec ''cache'' = Some (record_of (v ''cache''))" by (simp add: CONFIGS_def)
  have "\<exists>ds. compare (trapped m h) (record_of (v ''cache'')) = Some ds \<and> (ds = [] \<longleftrightarrow> agree (trapped m h) (record_of (v ''cache'')))"
    by (rule compare_agree) (use full r(3) in \<open>simp_all add: trapped_def record_of_def full_end_def\<close>)
  then obtain ds where ds: "compare (trapped m h) (record_of (v ''cache'')) = Some ds" "ds = [] \<longleftrightarrow> same_machine m h (v ''cache'')"
    by (auto simp: agree_trapped)
  have "compare_configs rec = [] \<longleftrightarrow> (\<exists>d. \<forall>c \<in> set CONFIGS. rec c = Some d)" by (rule configs_equal)
  also have "\<dots> \<longleftrightarrow> (\<forall>c \<in> set CONFIGS. record_of (v c) = record_of (v ''cache''))"
    using c by (auto simp: CONFIGS_def)
  also have "\<dots> \<longleftrightarrow> list_all (\<lambda>c. v c = v ''cache'') CONFIGS" by (simp add: record_of_inj list_all_iff)
  finally have dd: "compare_configs rec = [] \<longleftrightarrow> list_all (\<lambda>c. v c = v ''cache'') CONFIGS" .
  show ?thesis
    using r(1,2) rec cache ds dd by (simp add: judge_def Let_def)
qed

text \<open>C2. The differential test decides what it is for. Take a program whose run on Spike trapped in the state \<open>h\<close> with the image
  \<open>ws\<close> in memory, so that its signature is the image and what the trap handler saved, and a runner that printed an
  end for each of its configurations. Then the runner's output is read and the judgement does not raise, and the program counts as
  bad exactly when the configurations' ends differ or the two machines did not stop in the same state: x1 to x31, x0,
  mscratch, the trap's address and cause, the instructions retired by the test, and every byte of memory.\<close>

theorem divergence_found_iff:
  assumes "adr ''trap_dump'' + 192 \<le> adr ''tohost''" and "syms ''trap_dump'' = Some (int LOAD_ADDR + 4 * int (length ws))"
    and "pack_le ws = Some m"
    and "p_result r = Ready binf syms (Some (ws @ dump_words adr (handle adr h) @ rest)) nt"
    and "prc [runner, man] = (0, printed xs, err)" and "list_all clean xs"
    and "list_all (\<lambda>c. end_of xs binf c = Some (v c)) CONFIGS" and "full_end (v ''cache'')"
  shows "\<exists>det t'. run_runner prc runner man = Some det \<and> judge det keep r t = Some t' \<and>
    bad_total t' = bad_total t + (if same_machine m h (v ''cache'') \<and> list_all (\<lambda>c. v c = v ''cache'') CONFIGS then 0 else 1)"
proof -
  obtain det where det: "run_runner prc runner man = Some det" "\<And>p c. lookup_record det p c = map_option record_of (end_of xs p c)"
    using run_printed [of prc runner man xs err, OF assms(5,6)] by metis
  have "spike_state (ws @ dump_words adr (handle adr h) @ rest) syms = Some (trapped m h)"
    unfolding trapped_def using assms(1-3) by (rule handler_state)
  moreover have "4 dvd length m" using pack_le_length [OF assms(3)] by simp
  moreover have "lookup_record det binf c = Some (record_of (v c))" if "c \<in> set CONFIGS" for c
    using assms(7) that by (simp add: det(2) list_all_iff)
  ultimately have "\<exists>t'. judge det keep r t = Some t' \<and>
    bad_total t' = bad_total t + (if same_machine m h (v ''cache'') \<and> list_all (\<lambda>c. v c = v ''cache'') CONFIGS then 0 else 1)"
    using judge_ends [where v = v, OF assms(4) _ _ _ assms(8)] by metis
  then show ?thesis using det(1) by blast
qed

definition calm_hart :: hart where
  "calm_hart = \<lparr>xr = (\<lambda>_. 0), cr = (\<lambda>c. if c = MINSTRET then 8 else if c = MCAUSE then 3 else if c = MEPC then 0x1000C else 0), ram = (\<lambda>_. 0)\<rparr>"

definition called_prog :: prog where
  "called_prog = \<lparr>p_mix = ''alu'', p_seed = 0, p_asm = ''s0.s'', p_result =
     Ready ''a.bin'' [''trap_dump'' \<mapsto> 0x10004] (Some ([0x100073] @ dump_words sample_adr (handle sample_adr calm_hart) @ [])) []\<rparr>"

definition three_ends :: "(string \<times> string \<times> run_end) list" where
  "three_ends = map (\<lambda>c. (''a.bin'', c, sample_end)) CONFIGS"

theorem divergence_found_iff_witness:
  "\<exists>det t'. run_runner (\<lambda>_. (0, printed three_ends, [])) ''runner'' ''m.txt'' = Some det \<and>
     judge det False called_prog start_tally = Some t' \<and> bad_total t' = 0"
proof -
  have "list_all clean three_ends" by (simp add: three_ends_def CONFIGS_def clean_def plain_def is_space_def sample_end_def)
  moreover have "list_all (\<lambda>c. end_of three_ends ''a.bin'' c = Some sample_end) CONFIGS" by (simp add: three_ends_def CONFIGS_def end_of_def)
  moreover have "full_end sample_end" unfolding full_end_def by (simp add: sample_end_def eval_nat_numeral)
  moreover have "pack_le [0x100073] = Some [0x73, 0, 0x10, 0]" by (simp add: le32_def)
  moreover have "same_machine [0x73, 0, 0x10, 0] calm_hart sample_end"
    by (simp add: same_machine_def calm_hart_def sample_end_def stopped_by_call_def CAUSES_def map_replicate_const)
  moreover have "list_all (\<lambda>c. sample_end = sample_end) CONFIGS" by (simp add: list_all_iff)
  ultimately show ?thesis
    using divergence_found_iff [of sample_adr "[''trap_dump'' \<mapsto> 0x10004]" "[0x100073]" "[0x73, 0, 0x10, 0]" called_prog "''a.bin''"
        calm_hart "[]" "[]" "\<lambda>_. (0, printed three_ends, [])" "''runner''" "''m.txt''" three_ends "[]" "\<lambda>_. sample_end" False start_tally]
    by (simp add: sample_adr_def LOAD_ADDR_def called_prog_def start_tally_def)
qed

end
