(* ===== verification/Directed_Tests.thy ===== *)
theory Directed_Tests
  imports Template
begin

text \<open>
  The table of edge-case programs of \<^verbatim>\<open>tools/spike_diff/directed.py\<close>: the operands, the bodies that loops build, the
  encoders of instructions that the assembler does not write, and \<open>TESTS\<close> in the order of the file. The notes
  of the tests are documentation and are left out.
\<close>

unbundle bit_operations_syntax

section \<open>Tests and encoders\<close>

record dtest =
  d_name :: string
  d_expect :: string
  d_show :: "nat list"
  d_args :: "string list"
  d_body :: "string list"

definition test :: "string \<Rightarrow> string \<Rightarrow> nat list \<Rightarrow> string list \<Rightarrow> string list \<Rightarrow> dtest" where
  "test name expect shown spike_args body =
     \<lparr>d_name = name, d_expect = expect, d_show = shown, d_args = spike_args, d_body = body\<rparr>"

definition rvc_block :: "string list \<Rightarrow> string list" where
  "rvc_block ls = [''.option rvc''] @ ls @ [''.option norvc'']"

definition h16 :: "nat \<Rightarrow> string" where
  "h16 v = ''.2byte 0x'' @ zfill 4 (hex_nat v)"

definition w32 :: "nat \<Rightarrow> string" where
  "w32 v = ''.4byte 0x'' @ zfill 8 (hex_nat v)"

definition rtype :: "nat \<Rightarrow> nat \<Rightarrow> nat \<Rightarrow> nat \<Rightarrow> nat \<Rightarrow> nat \<Rightarrow> nat" where
  "rtype f7 rs2 rs1 f3 rd op = push_bit 25 f7 OR push_bit 20 rs2 OR push_bit 15 rs1 OR push_bit 12 f3 OR push_bit 7 rd OR op"

definition itype :: "int \<Rightarrow> nat \<Rightarrow> nat \<Rightarrow> nat \<Rightarrow> nat \<Rightarrow> nat" where
  "itype imm rs1 f3 rd op = push_bit 20 (nat (imm AND 0xFFF)) OR push_bit 15 rs1 OR push_bit 12 f3 OR push_bit 7 rd OR op"

definition A0 :: nat where "A0 = 10"
definition A1 :: nat where "A1 = 11"
definition A2 :: nat where "A2 = 12"
definition A3 :: nat where "A3 = 13"
definition A4 :: nat where "A4 = 14"
definition A5 :: nat where "A5 = 15"
definition A6 :: nat where "A6 = 16"
definition A7 :: nat where "A7 = 17"
definition S1 :: nat where "S1 = 9"
definition S2 :: nat where "S2 = 18"
definition S3 :: nat where "S3 = 19"
definition S4 :: nat where "S4 = 20"
definition S5 :: nat where "S5 = 21"
definition S6 :: nat where "S6 = 22"
definition S7 :: nat where "S7 = 23"
definition S8 :: nat where "S8 = 24"
definition S9 :: nat where "S9 = 25"
definition S10 :: nat where "S10 = 26"
definition S11 :: nat where "S11 = 27"

lemmas reg_defs = A0_def A1_def A2_def A3_def A4_def A5_def A6_def A7_def S1_def S2_def S3_def S4_def S5_def S6_def S7_def
  S8_def S9_def S10_def S11_def

section \<open>Operands\<close>

definition M_PAIRS :: "(nat \<times> nat) list" where
  "M_PAIRS =
     [(0x80000000, 0xFFFFFFFF), (0x80000000, 0), (0, 0), (5, 0), (0xFFFFFFFB, 0), (7, 0xFFFFFFFE), (0xFFFFFFF9, 2),
     (0xFFFFFFF9, 0xFFFFFFFE), (0x7FFFFFFF, 0xFFFFFFFF), (0x80000000, 1), (0x80000000, 0x80000000), (0xFFFFFFFF, 0xFFFFFFFF),
     (0x7FFFFFFF, 0x7FFFFFFF), (0x80000000, 0x7FFFFFFF), (1, 0xFFFFFFFF), (0xFFFFFFFF, 1), (0x12345678, 0x9ABCDEF0),
     (0xFFFFFFFF, 0x80000000), (0x7FFFFFFF, 0x80000000)]"

definition CMP_PAIRS :: "(nat \<times> nat) list" where
  "CMP_PAIRS =
     [(0, 0), (5, 5), (0xFFFFFFFF, 0xFFFFFFFF), (0x80000000, 0x80000000), (0x7FFFFFFF, 0x7FFFFFFF), (4, 5), (5, 4),
     (0x7FFFFFFF, 0x80000000), (0x80000000, 0x7FFFFFFF), (0xFFFFFFFF, 0), (0, 0xFFFFFFFF)]"

definition SH_VALUES :: "nat list" where
  "SH_VALUES =
     [0x80000001, 0xFFFFFFFF, 0x12345678, 1]"

definition SH_AMTS :: "nat list" where
  "SH_AMTS =
     [0, 1, 0x1F, 0x20, 0x21, 0x3F, 0x40, 0xFFFFFFFF, 0x80000005, 0x7FFFFFE0]"

definition UN_VALUES :: "nat list" where
  "UN_VALUES =
     [0, 0xFFFFFFFF, 0x80000000, 1, 0x10000, 0x80, 0x8000, 0x7F, 0x7FFF, 0xFF0000, 0x1000000, 0x12345678, 0x800080, 0x80008000]"

definition M_OPS :: "string list" where
  "M_OPS =
     [''mul'', ''mulh'', ''mulhsu'', ''mulhu'', ''div'', ''divu'', ''rem'', ''remu'']"

definition SH_OPS :: "string list" where
  "SH_OPS =
     [''sll'', ''srl'', ''sra'', ''rol'', ''ror'', ''bclr'', ''bext'', ''binv'', ''bset'']"

definition CMP_OPS :: "string list" where
  "CMP_OPS =
     [''slt'', ''sltu'', ''min'', ''minu'', ''max'', ''maxu'']"

definition UN_OPS :: "string list" where
  "UN_OPS =
     [''clz a2, a0'', ''ctz a2, a0'', ''cpop a2, a0'', ''orc.b a2, a0'', ''rev8 a2, a0'', ''sext.b a2, a0'', ''sext.h a2, a0'',
     ''zext.h a2, a0'', ''rori a2, a0, 0'', ''rori a2, a0, 1'', ''rori a2, a0, 31'', ''slli a2, a0, 0'', ''slli a2, a0, 31'',
     ''srli a2, a0, 31'', ''srai a2, a0, 31'', ''srai a2, a0, 0'', ''bclri a2, a0, 31'', ''bexti a2, a0, 31'',
     ''binvi a2, a0, 0'', ''bseti a2, a0, 31'', ''bexti a2, a0, 0'', ''sltiu a2, a0, -1'', ''slti a2, a0, -2048'',
     ''xori a2, a0, -1'']"

definition LRSC_PRE :: "string list" where
  "LRSC_PRE =
     [''li a2, 0xaaaa5555'', ''li a5, 0x0f0f0f0f'']"

section \<open>Bodies that loops build\<close>

text \<open>The loops carry \<open>off\<close>, the offset of the next result in the data region.\<close>

definition sw_gp :: "string \<Rightarrow> nat \<Rightarrow> string" where
  "sw_gp r off = ''sw '' @ r @ '', '' @ dec_nat off @ ''(gp)''"

definition li_hex :: "string \<Rightarrow> nat \<Rightarrow> string" where
  "li_hex r v = ''li '' @ r @ '', 0x'' @ hex_nat v"

fun each :: "('a \<Rightarrow> nat \<Rightarrow> string list \<times> nat) \<Rightarrow> 'a list \<Rightarrow> nat \<Rightarrow> string list \<times> nat" where
  "each f [] off = ([], off)"
| "each f (x # xs) off = (let (ls, off) = f x off; (ls', off) = each f xs off in (ls @ ls', off))"

text \<open>An instruction that writes a2, and the store of its result; the same with the operands a0 and a1.\<close>

definition store_op :: "string \<Rightarrow> nat \<Rightarrow> string list \<times> nat" where
  "store_op line off = ([line, sw_gp ''a2'' off], off + 4)"

definition store_op2 :: "string \<Rightarrow> nat \<Rightarrow> string list \<times> nat" where
  "store_op2 op = store_op (op @ '' a2, a0, a1'')"

definition on_pair :: "string list \<Rightarrow> nat \<times> nat \<Rightarrow> nat \<Rightarrow> string list \<times> nat" where
  "on_pair ops p off =
     (let (ls, off) = each store_op2 ops off in ([li_hex ''a0'' (fst p), li_hex ''a1'' (snd p)] @ ls, off))"

definition t_m_div_rem_mul_edges :: "string list" where
  "t_m_div_rem_mul_edges = fst (each (on_pair M_OPS) M_PAIRS 0)
     @ [''li a3, 0'', ''div a3, a3, a3'', ''li a4, 0'', ''remu a4, a4, a4'',
        ''li a5, 0x80000000'', ''mulh a5, a5, a5'', ''li a6, 0xffffffff'', ''mulhsu a6, a6, a6'']"

definition t_shift_rot_bit_register_amounts :: "string list" where
  "t_shift_rot_bit_register_amounts =
     fst (each (\<lambda>v. each (\<lambda>amt. on_pair SH_OPS (v, amt)) SH_AMTS) SH_VALUES 0)"

definition cmp_op :: "string \<Rightarrow> nat \<Rightarrow> string list \<times> nat" where
  "cmp_op op off =
     ([op @ '' a2, a0, a1'', sw_gp ''a2'' off, op @ '' a3, a0, a0'', sw_gp ''a3'' (off + 4)], off + 8)"

definition cmp_branch :: "string \<Rightarrow> nat \<Rightarrow> string list \<times> nat" where
  "cmp_branch br off = ([''li a2, 0'', br @ '' a0, a1, 1f'', ''li a2, 1'', ''1:'', sw_gp ''a2'' off], off + 4)"

definition cmp_pair :: "nat \<times> nat \<Rightarrow> nat \<Rightarrow> string list \<times> nat" where
  "cmp_pair p off =
     (let (ls, off) = each cmp_op CMP_OPS off;
          (ls', off) = each cmp_branch [''beq'', ''bne'', ''blt'', ''bge'', ''bltu'', ''bgeu''] off
      in ([li_hex ''a0'' (fst p), li_hex ''a1'' (snd p)] @ ls @ ls', off))"

definition cmp_imm :: "int \<Rightarrow> nat \<Rightarrow> string list \<times> nat" where
  "cmp_imm imm off =
     ([''li a0, '' @ dec_int imm, ''slti a2, a0, '' @ dec_int imm, ''sltiu a3, a0, '' @ dec_int imm,
       sw_gp ''a2'' off, sw_gp ''a3'' (off + 4)], off + 8)"

definition t_compare_equal_adjacent_boundary_operands :: "string list" where
  "t_compare_equal_adjacent_boundary_operands =
     (let (ls, off) = each cmp_pair CMP_PAIRS 0; (ls', off) = each cmp_imm [0, 5, -1, -2048, 2047] off in ls @ ls')"

definition t_unary_bitmanip_and_imm_shifts :: "string list" where
  "t_unary_bitmanip_and_imm_shifts =
     fst (each (\<lambda>v off. let (ls, off) = each store_op UN_OPS off in (li_hex ''a0'' v # ls, off)) UN_VALUES 0)"

definition load_at :: "string list \<Rightarrow> nat \<Rightarrow> nat \<Rightarrow> string list \<times> nat" where
  "load_at ops k = each (\<lambda>op. store_op (op @ '' a2, '' @ dec_nat k @ ''(gp)'')) ops"

definition t_load_sign_zero_extension :: "string list" where
  "t_load_sign_zero_extension =
     (let (ls, off) = each (load_at [''lb'', ''lbu'']) [0..<8] 64;
          (ls', off) = each (load_at [''lh'', ''lhu'']) [0, 2, 4, 6] off
      in [''li t0, 0x807fff00'', ''sw t0, 0(gp)'', ''li t0, 0x7fff8000'', ''sw t0, 4(gp)''] @ ls @ ls'
         @ [''addi t1, gp, -1024'', ''lw a3, 2044(t1)'', ''lbu a4, 2047(t1)'', ''sb a3, 2047(t1)'',
            ''sh a3, 2046(t1)'', ''addi t2, gp, 2047'', ''lb a5, -2047(t2)''])"

section \<open>The other bodies\<close>

definition ADDI_A0_100 :: nat where "ADDI_A0_100 = itype 100 A0 0 A0 0x13"
definition ADDI_A0_0x123 :: nat where "ADDI_A0_0x123 = itype 0x123 0 0 A0 0x13"

definition smc_twice :: "bool \<Rightarrow> string list" where
  "smc_twice fence =
     [''li a0, 0'', ''la t0, Lsub'', ''li t1, 0x'' @ hex_nat ADDI_A0_100, ''jal ra, Lsub'', ''mv s2, a0'', ''sw t1, 0(t0)'']
     @ (if fence then [''fence.i''] else [])
     @ [''jal ra, Lsub'', ''mv s3, a0'', ''j Ldone'', ''Lsub: addi a0, a0, 1'', ''ret'', ''Ldone:'']"

definition t_jump_link_values :: "string list" where
  "t_jump_link_values =
     [''jal ra, 1f'', ''1: mv s1, ra''] @ rvc_block [''c.jal 2f''] @ [''2: mv s2, ra'', ''la t0, 3f'', ''jalr ra, 0(t0)'',
     ''3: mv s3, ra'', ''la t0, 4f''] @ rvc_block [''c.jalr t0''] @ [''4: mv s4, ra'', ''la t0, 5f+1'', ''jalr a0, 0(t0)'',
     ''5: mv s5, a0'', ''la t1, 6f'', ''jalr t1, 0(t1)'', ''6: mv s6, t1'', ''la ra, 7f''] @ rvc_block [''c.jalr ra''] @
     [''7: mv s7, ra'', ''la t2, 8f''] @ rvc_block [''c.jr t2''] @ [''li a5, 0xbad'', ''8: la t0, 9f+16'',
     ''jalr a6, -16(t0)'', ''9: mv s8, a6'', ''la t0, 10f-2047+1'', ''jalr a7, 2047(t0)'', ''10: mv s9, a7''] @ rvc_block
     [''c.nop''] @ [''jal s10, 11f'', ''11:''] @ rvc_block [''c.nop''] @ [''beq x0, x0, 12f'', ''li a5, 0xbad2''] @ rvc_block
     [''c.nop''] @ [''12: auipc s11, 0'']"

definition t_far_branch_jump_offsets :: "string list" where
  "t_far_branch_jump_offsets =
     [''jal t3, Lfar_fwd'', ''Lfar_back:'', ''mv s1, t3'', ''mv s2, t4'', ''j Lafter_far'', ''.skip 0x2f000'', ''Lfar_fwd:'',
     ''jal t4, Lfar_back'', ''Lafter_far:'', ''beq x0, x0, Lb_pos'', ''.skip 4090'', ''Lb_pos:'', ''addi s3, x0, 1'',
     ''j Lb_neg_br'', ''Lb_neg_tgt:'', ''addi s4, x0, 2'', ''j Lb_done'', ''.skip 4088'', ''Lb_neg_br:'',
     ''beq x0, x0, Lb_neg_tgt'', ''Lb_done:''] @ rvc_block [''c.j Lcj_pos''] @ [''.skip 2044'', ''Lcj_pos:'',
     ''addi s5, x0, 3'', ''j Lcj_neg_br'', ''Lcj_neg_tgt:'', ''addi s6, x0, 4'', ''j Lcj_done'', ''.skip 2040'',
     ''Lcj_neg_br:''] @ rvc_block [''c.j Lcj_neg_tgt''] @ [''Lcj_done:'', ''li s0, 0''] @ rvc_block [''c.beqz s0, Lcb_pos''] @
     [''.skip 252'', ''Lcb_pos:'', ''addi s7, x0, 5'', ''j Lcb_neg_br'', ''Lcb_neg_tgt:'', ''addi s8, x0, 6'', ''j Lcb_done'',
     ''.skip 248'', ''Lcb_neg_br:''] @ rvc_block [''c.bnez s1, Lcb_neg_tgt''] @ [''Lcb_done:''] @ rvc_block
     [''c.jal Lcjal_pos''] @ [''.skip 2044'', ''Lcjal_pos:'', ''mv t4, ra'']"

definition t_misaligned_lw_spike_emulated :: "string list" where
  "t_misaligned_lw_spike_emulated =
     [''lw a0, 2(gp)'']"

definition t_smc_patch_unexecuted_insn :: "string list" where
  "t_smc_patch_unexecuted_insn =
     [''la t0, 1f'', ''li t1, 0x'' @ hex_nat ADDI_A0_0x123, ''sw t1, 0(t0)'', ''1: addi a0, x0, 0x111'']"

definition t_smc_patch_compressed_fencei :: "string list" where
  "t_smc_patch_compressed_fencei =
     [''li a0, 0'', ''la t0, Lsub'', ''li t1, 0x0515'', ''jal ra, Lsub'', ''mv s2, a0'', ''sh t1, 0(t0)'', ''fence.i'',
     ''jal ra, Lsub'', ''mv s3, a0'', ''j Ldone'', ''Lsub:''] @ rvc_block [''c.addi a0, 1''] @ [''ret'', ''Ldone:'']"

definition t_x0_destination_all_classes :: "string list" where
  "t_x0_destination_all_classes =
     [''li a2, 0x5a5a5a5a'', ''add x0, a1, a2'', ''sub x0, a1, a2'', ''addi x0, a1, 5'', ''slli x0, a1, 3'',
     ''lui x0, 0x12345'', ''auipc x0, 0x1'', ''mul x0, a1, a2'', ''mulhu x0, a1, a2'', ''div x0, a1, x0'', ''remu x0, a1, x0'',
     ''sh1add x0, a1, a2'', ''clz x0, a1'', ''cpop x0, a1'', ''rev8 x0, a1'', ''rori x0, a1, 3'', ''max x0, a1, a2'',
     ''bset x0, a1, a2'', ''bexti x0, a1, 3'', ''lw x0, 0(gp)'', ''lbu x0, 1(gp)'', ''lh x0, 2(gp)'', ''lr.w x0, (gp)'',
     ''sc.w x0, a2, (gp)'', ''addi t1, gp, 4'', ''amoadd.w x0, a2, (t1)'', ''amoswap.w x0, a1, (gp)'',
     ''csrrw x0, mscratch, a2'', ''csrrs x0, mscratch, a1'', ''csrrci x0, mscratch, 1'', ''csrrs x0, cycle, x0'',
     ''csrrsi x0, instret, 0'', ''jal x0, 1f'', ''1: la t0, 2f'', ''jalr x0, 0(t0)'', ''2:'', h16 0x4015, h16 0x6005, h16
     0x802e, h16 0x902e, h16 0x16, h16 0x15, ''add a3, x0, x0'', ''sltu a4, x0, a1'']"

definition t_x0_load_out_of_bounds_faults :: "string list" where
  "t_x0_load_out_of_bounds_faults =
     [''li t1, 0x50000'', ''lw x0, 0(t1)'']"

definition t_x0_load_misaligned_faults :: "string list" where
  "t_x0_load_misaligned_faults =
     [''lw x0, 2(gp)'']"

definition t_x0_jalr_to_unmapped :: "string list" where
  "t_x0_jalr_to_unmapped =
     [''li t1, 0x60000'', ''jalr x0, 0(t1)'']"

definition t_csr_readonly_counter_reads :: "string list" where
  "t_csr_readonly_counter_reads =
     [''csrrs a0, cycle, x0'', ''csrrc a1, cycle, x0'', ''csrrsi a2, cycle, 0'', ''csrrci a3, cycle, 0'',
     ''csrrs a4, instret, x0'', ''csrrc a5, instret, x0'', ''csrrsi a6, instret, 0'', ''csrrci a7, instret, 0'',
     ''csrrs s2, cycleh, x0'', ''csrrs s3, instreth, x0'', ''csrrsi s4, cycleh, 0'', ''csrrs x0, cycle, x0'', ''nop'', ''nop'',
     ''csrrs s5, cycle, x0'', ''sub a1, a1, a0'', ''sub a2, a2, a0'', ''sub a3, a3, a0'', ''sub a4, a4, a0'',
     ''sub a5, a5, a0'', ''sub a6, a6, a0'', ''sub a7, a7, a0'', ''sub s5, s5, a0'', ''li a0, 0'']"

definition t_csr_counter_delta_across_loop :: "string list" where
  "t_csr_counter_delta_across_loop =
     [''csrr a0, instret'', ''li t1, 100'', ''1: addi t1, t1, -1'', ''bnez t1, 1b'', ''csrr a1, instret'', ''csrr a2, cycle'',
     ''sub a2, a2, a0'', ''sub a1, a1, a0'', ''li a0, 0'']"

definition t_mscratch_roundtrip :: "string list" where
  "t_mscratch_roundtrip =
     [''li a0, 0x12345678'', ''csrrw a1, mscratch, a0'', ''csrrs a2, mscratch, x0'', ''li a3, 0xf0'',
     ''csrrs a4, mscratch, a3'', ''csrrc a5, mscratch, a3'', ''csrrwi a6, mscratch, 31'', ''csrrsi a7, mscratch, 0'',
     ''csrrci s2, mscratch, 1'', ''csrr s3, mscratch'', ''csrrw a0, mscratch, a0'']"

definition t_ecall_stops_pc_advanced :: "string list" where
  "t_ecall_stops_pc_advanced =
     [''ecall'', ''li a3, 0x77'']"

definition t_c_ebreak_stops_pc_advanced :: "string list" where
  "t_c_ebreak_stops_pc_advanced =
     rvc_block [''c.ebreak''] @ [''li a3, 0x77'']"

definition t_fence_variants_are_nops :: "string list" where
  "t_fence_variants_are_nops =
     [''fence'', ''fence.tso'', w32 0x100000f, ''fence.i'', w32 (0x0000100F OR push_bit 7 5 OR push_bit 15 6 OR push_bit 20
     0x123), w32 (0x0FF0000F OR push_bit 7 7 OR push_bit 15 9), ''li a3, 0x77'']"

definition t_fetch_unmapped_target :: "string list" where
  "t_fetch_unmapped_target =
     [''li t0, 0x50000'', ''jr t0'']"

definition t_fetch_32bit_straddling_end :: "string list" where
  "t_fetch_32bit_straddling_end =
     [''li t0, 0x4fffe'', ''li t1, 0x0013'', ''sh t1, 0(t0)'', ''jr t0'']"

definition t_fetch_16bit_at_last_halfword :: "string list" where
  "t_fetch_16bit_at_last_halfword =
     [''li t0, 0x4fffe'', ''li t1, 0x9002'', ''sh t1, 0(t0)'', ''jr t0'']"

definition t_fetch_32bit_at_last_word :: "string list" where
  "t_fetch_32bit_at_last_word =
     [''li t0, 0x4fffc'', ''li t1, 0x00100073'', ''sw t1, 0(t0)'', ''jr t0'']"

definition t_access_last_bytes_ok :: "string list" where
  "t_access_last_bytes_ok =
     [''li t0, 0x4fffc'', ''li a3, 0x8899aabb'', ''sw a3, 0(t0)'', ''lw a0, 0(t0)'', ''lbu a1, 3(t0)'', ''lh a2, 2(t0)'',
     ''sb a3, 3(t0)'', ''sh a3, 2(t0)'', ''lw a4, 0(t0)'']"

definition HINTS :: "nat list" where
  "HINTS =
     [0x0015, 0x107D, 0x0501, 0x4015, 0x6005, 0x707D, 0x802E, 0x902E, 0x0016, 0x0502, 0x8001, 0x8481, 0x0002, 0x0001, 0x1001 OR
     push_bit 7 10]"

definition RESERVED_RVC :: "(string \<times> nat) list" where
  "RESERVED_RVC =
     [(''c_addi4spn_zero_x8'', 0x0000), (''c_addi4spn_zero_x9'', 0x0004), (''c_lwsp_rd0'', 0x4002), (''c_jr_rs0'', 0x8002),
     (''c_addi16sp_zero'', 0x6101), (''c_lui_x5_zero'', 0x6281), (''c_lui_x0_zero'', 0x6001), (''c_srli_shamt5'', 0x9001),
     (''c_srai_shamt5'', 0x9401), (''c_slli_shamt5'', 0x1082), (''c_subw'', 0x9C01), (''c_addw'', 0x9C21),
     (''c_q1_reserved_10'', 0x9C41), (''c_q1_reserved_11'', 0x9C61), (''c_fld'', 0x2000), (''c_flw'', 0x6000), (''c_fsd'',
     0xA000), (''c_fsw'', 0xE000), (''c_fldsp'', 0x2002), (''c_flwsp'', 0x6002), (''c_fsdsp'', 0xA002), (''c_fswsp'', 0xE002),
     (''c_q0_reserved_100'', 0x8000)]"

definition t_rvc_hints :: "string list" where
  "t_rvc_hints = map h16 HINTS @ [''mv a1, a0'']"

section \<open>Families of tests\<close>

definition lrsc :: "string \<Rightarrow> string \<Rightarrow> string list \<Rightarrow> dtest" where
  "lrsc name expect body = test name expect [A0, A1, A3, A4, A6] [] (LRSC_PRE @ body)"

definition misaligned :: "string \<Rightarrow> string list \<Rightarrow> dtest" where
  "misaligned name body = test name ''match'' [A0] [] ([''li a2, 0x11223344''] @ body)"

definition csr_fault :: "string \<Rightarrow> string \<Rightarrow> dtest" where
  "csr_fault name line = test name ''match'' [A0] [] [''li a0, 0x0a0a0a0a'', ''li a1, 0'', line, ''li a3, 0x77'']"

definition csr_unsupported :: "string \<Rightarrow> dtest" where
  "csr_unsupported name =
     test (''csr_unsupported_'' @ name) (if name = ''hpmcounter3'' then ''match'' else ''unsupported-csr'') [A0] []
       [''csrr a0, '' @ name, ''li a3, 0x77'']"

definition rvc_reserved :: "string \<times> nat \<Rightarrow> dtest" where
  "rvc_reserved r = test (''rvc_reserved_'' @ fst r) ''match'' [] [] [h16 (snd r), ''li a3, 0x77'']"

definition reserved :: "string \<times> nat \<Rightarrow> dtest" where
  "reserved r = test (''reserved_'' @ fst r) ''match'' [A0] [] [w32 (snd r), ''li a3, 0x77'']"

definition out_of_bounds :: "string \<times> string list \<Rightarrow> dtest" where
  "out_of_bounds r = test (''oob_'' @ fst r) ''match'' [A0] [] (snd r)"

definition DIRECTED_RESERVED_32 :: "(string \<times> nat) list" where
  "DIRECTED_RESERVED_32 =
     [(''ebreak_rd_nonzero'', 0x00100073 OR push_bit 7 1), (''ecall_rs1_nonzero'', 0x00000073 OR push_bit 15 1),
      (''ecall_rd_rs1_nonzero'', 0x00000073 OR push_bit 7 31 OR push_bit 15 31),
      (''jalr_funct3_nonzero'', 0x00000067 OR push_bit 12 1),
      (''slli_shamt5'', 0x02001013), (''srai_shamt5'', 0x4200D013), (''rori_shamt5'', 0x6200D013), (''bseti_shamt5'', 0x2A001013)]"

definition UNSUPPORTED_CSRS :: "string list" where
  "UNSUPPORTED_CSRS = [''mstatus'', ''misa'', ''mhartid'', ''sscratch'', ''hpmcounter3'', ''time'']"

definition OOB :: "(string \<times> string list) list" where
  "OOB =
     [(''lw_past_end'', [''li t0, 0x50000'', ''lw a0, 0(t0)'']),
      (''lb_past_end'', [''li t0, 0x50000'', ''lb a0, 0(t0)'']),
      (''sw_past_end'', [''li t0, 0x50000'', ''sw a2, 0(t0)'']),
      (''sh_past_end'', [''li t0, 0x4fffe'', ''sh a2, 2(t0)'']),
      (''lw_misaligned_at_end'', [''li t0, 0x4fffe'', ''lw a0, 0(t0)'']),
      (''lw_top_of_address_space'', [''li t0, 0xfffffffc'', ''lw a0, 0(t0)'']),
      (''sb_top_of_address_space'', [''li t0, 0xffffffff'', ''sb a2, 0(t0)''])]"

definition lrsc_tests :: "dtest list" where
  "lrsc_tests = [
      lrsc ''lrsc_success'' ''match'' ([''lr.w a0, (gp)'', ''sc.w a1, a2, (gp)'', ''lw a3, 0(gp)'']),
      lrsc ''sc_without_lr'' ''match'' ([''sc.w a1, a2, (gp)'', ''lw a3, 0(gp)'']),
      lrsc ''sc_other_address'' ''match'' ([''lr.w a0, (gp)'', ''addi t1, gp, 4'', ''sc.w a1, a2, (t1)'',
      ''sc.w a4, a2, (gp)'', ''lw a3, 0(gp)'']),
      lrsc ''lr_sw_same_word_sc'' ''same-hart-store'' ([''lr.w a0, (gp)'', ''sw a5, 0(gp)'', ''sc.w a1, a2, (gp)'',
      ''lw a3, 0(gp)'']),
      lrsc ''lr_sb_same_word_sc'' ''same-hart-store'' ([''lr.w a0, (gp)'', ''sb a5, 3(gp)'', ''sc.w a1, a2, (gp)'',
      ''lw a3, 0(gp)'']),
      lrsc ''lr_sh_same_word_sc'' ''same-hart-store'' ([''lr.w a0, (gp)'', ''sh a5, 2(gp)'', ''sc.w a1, a2, (gp)'',
      ''lw a3, 0(gp)'']),
      lrsc ''lr_sw_other_word_sc'' ''match'' ([''lr.w a0, (gp)'', ''sw a5, 4(gp)'', ''sc.w a1, a2, (gp)'', ''lw a3, 0(gp)'']),
      lrsc ''lr_amo_same_word_sc'' ''same-hart-store'' ([''lr.w a0, (gp)'', ''amoadd.w a6, a5, (gp)'', ''sc.w a1, a2, (gp)'',
      ''lw a3, 0(gp)'']),
      lrsc ''lr_amo_other_word_sc'' ''match'' ([''addi t1, gp, 8'', ''lr.w a0, (gp)'', ''amoor.w a6, a5, (t1)'',
      ''sc.w a1, a2, (gp)'', ''lw a3, 0(gp)'']),
      lrsc ''lr_sc_sc'' ''match'' ([''lr.w a0, (gp)'', ''sc.w a1, a2, (gp)'', ''sc.w a4, a5, (gp)'', ''lw a3, 0(gp)'']),
      lrsc ''lr_lr_sc'' ''match'' ([''addi t1, gp, 4'', ''lr.w a0, (gp)'', ''lr.w a6, (t1)'', ''sc.w a1, a2, (gp)'',
      ''sc.w a4, a2, (t1)'', ''lw a3, 0(gp)'']),
      lrsc ''lr_x0_then_sc'' ''match'' ([''lr.w x0, (gp)'', ''sc.w a1, a2, (gp)'', ''lw a3, 0(gp)'']),
      lrsc ''sc_rd_x0'' ''match'' ([''lr.w a0, (gp)'', ''sc.w x0, a2, (gp)'', ''lw a3, 0(gp)'']),
      lrsc ''amo_rd_x0'' ''match'' ([''amoswap.w x0, a2, (gp)'', ''lw a3, 0(gp)'', ''addi t1, gp, 4'',
      ''amomaxu.w x0, a2, (t1)'', ''lw a4, 4(gp)'']),
      lrsc ''amo_rd_eq_rs1_rs2'' ''match'' ([''mv t1, gp'', ''amoadd.w t1, t1, (t1)'', ''mv a6, gp'',
      ''amoswap.w a6, a6, (a6)'', ''lw a3, 0(gp)'']),
      lrsc ''sc_misaligned_no_reservation'' ''match'' ([''addi t1, gp, 2'', ''sc.w a1, a2, (t1)'', ''li a4, 0x77'']),
      lrsc ''sc_misaligned_with_reservation'' ''match'' ([''lr.w a0, (gp)'', ''addi t1, gp, 1'', ''sc.w a1, a2, (t1)'',
      ''li a4, 0x77'']),
      lrsc ''sc_out_of_bounds_no_reservation'' ''match'' ([''li t1, 0x50000'', ''sc.w a1, a2, (t1)'', ''li a4, 0x77'']),
      lrsc ''sc_far_out_of_bounds'' ''match'' ([''li t1, 0x80000000'', ''sc.w a1, a2, (t1)'', ''li a4, 0x77'']),
      lrsc ''amo_misaligned'' ''match'' ([''addi t1, gp, 2'', ''amoadd.w a1, a2, (t1)'']),
      lrsc ''amo_out_of_bounds'' ''match'' ([''li t1, 0x50000'', ''amoswap.w a1, a2, (t1)'']),
      lrsc ''lr_misaligned'' ''match'' ([''addi t1, gp, 2'', ''lr.w a0, (t1)'']),
      lrsc ''lr_out_of_bounds'' ''match'' ([''li t1, 0x50000'', ''lr.w a0, (t1)'']),
      lrsc ''lr_rs2_nonzero_encoding'' ''match'' ([''li a0, 0'', w32 (rtype 0x8 5 3 2 A0 0x2F), ''sc.w a1, a2, (gp)'']),
      lrsc ''lr_then_6000_insns_then_sc'' ''spike-reservation-quantum'' ([''lr.w a0, (gp)'', ''li t1, 3000'',
      ''1: addi t1, t1, -1'', ''bnez t1, 1b'', ''sc.w a1, a2, (gp)'', ''lw a3, 0(gp)''])]"

definition misaligned_tests :: "dtest list" where
  "misaligned_tests = [
      misaligned ''misaligned_lh'' ([''lh a0, 1(gp)'']),
      misaligned ''misaligned_lhu'' ([''lhu a0, 3(gp)'']),
      misaligned ''misaligned_lw_1'' ([''lw a0, 1(gp)'']),
      misaligned ''misaligned_lw_2'' ([''lw a0, 2(gp)'']),
      misaligned ''misaligned_lw_3'' ([''lw a0, 3(gp)'']),
      misaligned ''misaligned_sh'' ([''sh a2, 1(gp)'']),
      misaligned ''misaligned_sw'' ([''sw a2, 2(gp)'']),
      misaligned ''misaligned_c_lw'' ([''addi s1, gp, 2''] @ rvc_block [''c.lw a0, 0(s1)'']),
      misaligned ''misaligned_c_swsp'' ([''addi sp, gp, 1''] @ rvc_block [''c.swsp a2, 0(sp)''])]"

definition csr_fault_tests :: "dtest list" where
  "csr_fault_tests = [
      csr_fault ''csrrw_x0_cycle_faults'' ''csrrw x0, cycle, a2'',
      csr_fault ''csrrw_rd_cycle_faults'' ''csrrw a0, cycle, a2'',
      csr_fault ''csrrs_rs1_nonzero_reg_zero_value_faults'' ''csrrs a0, cycle, a1'',
      csr_fault ''csrrc_rs1_nonzero_instret_faults'' ''csrrc a0, instret, a2'',
      csr_fault ''csrrsi_nonzero_cycle_faults'' ''csrrsi a0, cycle, 1'',
      csr_fault ''csrrci_nonzero_instreth_faults'' ''csrrci a0, instreth, 4'',
      csr_fault ''csrrwi_zero_cycle_faults'' ''csrrwi a0, cycle, 0'',
      csr_fault ''csrrwi_x0_cycleh_faults'' ''csrrwi x0, cycleh, 0'']"

section \<open>The table\<close>

definition TESTS :: "dtest list" where
  "TESTS =
     [test ''m_div_rem_mul_edges'' ''match'' [] [] t_m_div_rem_mul_edges,
      test ''shift_rot_bit_register_amounts'' ''match'' [] [] t_shift_rot_bit_register_amounts,
      test ''compare_equal_adjacent_boundary_operands'' ''match'' [] [] t_compare_equal_adjacent_boundary_operands,
      test ''unary_bitmanip_and_imm_shifts'' ''match'' [] [] t_unary_bitmanip_and_imm_shifts,
      test ''load_sign_zero_extension'' ''match'' [] [] t_load_sign_zero_extension,
      test ''jump_link_values'' ''match'' [S1, S2, S3, S4, S5, S6, S7, S8, S9, S10, S11] [] t_jump_link_values,
      test ''far_branch_jump_offsets'' ''match'' [S1, S2, S3, S4, S5, S6, S7, S8, 28, 29] [] t_far_branch_jump_offsets]
     @ lrsc_tests @ misaligned_tests
     @ [test ''misaligned_lw_spike_emulated'' ''spike-misaligned-emulation'' [A0] [''--misaligned''] t_misaligned_lw_spike_emulated,
      test ''smc_patch_unexecuted_insn'' ''match'' [A0] [] t_smc_patch_unexecuted_insn,
      test ''smc_patch_executed_insn_no_fencei'' ''smc-no-fencei'' [S2, S3] [] (smc_twice False),
      test ''smc_patch_executed_insn_fencei'' ''match'' [S2, S3] [] (smc_twice True),
      test ''smc_patch_compressed_fencei'' ''match'' [S2, S3] [] t_smc_patch_compressed_fencei,
      test ''x0_destination_all_classes'' ''match'' [A3, A4] [] t_x0_destination_all_classes,
      test ''x0_load_out_of_bounds_faults'' ''match'' [A0] [] t_x0_load_out_of_bounds_faults,
      test ''x0_load_misaligned_faults'' ''match'' [A0] [] t_x0_load_misaligned_faults,
      test ''x0_jalr_to_unmapped'' ''match'' [A0] [] t_x0_jalr_to_unmapped,
      test ''csr_readonly_counter_reads'' ''match'' [A1, A2, A3, A4, A5, A6, A7, S2, S3, S4, S5] [] t_csr_readonly_counter_reads,
      test ''csr_counter_delta_across_loop'' ''match'' [A1, A2] [] t_csr_counter_delta_across_loop]
     @ csr_fault_tests
     @ [test ''mscratch_roundtrip'' ''match'' [A1, A2, A4, A5, A6, A7, S2, S3] [] t_mscratch_roundtrip]
     @ map csr_unsupported UNSUPPORTED_CSRS
     @ [test ''rvc_hints_behave_as_expansion'' ''match'' [] [] t_rvc_hints]
     @ map rvc_reserved RESERVED_RVC @ map reserved DIRECTED_RESERVED_32
     @ [test ''ecall_stops_pc_advanced'' ''match'' [] [] t_ecall_stops_pc_advanced,
      test ''c_ebreak_stops_pc_advanced'' ''match'' [] [] t_c_ebreak_stops_pc_advanced,
      test ''fence_variants_are_nops'' ''match'' [] [] t_fence_variants_are_nops,
      test ''fetch_unmapped_target'' ''match'' [A0] [] t_fetch_unmapped_target,
      test ''fetch_32bit_straddling_end'' ''match'' [A0] [] t_fetch_32bit_straddling_end,
      test ''fetch_16bit_at_last_halfword'' ''match'' [A0] [] t_fetch_16bit_at_last_halfword,
      test ''fetch_32bit_at_last_word'' ''match'' [A0] [] t_fetch_32bit_at_last_word,
      test ''access_last_bytes_ok'' ''match'' [A0, A1, A2, A4] [] t_access_last_bytes_ok]
     @ map out_of_bounds OOB"

end
