(* ===== verification/Coverage.thy ===== *)
theory Coverage
  imports Gen_Mem PyBytes
begin

text \<open>
  \<^verbatim>\<open>tools/spike_diff/coverage.py\<close>: the counters it keeps over Spike's execution log, and its
  classification of RVC HINT encodings, against the encodings the generator emits.
\<close>

section \<open>Tables\<close>

definition EXPECTED :: "string list" where
  "EXPECTED =
    [''add'', ''sub'', ''sll'', ''slt'', ''sltu'', ''xor'', ''srl'', ''sra'', ''or'', ''and'', ''addi'', ''slti'',
     ''sltiu'', ''xori'', ''ori'', ''andi'', ''slli'', ''srli'', ''srai'', ''lb'', ''lh'', ''lw'', ''lbu'',
     ''lhu'', ''sb'', ''sh'', ''sw'', ''beq'', ''bne'', ''blt'', ''bge'', ''bltu'', ''bgeu'', ''lui'', ''auipc'',
     ''jal'', ''jalr'', ''fence'', ''fence.i'', ''ecall'', ''ebreak'', ''mul'', ''mulh'', ''mulhsu'', ''mulhu'',
     ''div'', ''divu'', ''rem'', ''remu'', ''lr.w'', ''sc.w'', ''amoswap.w'', ''amoadd.w'', ''amoxor.w'',
     ''amoand.w'', ''amoor.w'', ''amomin.w'', ''amomax.w'', ''amominu.w'', ''amomaxu.w'', ''csrrw'', ''csrrs'',
     ''csrrc'', ''csrrwi'', ''csrrsi'', ''csrrci'', ''sh1add'', ''sh2add'', ''sh3add'', ''andn'', ''orn'',
     ''xnor'', ''clz'', ''ctz'', ''cpop'', ''max'', ''maxu'', ''min'', ''minu'', ''sext.b'', ''sext.h'',
     ''zext.h'', ''rol'', ''ror'', ''rori'', ''orc.b'', ''rev8'', ''bclr'', ''bclri'', ''bext'', ''bexti'',
     ''binv'', ''binvi'', ''bset'', ''bseti'', ''c.addi4spn'', ''c.lw'', ''c.sw'', ''c.addi'', ''c.jal'',
     ''c.li'', ''c.addi16sp'', ''c.lui'', ''c.srli'', ''c.srai'', ''c.andi'', ''c.sub'', ''c.xor'', ''c.or'',
     ''c.and'', ''c.j'', ''c.beqz'', ''c.bnez'', ''c.slli'', ''c.lwsp'', ''c.jr'', ''c.mv'', ''c.ebreak'',
     ''c.jalr'', ''c.add'', ''c.swsp'', ''c.nop'']"

definition ALIASES :: "(string \<times> string) list" where
  "ALIASES =
    [(''nop'', ''addi''), (''mv'', ''addi''), (''li'', ''addi''), (''not'', ''xori''), (''seqz'', ''sltiu''),
     (''snez'', ''sltu''), (''sltz'', ''slt''), (''sgtz'', ''slt''), (''neg'', ''sub''), (''j'', ''jal''),
     (''jr'', ''jalr''), (''ret'', ''jalr''), (''beqz'', ''beq''), (''bnez'', ''bne''), (''blez'', ''bge''),
     (''bgez'', ''bge''), (''bltz'', ''blt''), (''bgtz'', ''blt''), (''csrr'', ''csrrs''), (''csrw'', ''csrrw''),
     (''csrs'', ''csrrs''), (''csrc'', ''csrrc''), (''csrwi'', ''csrrwi''), (''csrsi'', ''csrrsi''),
     (''csrci'', ''csrrci''), (''rdcycle'', ''csrrs''), (''rdinstret'', ''csrrs''), (''rdcycleh'', ''csrrs''),
     (''rdinstreth'', ''csrrs''), (''zext.b'', ''andi''), (''fence.tso'', ''fence''), (''pause'', ''fence''),
     (''frcsr'', ''csrrs'')]"

definition COV_BRANCHES :: "string list" where
  "COV_BRANCHES = [''beq'', ''bne'', ''blt'', ''bge'', ''bltu'', ''bgeu'', ''c.beqz'', ''c.bnez'']"

section \<open>HINT encodings\<close>

text \<open>Shifts and masks of a non-negative number as division and remainder.\<close>

definition classify_hint :: "nat \<Rightarrow> string option" where
  "classify_hint raw =
     (if raw mod 4 = 3 then None
      else
        let op = raw mod 4; f3 = raw div 2 ^ 13; rd = raw div 2 ^ 7 mod 32;
            imm6 = raw div 2 ^ 12 mod 2 * 32 + raw div 2 ^ 2 mod 32
        in if op = 1 \<and> f3 = 0 \<and> rd = 0 \<and> imm6 \<noteq> 0 then Some ''C.NOP nzimm''
           else if op = 1 \<and> f3 = 0 \<and> rd \<noteq> 0 \<and> imm6 = 0 then Some ''C.ADDI imm=0''
           else if op = 1 \<and> f3 = 2 \<and> rd = 0 then Some ''C.LI rd=0''
           else if op = 1 \<and> f3 = 3 \<and> rd = 0 \<and> imm6 \<noteq> 0 then Some ''C.LUI rd=0''
           else if op = 2 \<and> f3 = 4 \<and> raw div 2 ^ 12 mod 2 = 0 \<and> rd = 0 \<and> raw div 2 ^ 2 mod 32 \<noteq> 0 then Some ''C.MV rd=0''
           else if op = 2 \<and> f3 = 4 \<and> raw div 2 ^ 12 mod 2 \<noteq> 0 \<and> rd = 0 \<and> raw div 2 ^ 2 mod 32 \<noteq> 0 then Some ''C.ADD rd=0''
           else if op = 2 \<and> f3 = 0 \<and> rd = 0 then Some ''C.SLLI rd=0''
           else if op = 2 \<and> f3 = 0 \<and> imm6 = 0 then Some ''C.SLLI shamt=0''
           else if op = 1 \<and> f3 = 4 \<and> raw div 2 ^ 10 mod 4 \<in> {0, 1} \<and> imm6 = 0 then Some ''C.SRLI/SRAI shamt=0''
           else None)"

section \<open>The log\<close>

text \<open>\<open>core\s+0: 0x([0-9a-f]+) \(0x([0-9a-f]+)\) (\S+)\s*(.*)\<close>: the address, the word, the mnemonic.\<close>

definition log_line :: "string \<Rightarrow> (nat \<times> nat \<times> string) option" where
  "log_line line =
     (let r = drop 4 line; r1 = dropWhile is_space r in
      if startswith line ''core'' \<and> length r1 < length r \<and> startswith r1 ''0: 0x'' then
        (case hex_then '' (0x'' (drop 5 r1) of
           None \<Rightarrow> None
         | Some (pc, r2) \<Rightarrow>
             (case hex_then '') '' r2 of
                None \<Rightarrow> None
              | Some (raw, r3) \<Rightarrow>
                  (let op = takeWhile (\<lambda>c. \<not> is_space c) r3 in if op = [] then None else Some (pc, raw, op))))
      else None)"

record counters =
  mn :: "string \<Rightarrow> nat"
  taken :: "string \<times> bool \<Rightarrow> nat"
  x0dest :: "string \<Rightarrow> nat"
  hints :: "string \<Rightarrow> nat"
  insns :: nat
  odd32 :: nat

definition bump :: "'k \<Rightarrow> ('k \<Rightarrow> nat) \<Rightarrow> 'k \<Rightarrow> nat" where
  "bump k f = f(k := Suc (f k))"

definition canon :: "string \<Rightarrow> string" where
  "canon op = (case map_of ALIASES op of None \<Rightarrow> op | Some c \<Rightarrow> c)"

definition insn_len :: "nat \<Rightarrow> nat" where
  "insn_len raw = (if raw mod 4 \<noteq> 3 then 2 else 4)"

text \<open>The branch before this instruction, if it was one: taken when the address does not follow it.\<close>

definition count_prev :: "(nat \<times> string \<times> nat) option \<Rightarrow> nat \<Rightarrow> counters \<Rightarrow> counters" where
  "count_prev prev pc c =
     (case prev of
        None \<Rightarrow> c
      | Some (ppc, pop, psize) \<Rightarrow>
          if pop \<in> set COV_BRANCHES then c\<lparr>taken := bump (pop, pc \<noteq> ppc + psize) (taken c)\<rparr> else c)"

definition count_insn :: "nat \<Rightarrow> nat \<Rightarrow> string \<Rightarrow> counters \<Rightarrow> counters" where
  "count_insn pc raw op c =
     (let len = insn_len raw; cn = canon op in
      c\<lparr>mn := bump cn (mn c), insns := Suc (insns c),
        odd32 := (if len = 4 \<and> pc mod 4 = 2 then Suc (odd32 c) else odd32 c),
        x0dest := (if len = 4 \<and> raw mod 128 \<notin> {0x63, 0x23} \<and> raw div 2 ^ 7 mod 32 = 0
                      \<and> cn \<notin> {''fence'', ''fence.i'', ''ecall'', ''ebreak''} then bump cn (x0dest c) else x0dest c),
        hints := (case classify_hint raw of None \<Rightarrow> hints c | Some h \<Rightarrow> bump h (hints c))\<rparr>)"

text \<open>The loop over the lines: from \<open>test_start\<close> on, up to the trap handler.\<close>

fun cov_lines :: "int \<Rightarrow> int \<Rightarrow> bool \<Rightarrow> (nat \<times> string \<times> nat) option \<Rightarrow> string list \<Rightarrow> counters \<Rightarrow> counters" where
  "cov_lines start handler inside prev [] c = c"
| "cov_lines start handler inside prev (line # ls) c =
     (case log_line line of
        None \<Rightarrow> cov_lines start handler inside prev ls c
      | Some (pc, raw, op) \<Rightarrow>
          (let inside' = (inside \<or> int pc = start) in
           if int pc \<ge> handler then c
           else if \<not> inside' then cov_lines start handler inside' prev ls c
           else cov_lines start handler inside' (Some (pc, op, insn_len raw)) ls
                  (count_insn pc raw op (count_prev prev pc c))))"

definition missing :: "counters \<Rightarrow> string list" where
  "missing c = [e \<leftarrow> EXPECTED. mn c e = 0]"

section \<open>Hints of the generator are recognised\<close>

text \<open>The class of each form \<open>g_c_hint\<close> chooses.\<close>

definition hint_class :: "nat \<Rightarrow> string" where
  "hint_class k =
     (if k = 0 then ''C.NOP nzimm'' else if k = 1 then ''C.ADDI imm=0'' else if k = 2 then ''C.LI rd=0''
      else if k = 3 then ''C.LUI rd=0'' else if k = 4 then ''C.MV rd=0'' else if k = 5 then ''C.ADD rd=0''
      else if k = 6 then ''C.SLLI rd=0'' else if k = 7 then ''C.SLLI shamt=0'' else ''C.SRLI/SRAI shamt=0'')"

lemma ci_bits10: "b < 2 \<Longrightarrow> r < 32 \<Longrightarrow> i < 32 \<Longrightarrow> q < 4 \<Longrightarrow> ci f b r i q div 2 ^ 10 mod 4 = r div 8"
proof -
  assume a: "b < 2" "r < 32" "i < 32" "q < 4"
  have "ci f b r i q div 2 ^ 10 = ci f b r i q div 2 ^ 7 div 8" by (simp flip: div_mult2_eq)
  moreover have "x div 8 mod 4 = x mod 32 div 8" for x :: nat
    using mod_mult2_eq [of x 8 4] by simp
  ultimately show ?thesis using ci_fields(3) [OF a, of f] by simp
qed

lemma classify_ci:
  assumes "b < 2" "r < 32" "i < 32" "q < 3"
  shows "classify_hint (ci f b r i q) =
     (if q = 1 \<and> f = 0 \<and> r = 0 \<and> b * 32 + i \<noteq> 0 then Some ''C.NOP nzimm''
      else if q = 1 \<and> f = 0 \<and> r \<noteq> 0 \<and> b * 32 + i = 0 then Some ''C.ADDI imm=0''
      else if q = 1 \<and> f = 2 \<and> r = 0 then Some ''C.LI rd=0''
      else if q = 1 \<and> f = 3 \<and> r = 0 \<and> b * 32 + i \<noteq> 0 then Some ''C.LUI rd=0''
      else if q = 2 \<and> f = 4 \<and> b = 0 \<and> r = 0 \<and> i \<noteq> 0 then Some ''C.MV rd=0''
      else if q = 2 \<and> f = 4 \<and> b \<noteq> 0 \<and> r = 0 \<and> i \<noteq> 0 then Some ''C.ADD rd=0''
      else if q = 2 \<and> f = 0 \<and> r = 0 then Some ''C.SLLI rd=0''
      else if q = 2 \<and> f = 0 \<and> b * 32 + i = 0 then Some ''C.SLLI shamt=0''
      else if q = 1 \<and> f = 4 \<and> r div 8 \<in> {0, 1} \<and> b * 32 + i = 0 then Some ''C.SRLI/SRAI shamt=0''
      else None)"
proof -
  have q: "q < 4" "q \<noteq> 3" using assms(4) by auto
  show ?thesis
    unfolding classify_hint_def ci_fields [OF assms(1-3) q(1)] ci_bits10 [OF assms(1-3) q(1)] Let_def
    by (rule if_not_P [OF q(2)])
qed

lemma imm6_parts: "x < 64 \<Longrightarrow> x div 32 mod 2 * 32 + x mod 32 = (x :: nat)"
  using div_mult_mod_eq [of x 32] by (simp add: less_mult_imp_div_less)

lemma classify_forms:
  "0 < y \<Longrightarrow> y < 64 \<Longrightarrow> classify_hint (ci 0 (y div 32 mod 2) 0 (y mod 32) 1) = Some ''C.NOP nzimm''"
  "0 < r \<Longrightarrow> r < 32 \<Longrightarrow> classify_hint (ci 0 0 r 0 1) = Some ''C.ADDI imm=0''"
  "classify_hint (ci 2 (x div 32 mod 2) 0 (x mod 32) 1) = Some ''C.LI rd=0''"
  "0 < y \<Longrightarrow> y < 64 \<Longrightarrow> classify_hint (ci 3 (y div 32 mod 2) 0 (y mod 32) 1) = Some ''C.LUI rd=0''"
  "0 < i \<Longrightarrow> i < 32 \<Longrightarrow> classify_hint (ci 4 0 0 i 2) = Some ''C.MV rd=0''"
  "0 < i \<Longrightarrow> i < 32 \<Longrightarrow> classify_hint (ci 4 1 0 i 2) = Some ''C.ADD rd=0''"
  "i < 32 \<Longrightarrow> classify_hint (ci 0 0 0 i 2) = Some ''C.SLLI rd=0''"
  "0 < r \<Longrightarrow> r < 32 \<Longrightarrow> classify_hint (ci 0 0 r 0 2) = Some ''C.SLLI shamt=0''"
  "r < 16 \<Longrightarrow> classify_hint (ci 4 0 r 0 1) = Some ''C.SRLI/SRAI shamt=0''"
proof -
  have "r < 16 \<Longrightarrow> r div 8 = 0 \<or> r div 8 = 1" using less_mult_imp_div_less [of r 2 8] by auto
  then show "r < 16 \<Longrightarrow> classify_hint (ci 4 0 r 0 1) = Some ''C.SRLI/SRAI shamt=0''"
    by (subst classify_ci) simp_all
qed (subst classify_ci, simp_all add: imm6_parts)+

lemma hint_enc_class:
  assumes "room 4 s" "x < 64"
  shows "ok (hint_enc k x s) (\<lambda>e s'. classify_hint e = Some (hint_class k))"
proof -
  have y: "0 < (if x = 0 then 1 else x)" "(if x = 0 then 1 else x) < 64" using assms(2) by simp_all
  show ?thesis
    unfolding hint_enc_ci Let_def
    by (intro ok_bindI ok_ifI ok_SomeI wp_intro assms(1))
       (simp_all add: classify_forms(2,3,5-9) classify_forms(1,4) [OF y] hint_class_def del: One_nat_def)
qed

text \<open>The coverage report recognises every HINT the generator emits: in any generator state with at most four
  reserved registers, \<open>g_c_hint\<close> gives one halfword, and \<open>classify_hint\<close> puts it into a HINT class
  (the class of the form that was drawn).\<close>

theorem hint_recognised:
  assumes "room 4 s"
  shows "ok (g_c_hint s) (\<lambda>it s'. \<exists>k < 10. \<exists>e. it = Item [Half e] 2 \<and> classify_hint e = Some (hint_class k))"
  unfolding g_c_hint_def
proof (intro ok_bindI ok_randnat)
  fix k x :: nat and q q' :: nat
  assume "0 \<le> k" "k < 10" "0 \<le> x" "x < (64::nat)"
  let ?s = "s\<lparr>pos := q\<rparr>\<lparr>pos := q'\<rparr>"
  have "room 4 ?s" using assms by simp
  from hint_enc_class [OF this \<open>x < 64\<close>, of k]
  show "ok (hint_enc k x ?s) (\<lambda>e s. ok (Some (Item [Half e] 2, s)) (\<lambda>it s'. \<exists>k < 10. \<exists>e. it = Item [Half e] 2 \<and> classify_hint e = Some (hint_class k)))"
    by (rule ok_mono) (use \<open>k < 10\<close> in auto)
qed simp_all

definition hint_state :: gen where
  "hint_state = \<lparr>tape = (\<lambda>_. 7), pos = 0, weights = [], base = 3, reserved = {3}, noread = {}, nlabel = 0, in_loop = False\<rparr>"

theorem hint_recognised_witness:
  "ok (g_c_hint hint_state) (\<lambda>it s'. \<exists>k < 10. \<exists>e. it = Item [Half e] 2 \<and> classify_hint e = Some (hint_class k))"
  using hint_recognised [of hint_state] by (simp add: room_def hint_state_def)

section \<open>The counters\<close>

text \<open>The lines of the body: what the loop counts.\<close>

fun counted :: "int \<Rightarrow> int \<Rightarrow> bool \<Rightarrow> string list \<Rightarrow> (nat \<times> nat \<times> string) list" where
  "counted start handler inside [] = []"
| "counted start handler inside (line # ls) =
     (case log_line line of
        None \<Rightarrow> counted start handler inside ls
      | Some (pc, raw, op) \<Rightarrow>
          if handler \<le> int pc then []
          else if inside \<or> int pc = start then (pc, raw, op) # counted start handler True ls
          else counted start handler False ls)"

text \<open>A branch and the instruction after it.\<close>

fun follow :: "(nat \<times> nat \<times> string) list \<Rightarrow> (string \<times> bool) list" where
  "follow ((pc, raw, op) # (pc', raw', op') # r) = (op, pc' \<noteq> pc + insn_len raw) # follow ((pc', raw', op') # r)"
| "follow _ = []"

definition count :: "'a \<Rightarrow> 'a list \<Rightarrow> nat" where
  "count x xs = length (filter (\<lambda>y. y = x) xs)"

fun with_prev :: "(nat \<times> string \<times> nat) option \<Rightarrow> (nat \<times> nat \<times> string) list \<Rightarrow> (string \<times> bool) list" where
  "with_prev None xs = follow xs"
| "with_prev (Some (ppc, pop, psize)) xs = (case xs of [] \<Rightarrow> [] | (pc, _, _) # _ \<Rightarrow> (pop, pc \<noteq> ppc + psize) # follow xs)"

lemma taken_count_prev:
  "taken (count_prev prev pc c) k = taken c k + (case prev of None \<Rightarrow> 0 | Some (ppc, pop, psize) \<Rightarrow>
     if pop \<in> set COV_BRANCHES \<and> k = (pop, pc \<noteq> ppc + psize) then 1 else 0)"
  by (auto simp: count_prev_def bump_def split: option.split prod.split)

lemma count_insn_simps [simp]:
  "taken (count_insn pc raw op c) = taken c" "insns (count_insn pc raw op c) = Suc (insns c)"
  "mn (count_insn pc raw op c) = bump (canon op) (mn c)"
  by (simp_all add: count_insn_def Let_def)

lemma count_prev_simps [simp]: "insns (count_prev prev pc c) = insns c" "mn (count_prev prev pc c) = mn c"
  by (simp_all add: count_prev_def split: option.split prod.split)

lemma cov_lines_mn:
  "mn (cov_lines start handler inside prev ls c) m = mn c m + count m (map (\<lambda>(_, _, op). canon op) (counted start handler inside ls))
   \<and> insns (cov_lines start handler inside prev ls c) = insns c + length (counted start handler inside ls)"
  by (induction start handler inside prev ls c rule: cov_lines.induct)
     (auto simp: Let_def bump_def count_def split: option.split)

lemma cov_lines_taken:
  "k \<in> set COV_BRANCHES \<times> UNIV \<Longrightarrow> (prev \<noteq> None \<longrightarrow> inside) \<Longrightarrow>
   taken (cov_lines start handler inside prev ls c) k = taken c k + count k (with_prev prev (counted start handler inside ls))"
proof (induction start handler inside prev ls c rule: cov_lines.induct)
  case (1 start handler inside prev c)
  then show ?case by (cases prev) (auto simp: count_def)
next
  case (2 start handler inside prev line ls c)
  show ?case
  proof (cases "log_line line")
    case None
    with 2 show ?thesis by simp
  next
    case (Some x)
    obtain pc raw op where x: "x = (pc, raw, op)" by (cases x)
    show ?thesis
    proof (cases "handler \<le> int pc")
      case True
      then show ?thesis using Some x by (cases prev) (auto simp: count_def)
    next
      case False
      show ?thesis
      proof (cases "inside \<or> int pc = start")
        case True
        have f: "follow ((pc, raw, op) # ys) = with_prev (Some (pc, op, insn_len raw)) ys" for ys by (cases ys) auto
        have "taken (cov_lines start handler inside prev (line # ls) c) k
            = taken (count_prev prev pc c) k + count k (follow ((pc, raw, op) # counted start handler True ls))"
          using 2(3) [OF Some x [symmetric] refl refl] False True 2(4) Some x f by simp
        then show ?thesis
          using Some x False True 2(4) by (cases prev) (auto simp: taken_count_prev count_def)
      next
        case out: False
        then have "prev = None" using 2(5) by (cases prev) auto
        then show ?thesis using 2(2) [OF Some x [symmetric] refl refl] out False Some x 2(4) by simp
      qed
    qed
  qed
qed

definition zero_counters :: counters where
  "zero_counters = \<lparr>mn = (\<lambda>_. 0), taken = (\<lambda>_. 0), x0dest = (\<lambda>_. 0), hints = (\<lambda>_. 0), insns = 0, odd32 = 0\<rparr>"

text \<open>On one log the counters are exact: every mnemonic's count is the number of body lines with that mnemonic or
  one of its aliases, \<open>insns\<close> is their number, and for each printed branch mnemonic the taken and not taken counts are
  the numbers of its body lines whose next body line is not, and is, at the following address.\<close>

theorem coverage_counts:
  assumes "c = cov_lines start handler False None ls zero_counters" and "xs = counted start handler False ls"
  shows "mn c m = count m (map (\<lambda>(_, _, op). canon op) xs) \<and> insns c = length xs
     \<and> (b \<in> set COV_BRANCHES \<longrightarrow> taken c (b, t) = count (b, t) (follow xs))"
  using cov_lines_mn [of start handler False None ls zero_counters m]
    cov_lines_taken [of "(b, t)" None False start handler ls zero_counters] assms
  by (simp add: zero_counters_def)

text \<open>Branches that Spike prints as pseudo-instructions are not in the taken counts: only names of
  \<open>BRANCHES\<close> are ever counted there, and no alias of a branch is one of them, although the mnemonic counts
  resolve aliases.\<close>

theorem alias_branches_not_counted:
  "set [''beqz'', ''bnez'', ''blez'', ''bgez'', ''bltz'', ''bgtz''] \<inter> set COV_BRANCHES = {}
   \<and> canon ` set [''beqz'', ''bnez'', ''blez'', ''bgez'', ''bltz'', ''bgtz''] \<subseteq> set COV_BRANCHES
   \<and> taken (count_prev (Some (pc, ''beqz'', 4)) pc' c) = taken c"
proof -
  have "set [''beqz'', ''bnez'', ''blez'', ''bgez'', ''bltz'', ''bgtz''] \<inter> set COV_BRANCHES = {}"
    "canon ` set [''beqz'', ''bnez'', ''blez'', ''bgez'', ''bltz'', ''bgtz''] \<subseteq> set COV_BRANCHES" by code_simp+
  moreover from this(1) have "''beqz'' \<notin> set COV_BRANCHES" by auto
  ultimately show ?thesis by (simp add: count_prev_def)
qed

definition sample_log :: "string list" where
  "sample_log = [''core   0: 0x00000004 (0x00000013) nop'', ''core   0: 0x00000010 (0x00000463) beq     zero, zero, pc + 8'',
     ''core   0: 0x00000018 (0x0001) c.nop'']"

theorem coverage_counts_witness:
  "taken (cov_lines 16 64 False None sample_log zero_counters) (''beq'', True) = 1"
proof -
  have "counted 16 64 False sample_log = [(16, 0x463, ''beq''), (24, 1, ''c.nop'')]" by code_simp
  then show ?thesis
    using coverage_counts [OF refl refl, of 16 64 sample_log "''beq''" "''beq''" True]
    by (simp add: COV_BRANCHES_def count_def insn_len_def)
qed

end
