(* ===== verification/Directed_Facts.thy ===== *)
theory Directed_Facts
  imports Directed_Tests PyBytes Coverage
begin

text \<open>
  Facts about the table of \<^verbatim>\<open>tools/spike_diff/directed.py\<close>: the encoders, where the loop-built bodies store their
  results, how far the far branches reach, and that the HINTs are the ones \<open>classify_hint\<close> of \<^verbatim>\<open>coverage.py\<close> knows.
\<close>

unbundle bit_operations_syntax

section \<open>The encoders\<close>

lemma bit_large: "(a :: nat) < 2 ^ n \<Longrightarrow> n \<le> i \<Longrightarrow> \<not> bit a i"
  using bit_take_bit_iff [of n a i] take_bit_nat_eq_self [of a n] by simp

lemma low_field:
  fixes a b :: nat
  assumes "a < 2 ^ n"
  shows "take_bit n (push_bit n b OR a) = a" "drop_bit n (push_bit n b OR a) = b"
  by (rule bit_eqI; use bit_large [OF assms] in \<open>auto simp: bit_simps\<close>)+

lemma rtype_nested: "rtype f7 rs2 rs1 f3 rd op =
   push_bit 7 (push_bit 5 (push_bit 3 (push_bit 5 (push_bit 5 f7 OR rs2) OR rs1) OR f3) OR rd) OR op"
  by (simp add: rtype_def push_bit_or push_bit_push_bit or.assoc)

lemma field_drop:
  fixes a b :: nat
  assumes "a < 2 ^ n"
  shows "drop_bit (n + k) (push_bit n b OR a) = drop_bit k b"
  using low_field(2) [OF assms, of b] by (metis drop_bit_drop_bit add.commute)

lemma field_less: "(a :: nat) < 2 ^ n \<Longrightarrow> b < 2 ^ m \<Longrightarrow> push_bit n b OR a < 2 ^ (n + m)"
proof -
  assume a: "a < 2 ^ n" and b: "b < 2 ^ m"
  have "take_bit (n + m) (push_bit n b OR a) = push_bit n b OR a"
  proof (rule bit_eqI)
    fix i
    show "bit (take_bit (n + m) (push_bit n b OR a)) i \<longleftrightarrow> bit (push_bit n b OR a) i"
    proof (cases "i < n + m")
      case True
      then show ?thesis by (simp add: bit_simps)
    next
      case False
      then have "m \<le> i - n" "n \<le> i" by simp_all
      then show ?thesis using False bit_large [OF a, of i] bit_large [OF b, of "i - n"] by (simp add: bit_simps)
    qed
  qed
  then show ?thesis by (metis take_bit_nat_less_exp)
qed

text \<open>The R-type encoder puts every field into its place: with fields of their widths, the word has 32 bits and its
  fields read back.\<close>

theorem rtype_fields:
  assumes "f7 < 2 ^ 7" "rs2 < 2 ^ 5" "rs1 < 2 ^ 5" "f3 < 2 ^ 3" "rd < 2 ^ 5" "op < 2 ^ 7"
  shows "rtype f7 rs2 rs1 f3 rd op < 2 ^ 32 \<and> take_bit 7 (rtype f7 rs2 rs1 f3 rd op) = op
    \<and> take_bit 5 (drop_bit 7 (rtype f7 rs2 rs1 f3 rd op)) = rd \<and> take_bit 3 (drop_bit 12 (rtype f7 rs2 rs1 f3 rd op)) = f3
    \<and> take_bit 5 (drop_bit 15 (rtype f7 rs2 rs1 f3 rd op)) = rs1 \<and> take_bit 5 (drop_bit 20 (rtype f7 rs2 rs1 f3 rd op)) = rs2
    \<and> drop_bit 25 (rtype f7 rs2 rs1 f3 rd op) = f7"
proof -
  let ?w4 = "push_bit 5 f7 OR rs2"
  let ?w3 = "push_bit 5 ?w4 OR rs1"
  let ?w2 = "push_bit 3 ?w3 OR f3"
  let ?w1 = "push_bit 5 ?w2 OR rd"
  have w: "rtype f7 rs2 rs1 f3 rd op = push_bit 7 ?w1 OR op" by (rule rtype_nested)
  have lt: "?w4 < 2 ^ 12" "?w3 < 2 ^ 17" "?w2 < 2 ^ 20" "?w1 < 2 ^ 25"
    using field_less [OF assms(2,1)] field_less [OF assms(3), of ?w4 12] field_less [OF assms(4), of ?w3 17] field_less [OF assms(5), of ?w2 20]
    by simp_all
  have d7: "drop_bit 7 (push_bit 7 ?w1 OR op) = ?w1" by (rule low_field(2) [OF assms(6)])
  have d12: "drop_bit 12 (push_bit 7 ?w1 OR op) = ?w2"
    using field_drop [OF assms(6), of 5 ?w1] low_field(2) [OF assms(5), of ?w2] by simp
  have d15: "drop_bit 15 (push_bit 7 ?w1 OR op) = ?w3"
    using field_drop [OF assms(6), of 8 ?w1] field_drop [OF assms(5), of 3 ?w2] low_field(2) [OF assms(4), of ?w3] by simp
  have d20: "drop_bit 20 (push_bit 7 ?w1 OR op) = ?w4"
    using field_drop [OF assms(6), of 13 ?w1] field_drop [OF assms(5), of 8 ?w2] field_drop [OF assms(4), of 5 ?w3] low_field(2) [OF assms(3), of ?w4] by simp
  have d25: "drop_bit 25 (push_bit 7 ?w1 OR op) = f7"
    using field_drop [OF assms(6), of 18 ?w1] field_drop [OF assms(5), of 13 ?w2] field_drop [OF assms(4), of 10 ?w3]
      field_drop [OF assms(3), of 5 ?w4] low_field(2) [OF assms(2), of f7] by simp
  have "push_bit 7 ?w1 OR op < 2 ^ 32" using field_less [OF assms(6) lt(4)] by simp
  then show ?thesis
    unfolding w d7 d12 d15 d20 d25
    by (intro conjI low_field(1) assms refl)
qed

theorem rtype_fields_witness:
  "rtype 0x8 5 3 2 A0 0x2F < 2 ^ 32 \<and> take_bit 7 (rtype 0x8 5 3 2 A0 0x2F) = 0x2F \<and> take_bit 5 (drop_bit 20 (rtype 0x8 5 3 2 A0 0x2F)) = 5"
  using rtype_fields [of "0x8" 5 3 2 A0 "0x2F"] by (simp add: A0_def)

section \<open>Where the results go\<close>

text \<open>The offset of a line \<open>sw aN, OFF(gp)\<close>.\<close>

definition slot :: "string \<Rightarrow> nat option" where
  "slot line = (if startswith line ''sw a'' \<and> endswith line ''(gp)'' then read_dec (take (length line - 11) (drop 7 line)) else None)"

definition slots :: "string list \<Rightarrow> nat list" where
  "slots ls = List.map_filter slot ls"

definition row :: "nat \<Rightarrow> nat \<Rightarrow> nat list" where
  "row off k = map (\<lambda>i. off + 4 * i) [0..<k]"

lemma slots_simps [simp]: "slots [] = []" "slots (a @ b) = slots a @ slots b"
  "slots (l # ls) = (case slot l of None \<Rightarrow> slots ls | Some n \<Rightarrow> n # slots ls)"
  by (simp_all add: slots_def map_filter_def split: option.split)

lemma slot_sw [simp]: "slot (sw_gp ''a2'' off) = Some off" "slot (sw_gp ''a3'' off) = Some off"
  by (simp_all add: slot_def sw_gp_def endswith_def)

lemma slot_li [simp]: "slot (li_hex r v) = None"
  by (simp add: slot_def li_hex_def)

lemma slot_abc [simp]: "slot (op @ '' a2, a0, a1'') = None" "slot (op @ '' a3, a0, a0'') = None" "slot (op @ '' a0, a1, 1f'') = None"
  by (simp_all add: slot_def endswith_def)

lemma row_append: "row off k @ row (off + 4 * k) n = row off (k + n)"
proof -
  have "[0..<k + n] = [0..<k] @ map (\<lambda>i. k + i) [0..<n]" by (induction n) simp_all
  then show ?thesis by (simp add: row_def)
qed

lemma row_0 [simp]: "row off 0 = []" by (simp add: row_def)
lemma row_1: "row off (Suc 0) = [off]" by (simp add: row_def)

definition fills :: "('a \<Rightarrow> nat \<Rightarrow> string list \<times> nat) \<Rightarrow> nat \<Rightarrow> 'a \<Rightarrow> bool" where
  "fills f k x \<longleftrightarrow> (\<forall>off. slots (fst (f x off)) = row off k \<and> snd (f x off) = off + 4 * k)"

lemma fillsD: "fills f k x \<Longrightarrow> f x off = (ls, off') \<Longrightarrow> slots ls = row off k \<and> off' = off + 4 * k"
  unfolding fills_def by (drule spec [of _ off]) simp

lemma fillsI: "(\<And>off. slots (fst (f x off)) = row off k \<and> snd (f x off) = off + 4 * k) \<Longrightarrow> fills f k x"
  unfolding fills_def by blast

lemma fills_each: "list_all (fills f k) xs \<Longrightarrow> fills (each f) (k * length xs) xs"
proof (induction xs)
  case Nil
  show ?case by (rule fillsI) simp
next
  case (Cons x xs)
  show ?case
  proof (rule fillsI)
    fix off
    obtain ls o1 where a: "f x off = (ls, o1)" by (cases "f x off")
    obtain ls' o2 where c: "each f xs o1 = (ls', o2)" by (cases "each f xs o1")
    have b: "slots ls = row off k \<and> o1 = off + 4 * k" by (rule fillsD [of f k x, OF _ a]) (use Cons.prems in simp)
    have d: "slots ls' = row o1 (k * length xs) \<and> o2 = o1 + 4 * (k * length xs)"
      by (rule fillsD [of "each f" "k * length xs" xs, OF _ c]) (rule Cons.IH, use Cons.prems in simp)
    have e: "each f (x # xs) off = (ls @ ls', o2)" by (simp add: a c)
    have "slots (ls @ ls') = row off (k + k * length xs)"
      using row_append [of off k "k * length xs"] b d by simp
    then show "slots (fst (each f (x # xs) off)) = row off (k * length (x # xs)) \<and> snd (each f (x # xs) off) = off + 4 * (k * length (x # xs))"
      unfolding e using b d by simp
  qed
qed

lemma fills_op2: "fills store_op2 1 op"
  by (simp add: fills_def store_op2_def store_op_def row_1)

lemma list_all_ops: "(\<And>x. fills f k x) \<Longrightarrow> list_all (fills f k) xs"
  by (simp add: list_all_iff)

lemma fills_eachI: "(\<And>x. fills f k x) \<Longrightarrow> n = k * length xs \<Longrightarrow> fills (each f) n xs"
  by (simp add: fills_each list_all_ops)

lemma fills_pair: "n = length ops \<Longrightarrow> fills (on_pair ops) n p"
proof (rule fillsI)
  fix off
  assume n: "n = length ops"
  obtain ls o1 where a: "each store_op2 ops off = (ls, o1)" by (cases "each store_op2 ops off")
  show "slots (fst (on_pair ops p off)) = row off n \<and> snd (on_pair ops p off) = off + 4 * n"
    using fillsD [OF fills_eachI [OF fills_op2] a, of n] n by (simp add: on_pair_def a)
qed

lemma each_slots: "each f xs off = (ls, off') \<Longrightarrow> (\<And>x. fills f k x) \<Longrightarrow> n = k * length xs \<Longrightarrow> slots ls = row off n \<and> off' = off + 4 * n"
  using fillsD [OF fills_eachI] by blast

lemma fills_cmp_op: "fills cmp_op 2 op"
  by (simp add: fills_def cmp_op_def row_def upt_conv_Cons)

lemma slot_literals: "slot ''li a2, 0'' = None" "slot ''li a2, 1'' = None" "slot ''1:'' = None"
  by code_simp+

lemma fills_cmp_branch: "fills cmp_branch 1 br"
  by (simp add: fills_def cmp_branch_def row_def slot_literals)

lemma slot_imm: "slot (''li a0, '' @ v) = None" "slot (''slti a2, a0, '' @ v) = None" "slot (''sltiu a3, a0, '' @ v) = None"
  by (simp_all add: slot_def)

lemma fills_cmp_imm: "fills cmp_imm 2 imm"
  by (simp only: fills_def cmp_imm_def fst_conv snd_conv slots_simps slot_imm slot_sw option.case) (simp add: row_def upt_conv_Cons)

lemma fills_cmp_pair: "fills cmp_pair 18 p"
proof (rule fillsI)
  fix off
  obtain ls o1 where a: "each cmp_op CMP_OPS off = (ls, o1)" by (cases "each cmp_op CMP_OPS off")
  let ?brs = "[''beq'', ''bne'', ''blt'', ''bge'', ''bltu'', ''bgeu'']"
  obtain ls' o2 where b: "each cmp_branch ?brs o1 = (ls', o2)" by (cases "each cmp_branch ?brs o1")
  have "12 = 2 * length CMP_OPS" "6 = 1 * length ?brs" unfolding CMP_OPS_def by simp_all
  note a' = each_slots [OF a fills_cmp_op this(1)] and b' = each_slots [OF b fills_cmp_branch this(2)]
  have c: "cmp_pair p off = ([li_hex ''a0'' (fst p), li_hex ''a1'' (snd p)] @ ls @ ls', o2)"
    unfolding cmp_pair_def by (simp only: a b Let_def prod.case)
  have "slots ([li_hex ''a0'' (fst p), li_hex ''a1'' (snd p)] @ ls @ ls') = row off 12 @ row (off + 4 * 12) 6"
    by (simp only: slots_simps slot_li option.case append_Nil a' b')
  moreover have "o2 = off + 4 * 18" using a' b' by simp
  moreover have "row off 12 @ row (off + 4 * 12) 6 = row off 18" unfolding row_append by simp
  ultimately show "slots (fst (cmp_pair p off)) = row off 18 \<and> snd (cmp_pair p off) = off + 4 * 18"
    unfolding c fst_conv snd_conv by (simp only:)
qed

lemma fills_unary: "fills (\<lambda>v off. let (ls, off) = each store_op UN_OPS off in (li_hex ''a0'' v # ls, off)) 24 v"
  if un: "list_all (fills store_op 1) UN_OPS"
proof (rule fillsI)
  fix off
  obtain ls o1 where a: "each store_op UN_OPS off = (ls, o1)" by (cases "each store_op UN_OPS off")
  have "slots ls = row off 24 \<and> o1 = off + 4 * 24"
  proof -
    have "1 * length UN_OPS = 24" unfolding UN_OPS_def by simp
    then show ?thesis using fillsD [OF fills_each [OF un] a] by (simp only:)
  qed
  then show "slots (fst (let (ls, off) = each store_op UN_OPS off in (li_hex ''a0'' v # ls, off))) = row off 24
      \<and> snd (let (ls, off) = each store_op UN_OPS off in (li_hex ''a0'' v # ls, off)) = off + 4 * 24"
    by (simp only: a Let_def prod.case fst_conv snd_conv slots_simps slot_li option.case)
qed

lemma fills_store: "slot l = None \<Longrightarrow> fills store_op 1 l"
  by (simp add: fills_def store_op_def row_1)

lemma un_ops: "list_all (fills store_op 1) UN_OPS"
proof -
  have "list_all (\<lambda>l. slot l = None) UN_OPS" by code_simp
  then show ?thesis unfolding list_all_iff using fills_store by blast
qed

lemma slot_load: "hd op = CHR ''l'' \<Longrightarrow> op \<noteq> [] \<Longrightarrow> slot (op @ rest) = None"
  by (cases op) (simp_all add: slot_def)

lemma fills_load: "list_all (\<lambda>op. op \<noteq> [] \<and> hd op = CHR ''l'') ops \<Longrightarrow> fills (load_at ops) (length ops) k"
proof -
  assume a: "list_all (\<lambda>op. op \<noteq> [] \<and> hd op = CHR ''l'') ops"
  have "list_all (fills (\<lambda>op. store_op (op @ '' a2, '' @ dec_nat k @ ''(gp)'')) 1) ops"
    using a by (simp add: list_all_iff fills_def store_op_def row_1 slot_load)
  from fills_each [OF this] show ?thesis by (simp add: fills_def load_at_def)
qed

lemma fillsE: "fills f k x \<Longrightarrow> slots (fst (f x off)) = row off k"
  by (simp add: fills_def)

lemma slots_t_m: "slots t_m_div_rem_mul_edges = row 0 152"
proof -
  let ?more = "[''li a3, 0'', ''div a3, a3, a3'', ''li a4, 0'', ''remu a4, a4, a4'', ''li a5, 0x80000000'', ''mulh a5, a5, a5'', ''li a6, 0xffffffff'', ''mulhsu a6, a6, a6'']"
  have "slots (fst (each (on_pair Directed_Tests.M_OPS) M_PAIRS 0)) = row 0 152"
    by (rule fillsE, rule fills_eachI, rule fills_pair [of 8]) (simp_all add: Directed_Tests.M_OPS_def M_PAIRS_def)
  moreover have "slots ?more = []" by code_simp
  ultimately show ?thesis unfolding t_m_div_rem_mul_edges_def slots_simps(2) by (simp only: append_Nil2)
qed

lemma slots_t_shift: "slots t_shift_rot_bit_register_amounts = row 0 360"
proof -
  have "9 = length SH_OPS" "90 = 9 * length SH_AMTS" "360 = 90 * length SH_VALUES"
    unfolding SH_OPS_def SH_AMTS_def SH_VALUES_def by simp_all
  note len = this
  have a: "fills (\<lambda>amt. on_pair SH_OPS (v, amt)) 9 amt" for v amt
    using fills_pair [OF len(1), of "(v, amt)"] unfolding fills_def .
  have "fills (each (\<lambda>v. each (\<lambda>amt. on_pair SH_OPS (v, amt)) SH_AMTS)) 360 SH_VALUES"
  proof (rule fills_eachI [OF _ len(3)])
    fix v
    show "fills (\<lambda>v. each (\<lambda>amt. on_pair SH_OPS (v, amt)) SH_AMTS) 90 v"
      using fills_eachI [OF a len(2), of v] unfolding fills_def .
  qed
  then show ?thesis unfolding t_shift_rot_bit_register_amounts_def by (rule fillsE)
qed

lemma slots_t_compare: "slots t_compare_equal_adjacent_boundary_operands = row 0 208"
proof -
  let ?imms = "[0, 5, -1, -2048, 2047] :: int list"
  obtain ls o1 where a: "each cmp_pair CMP_PAIRS 0 = (ls, o1)" by (cases "each cmp_pair CMP_PAIRS 0")
  obtain ls' o2 where b: "each cmp_imm ?imms o1 = (ls', o2)" by (cases "each cmp_imm ?imms o1")
  have "198 = 18 * length CMP_PAIRS" "10 = 2 * length ?imms" unfolding CMP_PAIRS_def by simp_all
  note a' = each_slots [OF a fills_cmp_pair this(1)] and b' = each_slots [OF b fills_cmp_imm this(2)]
  have c: "t_compare_equal_adjacent_boundary_operands = ls @ ls'"
    unfolding t_compare_equal_adjacent_boundary_operands_def by (simp only: a b Let_def prod.case)
  have "slots t_compare_equal_adjacent_boundary_operands = row 0 198 @ row (0 + 4 * 198) 10"
    unfolding c slots_simps(2) using a' b' by metis
  also have "\<dots> = row 0 208" unfolding row_append by simp
  finally show ?thesis .
qed

lemma slots_t_unary: "slots t_unary_bitmanip_and_imm_shifts = row 0 336"
proof -
  have "336 = 24 * length UN_VALUES" unfolding UN_VALUES_def by simp
  from fills_eachI [OF fills_unary [OF un_ops] this] show ?thesis
    unfolding t_unary_bitmanip_and_imm_shifts_def by (rule fillsE)
qed

lemma slots_t_load: "slots t_load_sign_zero_extension = row 64 24"
proof -
  obtain ls o1 where a: "each (load_at [''lb'', ''lbu'']) [0..<8] 64 = (ls, o1)" by (cases "each (load_at [''lb'', ''lbu'']) [0..<8] 64")
  obtain ls' o2 where b: "each (load_at [''lh'', ''lhu'']) [0, 2, 4, 6] o1 = (ls', o2)" by (cases "each (load_at [''lh'', ''lhu'']) [0, 2, 4, 6] o1")
  let ?pre = "[''li t0, 0x807fff00'', ''sw t0, 0(gp)'', ''li t0, 0x7fff8000'', ''sw t0, 4(gp)'']"
  let ?post = "[''addi t1, gp, -1024'', ''lw a3, 2044(t1)'', ''lbu a4, 2047(t1)'', ''sb a3, 2047(t1)'', ''sh a3, 2046(t1)'', ''addi t2, gp, 2047'', ''lb a5, -2047(t2)'']"
  have f: "fills (load_at [''lb'', ''lbu'']) 2 k" "fills (load_at [''lh'', ''lhu'']) 2 k" for k
    using fills_load [of "[''lb'', ''lbu'']"] fills_load [of "[''lh'', ''lhu'']"] by (simp_all add: numeral_2_eq_2)
  have "16 = 2 * length [0..<8]" "8 = 2 * length [0, 2, 4, 6::nat]" by simp_all
  note a' = each_slots [OF a f(1) this(1)] and b' = each_slots [OF b f(2) this(2)]
  have p: "slots ?pre = []" "slots ?post = []" by code_simp+
  have c: "t_load_sign_zero_extension = ?pre @ ls @ ls' @ ?post"
    unfolding t_load_sign_zero_extension_def by (simp only: a b Let_def prod.case)
  have "slots t_load_sign_zero_extension = row 64 16 @ row (64 + 4 * 16) 8"
    unfolding c slots_simps(2) p append_Nil append_Nil2 using a' b' by metis
  also have "\<dots> = row 64 24" unfolding row_append by simp
  finally show ?thesis .
qed

lemma row_distinct: "distinct (row off k)"
  by (simp add: row_def distinct_map inj_on_def)

lemma row_length: "length (row off k) = k"
  by (simp add: row_def)

lemma row_inside: "4 dvd off \<Longrightarrow> off + 4 * k \<le> n \<Longrightarrow> list_all (\<lambda>x. 4 dvd x \<and> x + 4 \<le> n) (row off k)"
  by (auto simp: row_def list_all_iff)

text \<open>The bodies that loops build store every result at a word of its own inside the data region of the program,
  and there are 152, 360, 208, 336 and 24 of them.\<close>

theorem results_in_region:
  "map (\<lambda>body. length (slots body)) [t_m_div_rem_mul_edges, t_shift_rot_bit_register_amounts,
      t_compare_equal_adjacent_boundary_operands, t_unary_bitmanip_and_imm_shifts, t_load_sign_zero_extension] = [152, 360, 208, 336, 24]
   \<and> list_all (\<lambda>body. distinct (slots body) \<and> list_all (\<lambda>x. 4 dvd x \<and> x + 4 \<le> DATA_SIZE) (slots body))
     [t_m_div_rem_mul_edges, t_shift_rot_bit_register_amounts,
      t_compare_equal_adjacent_boundary_operands, t_unary_bitmanip_and_imm_shifts, t_load_sign_zero_extension]"
  by (simp add: slots_t_m slots_t_shift slots_t_compare slots_t_unary slots_t_load row_distinct row_length)
    (intro conjI row_inside; simp add: DATA_SIZE_def)

section \<open>The table\<close>

lemma test_simps [simp]: "d_name (test n e sh a b) = n" "d_expect (test n e sh a b) = e" "d_show (test n e sh a b) = sh"
  "d_args (test n e sh a b) = a" "d_body (test n e sh a b) = b"
  by (simp_all add: test_def)

definition kinds :: "dtest list \<Rightarrow> (string \<times> string) list" where
  "kinds ts = map (\<lambda>t. (d_name t, d_expect t)) ts"

lemma kinds_simps: "kinds [] = []" "kinds (t # ts) = (d_name t, d_expect t) # kinds ts" "kinds (a @ b) = kinds a @ kinds b"
  by (simp_all add: kinds_def)

lemma family_simps: "d_name (lrsc n e b) = n" "d_expect (lrsc n e b) = e" "d_name (misaligned n b) = n" "d_expect (misaligned n b) = ''match''"
  "d_name (csr_fault n l) = n" "d_expect (csr_fault n l) = ''match''"
  "d_name (csr_unsupported n) = ''csr_unsupported_'' @ n"
  "d_expect (csr_unsupported n) = (if n = ''hpmcounter3'' then ''match'' else ''unsupported-csr'')"
  "d_name (rvc_reserved (n, k)) = ''rvc_reserved_'' @ n" "d_expect (rvc_reserved (n, k)) = ''match''"
  "d_name (Directed_Tests.reserved (n, k)) = ''reserved_'' @ n" "d_expect (Directed_Tests.reserved (n, k)) = ''match''"
  "d_name (out_of_bounds (n, b')) = ''oob_'' @ n" "d_expect (out_of_bounds (n, b')) = ''match''"
  by (simp_all only: lrsc_def misaligned_def csr_fault_def csr_unsupported_def rvc_reserved_def Directed_Tests.reserved_def out_of_bounds_def fst_conv test_simps)

definition table :: "(string \<times> string) list" where
  "table = kinds TESTS"

lemmas table_unfold = table_def TESTS_def lrsc_tests_def misaligned_tests_def csr_fault_tests_def kinds_simps test_simps family_simps

lemmas table_lists = UNSUPPORTED_CSRS_def RESERVED_RVC_def DIRECTED_RESERVED_32_def OOB_def list.map append.simps

lemma table_length: "length table = 114"
  unfolding table_unfold table_lists
  by (simp only: list.size)

definition outcomes :: "string \<Rightarrow> nat" where
  "outcomes e = length (filter (\<lambda>t. snd t = e) table)"

lemma table_expects: "filter (\<lambda>t. snd t \<noteq> ''match'') table =
   [(''lr_sw_same_word_sc'', ''same-hart-store''), (''lr_sb_same_word_sc'', ''same-hart-store''),
    (''lr_sh_same_word_sc'', ''same-hart-store''), (''lr_amo_same_word_sc'', ''same-hart-store''),
    (''lr_then_6000_insns_then_sc'', ''spike-reservation-quantum''), (''misaligned_lw_spike_emulated'', ''spike-misaligned-emulation''),
    (''smc_patch_executed_insn_no_fencei'', ''smc-no-fencei''), (''csr_unsupported_mstatus'', ''unsupported-csr''),
    (''csr_unsupported_misa'', ''unsupported-csr''), (''csr_unsupported_mhartid'', ''unsupported-csr''),
    (''csr_unsupported_sscratch'', ''unsupported-csr''), (''csr_unsupported_time'', ''unsupported-csr'')]"
  unfolding table_unfold table_lists append.simps by code_simp

definition name_key :: "string \<Rightarrow> int" where
  "name_key s = foldl (\<lambda>h c. 2 * h + of_char c) 0 s"

lemma table_keys: "distinct (map name_key (map fst table))"
  unfolding table_unfold table_lists fst_conv append.simps by code_simp

lemma table_distinct: "distinct (map d_name TESTS)"
proof -
  have "map fst table = map d_name TESTS" by (simp add: table_def kinds_def)
  then show ?thesis using distinct_map table_keys by metis
qed

lemma hints_classified: "filter (\<lambda>h. classify_hint h = None) HINTS = [0x0001, 0x1501]"
  unfolding HINTS_def by (simp add: classify_hint_def)

lemma reserved_shared: "list_all (\<lambda>e. e \<in> set (map snd RESERVED_RVC)) RESERVED_16"
  by (simp add: RESERVED_RVC_def RESERVED_16_def)

lemma table_paths: "list_all (\<lambda>n. \<not> startswith n ''/'') (map d_name TESTS)"
proof -
  have "map fst table = map d_name TESTS" by (simp add: table_def kinds_def)
  moreover have "list_all (\<lambda>n. \<not> startswith n ''/'') (map fst table)"
    unfolding table_unfold table_lists fst_conv append.simps by code_simp
  ultimately show ?thesis by simp
qed

text \<open>The table has 114 tests with different names, and these are the ones whose machines are expected to disagree,
  as the documentation of the known differences lists them.\<close>

theorem directed_table:
  "length TESTS = 114 \<and> distinct (map d_name TESTS)
   \<and> filter (\<lambda>(n, e). e \<noteq> ''match'') (map (\<lambda>t. (d_name t, d_expect t)) TESTS) =
   [(''lr_sw_same_word_sc'', ''same-hart-store''), (''lr_sb_same_word_sc'', ''same-hart-store''),
    (''lr_sh_same_word_sc'', ''same-hart-store''), (''lr_amo_same_word_sc'', ''same-hart-store''),
    (''lr_then_6000_insns_then_sc'', ''spike-reservation-quantum''), (''misaligned_lw_spike_emulated'', ''spike-misaligned-emulation''),
    (''smc_patch_executed_insn_no_fencei'', ''smc-no-fencei''), (''csr_unsupported_mstatus'', ''unsupported-csr''),
    (''csr_unsupported_misa'', ''unsupported-csr''), (''csr_unsupported_mhartid'', ''unsupported-csr''),
    (''csr_unsupported_sscratch'', ''unsupported-csr''), (''csr_unsupported_time'', ''unsupported-csr'')]"
proof -
  have "length TESTS = length table" by (simp add: table_def kinds_def)
  moreover have "filter (\<lambda>(n, e). e \<noteq> ''match'') (map (\<lambda>t. (d_name t, d_expect t)) TESTS) = filter (\<lambda>t. snd t \<noteq> ''match'') table"
    unfolding table_def kinds_def by (rule filter_cong) (auto simp: case_prod_beta)
  ultimately show ?thesis using table_length table_distinct table_expects by (simp only: simp_thms)
qed

text \<open>The HINT test runs encodings that the coverage script classifies as HINTs, but for the plain C.NOP and the control
  C.ADDI; and the reserved encodings the generator draws are all among the directed tests.\<close>

theorem directed_hints:
  "filter (\<lambda>h. classify_hint h = None) HINTS = [0x0001, 0x1501]
   \<and> list_all (\<lambda>e. e \<in> set (map snd RESERVED_RVC)) RESERVED_16"
  using hints_classified reserved_shared by blast

end
