(* ===== verification/Directed.thy ===== *)
theory Directed
  imports Directed_Facts Fuzz
begin

text \<open>
  The runner part of \<^verbatim>\<open>tools/spike_diff/directed.py\<close>: building the selected tests of the table, running
  them on Spike and on the runner, and judging each against the outcome the table expects. The assembler, Spike,
  the runner and the linked binaries are parameters; an exception (BuildError too) is \<open>None\<close>.
\<close>

section \<open>Building and running\<close>

definition directed_prologue :: "string list" where
  "directed_prologue =
     map (\<lambda>i. ''li x'' @ dec_nat i @ '', 0x'' @ zfill 8 (hex_nat (i * 0x01010101 mod 2 ^ 32))) [1..<32] @ [''la gp, data_region'']"

definition directed_data :: "nat list" where
  "directed_data = map (\<lambda>i. push_bit 16 0xC0DE OR i) [0..<DATA_SIZE div 4]"

definition contains :: "string \<Rightarrow> string \<Rightarrow> bool" where
  "contains k s = list_ex (\<lambda>i. startswith (drop i s) k) [0..<Suc (length s)]"

definition selected :: "string \<Rightarrow> dtest list" where
  "selected k = filter (\<lambda>t. contains k (d_name t)) TESTS"

record built =
  r_test :: dtest
  r_bin :: string
  r_syms :: syms
  r_words :: "int list option"
  r_note :: string

definition directed_source :: "dtest \<Rightarrow> string option" where
  "directed_source t = assemble_program (directed_prologue @ d_body t @ [''ebreak'']) directed_data"

fun build_tests :: "proc \<Rightarrow> spike_proc \<Rightarrow> tools \<Rightarrow> string \<Rightarrow> string \<Rightarrow> dtest list \<Rightarrow> files \<Rightarrow> (built list \<times> files) option" where
  "build_tests p sp tools LINK out [] fs = Some ([], fs)"
| "build_tests p sp tools LINK out (t # ts) fs = do {
     let asm = path_join out (d_name t @ ''.s'');
     src \<leftarrow> directed_source t;
     (case build_program p (t_cross tools) LINK asm of
        Built (elf, binf, m) \<Rightarrow> do {
          ((words, note), fs) \<leftarrow> run_spike sp (t_spike tools) (d_args t) elf (fs(asm \<mapsto> src));
          (bs, fs) \<leftarrow> build_tests p sp tools LINK out ts fs;
          Some (\<lparr>r_test = t, r_bin = binf, r_syms = m, r_words = words, r_note = note\<rparr> # bs, fs) }
      | _ \<Rightarrow> None) }"

fun directed_manifest :: "built list \<Rightarrow> string option" where
  "directed_manifest [] = Some []"
| "directed_manifest (b # bs) = do {
     line \<leftarrow> manifest_line (r_bin b) (r_syms b) MAX_STEPS;
     rest \<leftarrow> directed_manifest bs;
     Some (line @ nl @ rest) }"

section \<open>Judging\<close>

text \<open>The size of the instruction at an address of the linked binary, when the binary has it.\<close>

definition insn_size :: "bytes \<Rightarrow> int \<Rightarrow> int option" where
  "insn_size b a =
     (let off = a - int LOAD_ADDR in
      if 0 \<le> off \<and> off < int (length b) - 1 then Some (if (b ! nat off) AND 3 \<noteq> 3 then 2 else 4) else None)"

definition size_text :: "int option \<Rightarrow> string" where
  "size_text s = (case s of None \<Rightarrow> ''None'' | Some n \<Rightarrow> dec_int n)"

definition det_stops :: "det_rec \<Rightarrow> bool" where
  "det_stops d \<longleftrightarrow> status d = ''ebreak'' \<or> status d = ''ecall''"

definition advance :: "det_rec \<Rightarrow> int" where
  "advance d = (final_pc d - epc d) mod 2 ^ 32"

definition pc_diffs :: "(string \<Rightarrow> bytes option) \<Rightarrow> string \<Rightarrow> det_rec \<Rightarrow> string list option" where
  "pc_diffs bins binf d =
     (if det_stops d then
        map_option (\<lambda>b.
          let size = insn_size b (epc d); adv = advance d in
          if adv \<notin> {2, 4} \<or> (size \<noteq> None \<and> size \<noteq> Some adv)
          then [''det final pc '' @ hash_x (final_pc d) @ '' != epc+'' @ size_text size] else []) (bins binf)
      else if final_pc d \<noteq> epc d
      then Some [''det pc moved on fault: epc='' @ hash_x (epc d) @ '' final='' @ hash_x (final_pc d)]
      else Some [])"

text \<open>Python's index from the end.\<close>

definition py_nth :: "'a list \<Rightarrow> int \<Rightarrow> 'a option" where
  "py_nth xs i = (let j = (if i < 0 then i + int (length xs) else i) in
                  if 0 \<le> j \<and> j < int (length xs) then Some (xs ! nat j) else None)"

definition show_reg :: "spike_st \<Rightarrow> det_rec \<Rightarrow> nat \<Rightarrow> string option" where
  "show_reg sp d r = do {
     a \<leftarrow> py_nth (sp_regs sp) (int r - 1);
     b \<leftarrow> py_nth (regs d) (int r - 1);
     Some (''x'' @ dec_nat r @ ''='' @ hash_x a @ (if a = b then [] else ''/'' @ hash_x b)) }"

definition show_line :: "spike_st \<Rightarrow> det_rec \<Rightarrow> nat list \<Rightarrow> string list option" where
  "show_line sp d rs =
     (if rs = [] then Some []
      else map_option (\<lambda>cells. [''    regs (spike/det): '' @ join '', '' cells]) (those (map (show_reg sp d) rs)))"

definition pad :: "nat \<Rightarrow> string \<Rightarrow> string" where
  "pad n s = s @ replicate (n - length s) (CHR '' '')"

definition outcome_lines :: "dtest \<Rightarrow> spike_st \<Rightarrow> det_rec \<Rightarrow> string list \<Rightarrow> string list \<Rightarrow> bool \<Rightarrow> string list" where
  "outcome_lines t sp d dd diffs okay =
     [pad 44 (d_name t) @ '' '' @ pad 7 (if diffs = [] then ''MATCH'' else ''DIVERGE'') @ '' ['' @ d_expect t @ '']''
        @ (if okay then [] else ''  <-- UNEXPECTED''),
      ''    spike: mcause='' @ dec_int (mcause sp) @ ''('' @ cause_name (mcause sp) @ '') mepc='' @ hash_x (mepc sp)
        @ '' | det: '' @ status d @ '' epc='' @ hash_x (epc d) @ '' pc='' @ hash_x (final_pc d)
        @ (if dd = [] then [] else '' | '' @ join ''; '' dd)]"

definition diff_lines :: "bool \<Rightarrow> bool \<Rightarrow> string list \<Rightarrow> string list" where
  "diff_lines verbose okay diffs =
     (if diffs = [] then []
      else if verbose \<or> \<not> okay then map (\<lambda>x. ''      '' @ x) (take 12 diffs)
      else [''      '' @ join ''; '' (take 4 diffs)])"

definition verdict_ok :: "dtest \<Rightarrow> string list \<Rightarrow> string list \<Rightarrow> bool" where
  "verdict_ok t dd diffs \<longleftrightarrow> ((diffs = []) = (d_expect t = ''match'')) \<and> dd = []"

text \<open>The lines of one test and whether its result is as expected.\<close>

definition judge_test :: "results \<Rightarrow> (string \<Rightarrow> bytes option) \<Rightarrow> bool \<Rightarrow> built \<Rightarrow> (string list \<times> bool) option" where
  "judge_test det bins verbose b = do {
     rec \<leftarrow> det (r_bin b);
     let t = r_test b;
     let dd = compare_configs rec;
     (case r_words b of
        None \<Rightarrow> Some ([d_name t @ '': SPIKE FAILED ('' @ r_note b @ '')''], False)
      | Some words \<Rightarrow> do {
          sp \<leftarrow> spike_state words (r_syms b);
          d \<leftarrow> rec ''cache'';
          ds \<leftarrow> compare sp d;
          pd \<leftarrow> pc_diffs bins (r_bin b) d;
          let diffs = ds @ pd;
          let okay = verdict_ok t dd diffs;
          sl \<leftarrow> show_line sp d (d_show t);
          Some (outcome_lines t sp d dd diffs okay @ sl @ diff_lines verbose okay diffs, okay) }) }"

fun judge_tests :: "results \<Rightarrow> (string \<Rightarrow> bytes option) \<Rightarrow> bool \<Rightarrow> built list \<Rightarrow> (string list \<times> nat) option" where
  "judge_tests det bins verbose [] = Some ([], 0)"
| "judge_tests det bins verbose (b # bs) = do {
     (ls, okay) \<leftarrow> judge_test det bins verbose b;
     (ls', n) \<leftarrow> judge_tests det bins verbose bs;
     Some (ls @ ls', if okay then n else Suc n) }"

text \<open>The exit status and the report of the judged tests.\<close>

definition directed_report :: "results \<Rightarrow> (string \<Rightarrow> bytes option) \<Rightarrow> bool \<Rightarrow> built list \<Rightarrow> (nat \<times> string) option" where
  "directed_report det bins verbose bs =
     map_option (\<lambda>(ls, n).
       (if n \<noteq> 0 then 1 else 0,
        text_of (ls @ [nl @ dec_nat (length bs) @ '' tests, '' @ dec_nat n @ '' unexpected results''])))
     (judge_tests det bins verbose bs)"

text \<open>\<open>main\<close> after the set-up: the exit status, the report (which \<open>results.txt\<close> gets too), and the files.\<close>

definition directed_main ::
  "proc \<Rightarrow> spike_proc \<Rightarrow> proc \<Rightarrow> (string \<Rightarrow> bytes option) \<Rightarrow> tools \<Rightarrow> string \<Rightarrow> string \<Rightarrow> string \<Rightarrow> bool \<Rightarrow> files \<Rightarrow> (nat \<times> string \<times> files) option" where
  "directed_main p sp runner bins tools LINK out k verbose fs = do {
     (bs, fs) \<leftarrow> build_tests p sp tools LINK out (selected k) fs;
     text \<leftarrow> directed_manifest bs;
     det \<leftarrow> run_runner runner (t_runner tools) (path_join out ''manifest.txt'');
     (rc, report) \<leftarrow> directed_report det bins verbose bs;
     Some (rc, report, fs(path_join out ''manifest.txt'' \<mapsto> text, path_join out ''results.txt'' \<mapsto> report)) }"

section \<open>What exit status 0 means\<close>

text \<open>The pc rule: an ebreak or ecall advances the pc by 2 or 4, by the size of its instruction when the binary has it; a
  fault leaves the pc.\<close>

definition pc_rule :: "bytes option \<Rightarrow> det_rec \<Rightarrow> bool" where
  "pc_rule binary d \<longleftrightarrow>
     (if det_stops d then advance d \<in> {2, 4} \<and> (\<forall>b n. binary = Some b \<longrightarrow> insn_size b (epc d) = Some n \<longrightarrow> advance d = n)
      else final_pc d = epc d)"

definition as_expected :: "results \<Rightarrow> (string \<Rightarrow> bytes option) \<Rightarrow> built \<Rightarrow> bool" where
  "as_expected det bins b \<longleftrightarrow>
     (\<exists>words sp d rec. r_words b = Some words \<and> spike_state words (r_syms b) = Some sp \<and> det (r_bin b) = Some rec
        \<and> (\<forall>c \<in> set CONFIGS. rec c = Some d)
        \<and> (d_expect (r_test b) = ''match'' \<longleftrightarrow> agree sp d \<and> pc_rule (bins (r_bin b)) d))"

lemma pc_diffs_nil: "pc_diffs bins binf d = Some ds \<Longrightarrow> ds = [] \<longleftrightarrow> pc_rule (bins binf) d"
  by (auto simp: pc_diffs_def pc_rule_def Let_def split: if_splits)

lemma judge_test_ok:
  assumes "judge_test det bins verbose b = Some (ls, okay)" "shaped det"
  shows "okay \<longleftrightarrow> as_expected det bins b"
proof (cases "r_words b")
  case None
  then show ?thesis using assms(1) by (auto simp: judge_test_def as_expected_def bind_eq_Some_conv)
next
  case (Some words)
  obtain rec sp d ds pd where x: "det (r_bin b) = Some rec" "spike_state words (r_syms b) = Some sp" "rec ''cache'' = Some d"
    "compare sp d = Some ds" "pc_diffs bins (r_bin b) d = Some pd" and k: "okay = verdict_ok (r_test b) (compare_configs rec) (ds @ pd)"
    using assms(1) by (auto simp: judge_test_def Some Let_def bind_eq_Some_conv)
  have "\<exists>ds. compare sp d = Some ds \<and> (ds = [] \<longleftrightarrow> agree sp d)"
    by (rule compare_shaped [OF x(2) assms(2) x(1,3)])
  then have ds: "ds = [] \<longleftrightarrow> agree sp d" using x(4) by simp
  have u: "d' = d" if "\<forall>c \<in> set CONFIGS. rec c = Some d'" for d'
    using that x(3) by (simp add: CONFIGS_def)
  have "as_expected det bins b \<longleftrightarrow> (\<exists>d'. (\<forall>c \<in> set CONFIGS. rec c = Some d')
      \<and> (d_expect (r_test b) = ''match'' \<longleftrightarrow> agree sp d' \<and> pc_rule (bins (r_bin b)) d'))"
    by (simp add: as_expected_def Some x(1,2))
  also have "\<dots> \<longleftrightarrow> okay"
    unfolding k verdict_ok_def append_is_Nil_conv ds pc_diffs_nil [OF x(5)] configs_equal using u by blast
  finally show ?thesis by simp
qed

lemma judge_tests_count:
  "judge_tests det bins verbose bs = Some (ls, n) \<Longrightarrow> shaped det \<Longrightarrow> n = length (filter (\<lambda>b. \<not> as_expected det bins b) bs)"
proof (induction bs arbitrary: ls n)
  case (Cons b bs)
  obtain l1 okay l2 m where a: "judge_test det bins verbose b = Some (l1, okay)" "judge_tests det bins verbose bs = Some (l2, m)"
    and n: "n = (if okay then m else Suc m)"
    using Cons.prems(1) by (auto simp: bind_eq_Some_conv)
  from Cons.IH [OF a(2) Cons.prems(2)] judge_test_ok [OF a(1) Cons.prems(2)] n show ?case by simp
qed simp

text \<open>C16. The exit status of the directed tests is 0 exactly when every test ran on Spike, gave three equal runner records, and
  had the expected outcome: for \<open>match\<close>, the machines agree on the final state and the pc advanced by the size of the
  stopping instruction (or stayed at a fault); for any other expectation, they do not.\<close>

theorem directed_exit_zero_iff:
  assumes "directed_report det bins verbose bs = Some (rc, report)" and "shaped det"
  shows "rc = 0 \<longleftrightarrow> list_all (as_expected det bins) bs"
proof -
  obtain ls n where j: "judge_tests det bins verbose bs = Some (ls, n)" "rc = (if n \<noteq> 0 then 1 else 0)"
    using assms(1) by (auto simp: directed_report_def)
  have "n = 0 \<longleftrightarrow> list_all (as_expected det bins) bs"
    unfolding judge_tests_count [OF j(1) assms(2)] by (auto simp: filter_empty_conv list_all_iff)
  then show ?thesis using j(2) by simp
qed

definition sample_dbuilt :: built where
  "sample_dbuilt = \<lparr>r_test = test ''ecall_stops_pc_advanced'' ''match'' [] [] t_ecall_stops_pc_advanced, r_bin = ''s0.bin'',
     r_syms = [''trap_dump'' \<mapsto> 0x10004], r_words = Some sample_words, r_note = []\<rparr>"

definition sample_bins :: "string \<Rightarrow> bytes option" where
  "sample_bins _ = Some [0x73, 0, 0x10, 0]"

lemma sample_pc: "pc_diffs sample_bins ''s0.bin'' sample_det = Some []"
  by (simp add: pc_diffs_def sample_det_def sample_bins_def insn_size_def det_stops_def advance_def LOAD_ADDR_def)

lemma sample_expected: "as_expected sample_results sample_bins sample_dbuilt"
  using sample_agree pc_diffs_nil [OF sample_pc]
  by (auto simp: as_expected_def sample_dbuilt_def sample_results_def CONFIGS_def)

lemma sample_reported: "\<exists>rc report. directed_report sample_results sample_bins False [sample_dbuilt] = Some (rc, report)"
proof -
  obtain sp where s: "spike_state sample_words [''trap_dump'' \<mapsto> 0x10004] = Some sp" using sample_agree by blast
  obtain ds where "compare sp sample_det = Some ds" using compare_agree [OF spike_state_shape [OF s] sample_det_shape] by blast
  with s show ?thesis
    by (simp add: directed_report_def judge_test_def sample_dbuilt_def sample_results_def Let_def sample_pc show_line_def)
qed

theorem directed_exit_zero_iff_witness: "\<exists>report. directed_report sample_results sample_bins False [sample_dbuilt] = Some (0, report)"
proof -
  obtain rc report where r: "directed_report sample_results sample_bins False [sample_dbuilt] = Some (rc, report)" using sample_reported by blast
  then show ?thesis using directed_exit_zero_iff [OF r sample_clean(1)] sample_expected by simp
qed

section \<open>What is built\<close>

lemma directed_source_ok: "\<exists>src. directed_source t = Some src"
  by (simp add: directed_source_def assemble_program_def data_section_def directed_data_def)

lemma chop_append: "chop (length b) (a @ b) = a"
  by (simp add: chop_def)

lemma chop_path: "\<not> startswith n ''/'' \<Longrightarrow> chop 2 (path_join out (n @ ''.s'')) = path_join out n"
proof -
  assume a: "\<not> startswith n ''/''"
  then have b: "\<not> startswith (n @ ''.s'') ''/''" by (cases n) simp_all
  have "path_join out (n @ ''.s'') = path_join out n @ ''.s''" using a b by (simp add: path_join_def)
  then show ?thesis using chop_append [of "''.s''"] by (simp add: numeral_2_eq_2)
qed

lemma path_join_inj: "\<not> startswith n ''/'' \<Longrightarrow> \<not> startswith m ''/'' \<Longrightarrow> path_join out n = path_join out m \<longleftrightarrow> n = m"
  by (simp add: path_join_def)

text \<open>What the tools do when nothing fails: the build gives some ELF and symbols, and Spike ends or times out.\<close>

definition tools_work :: "proc \<Rightarrow> spike_proc \<Rightarrow> tools \<Rightarrow> string \<Rightarrow> bool" where
  "tools_work p sp tools LINK \<longleftrightarrow>
     (\<forall>asm. \<exists>elf m. build_program p (t_cross tools) LINK asm = Built (elf, chop 2 asm @ ''.bin'', m))
     \<and> (\<forall>extra elf fs. run_spike sp (t_spike tools) extra elf fs \<noteq> None)"

lemma build_tests_total:
  assumes "tools_work p sp tools LINK"
  shows "\<exists>bs fs'. build_tests p sp tools LINK out ts fs = Some (bs, fs') \<and> map r_test bs = ts
    \<and> map r_bin bs = map (\<lambda>t. chop 2 (path_join out (d_name t @ ''.s'')) @ ''.bin'') ts"
proof (induction ts arbitrary: fs)
  case (Cons t ts)
  let ?asm = "path_join out (d_name t @ ''.s'')"
  obtain src where src: "directed_source t = Some src" using directed_source_ok by blast
  obtain elf m where b: "build_program p (t_cross tools) LINK ?asm = Built (elf, chop 2 ?asm @ ''.bin'', m)"
    using assms unfolding tools_work_def by blast
  obtain words nt fs1 where r: "run_spike sp (t_spike tools) (d_args t) elf (fs(?asm \<mapsto> src)) = Some ((words, nt), fs1)"
    using assms unfolding tools_work_def by (metis option.exhaust prod.exhaust)
  obtain bs fs2 where "build_tests p sp tools LINK out ts fs1 = Some (bs, fs2)" "map r_test bs = ts"
    "map r_bin bs = map (\<lambda>t. chop 2 (path_join out (d_name t @ ''.s'')) @ ''.bin'') ts" using Cons.IH by blast
  then show ?case by (simp add: src b r)
qed simp


definition sample_tools :: tools where
  "sample_tools = \<lparr>t_work = ''w'', t_spike = ''spike'', t_cross = ''riscv-'', t_runner = ''r'', t_path = []\<rparr>"


end
