(* ===== verification/Encsweep.thy ===== *)
theory Encsweep
  imports Rng Setup Protocol
begin

text \<open>
  \<^verbatim>\<open>tools/spike_diff/encsweep.py\<close>: the random instruction word (\<open>rand_word\<close>), the program around it
  (\<open>build_one\<close>), the address it uses, the known classes of divergences, and the exit status. Shifts and masks of
  non-negative numbers are written as division, remainder and sums of disjoint fields.
\<close>

section \<open>The random word\<close>

definition DATA_WORDS :: nat where "DATA_WORDS = 2048"

definition CSRS :: "nat list" where
  "CSRS = [0xC00, 0xC02, 0xC80, 0xC82, 0x340, 0x7C0, 0xC03, 0x8FF]"

definition F7S :: "nat list" where
  "F7S = [0x00, 0x20, 0x01, 0x05, 0x04, 0x10, 0x14, 0x24, 0x30, 0x34]"

definition ENC_MAX_STEPS :: nat where "ENC_MAX_STEPS = 20000"

text \<open>The loop that draws halfwords until one is compressed; not returning is \<open>None\<close>.\<close>

partial_function (option) rvc_half :: "rng \<Rightarrow> (nat \<times> rng) option" where
  "rvc_half s = Option.bind (getrandbits 16 s) (\<lambda>(h, s). if h mod 4 \<noteq> 3 then Some (h, s) else rvc_half s)"

definition OPCODES :: "nat list" where
  "OPCODES = [0x33, 0x33, 0x13, 0x13, 0x03, 0x23, 0x0F, 0x2F, 0x2F, 0x73, 0x37, 0x17, 0x63, 0x67]"

definition chance_of :: "prob \<Rightarrow> rng \<Rightarrow> (bool \<times> rng) option" where
  "chance_of p s = do { (k, s) \<leftarrow> random s; Some (below k p, s) }"

text \<open>The four adjustments of a 32-bit word, in order: funct7, the width of an AMO, the CSR forms, and JAL.\<close>

definition fix_f7 :: "nat \<Rightarrow> nat \<Rightarrow> rng \<Rightarrow> (nat \<times> rng) option" where
  "fix_f7 op w s =
     (if op = 0x33 \<or> op = 0x13 then do {
        (c, s) \<leftarrow> chance_of p_0_7 s;
        if c then do { (f, s) \<leftarrow> choice F7S s; Some (w mod 2 ^ 25 + f * 2 ^ 25, s) } else Some (w, s) }
      else Some (w, s))"

definition fix_amo :: "nat \<Rightarrow> nat \<Rightarrow> rng \<Rightarrow> (nat \<times> rng) option" where
  "fix_amo op w s =
     (if op = 0x2F then do {
        (c, s) \<leftarrow> chance_of p_0_7 s;
        Some (if c then w div 2 ^ 15 * 2 ^ 15 + 2 * 2 ^ 12 + w mod 2 ^ 12 else w, s) }
      else Some (w, s))"

definition fix_csr :: "nat \<Rightarrow> nat \<Rightarrow> rng \<Rightarrow> (nat \<times> rng) option" where
  "fix_csr op w s =
     (if op = 0x73 then do {
        (f3, s) \<leftarrow> choice [1, 2, 3, 5, 6, 7, 0] s;
        (c, s) \<leftarrow> choice CSRS s;
        Some (c * 2 ^ 20 + (w div 2 ^ 15 mod 32) * 2 ^ 15 + f3 * 2 ^ 12 + (w div 2 ^ 7 mod 32) * 2 ^ 7 + 0x73, s) }
      else Some (w, s))"

definition fix_jal :: "nat \<Rightarrow> nat" where
  "fix_jal w = (if w mod 128 = 0x6F then w + 0x10 else w)"

definition fix_system :: "nat \<Rightarrow> rng \<Rightarrow> (nat \<times> rng) option" where
  "fix_system w s =
     (if w mod 128 = 0x73 \<and> w div 2 ^ 12 mod 8 = 0 then do {
        (w, s) \<leftarrow> choice [0x00000073, 0x00100073] s;
        (c, s) \<leftarrow> chance_of p_0_3 s;
        if c then do {
          (rd, s) \<leftarrow> getrandbits 5 s;
          (rs1, s) \<leftarrow> getrandbits 5 s;
          Some (w + rd * 2 ^ 7 + rs1 * 2 ^ 15, s) }
        else Some (w, s) }
      else Some (w, s))"

definition adjust :: "nat \<Rightarrow> nat \<Rightarrow> rng \<Rightarrow> (nat \<times> rng) option" where
  "adjust op w s = do {
     (w, s) \<leftarrow> fix_f7 op w s;
     (w, s) \<leftarrow> fix_amo op w s;
     (w, s) \<leftarrow> fix_csr op w s;
     fix_system (fix_jal w) s }"

definition word32 :: "rng \<Rightarrow> (nat \<times> rng) option" where
  "word32 s = do {
     (k, s) \<leftarrow> getrandbits 7 s;
     (op, s) \<leftarrow> choice (OPCODES @ [k div 4 * 4 + 3]) s;
     (k, s) \<leftarrow> getrandbits 32 s;
     adjust op (k div 128 * 128 + op) s }"

definition rand_word :: "rng \<Rightarrow> ((nat \<times> nat) \<times> rng) option" where
  "rand_word s = do {
     (rvc, s) \<leftarrow> chance_of p_0_3 s;
     if rvc then map_option (\<lambda>(h, s). ((h, 2), s)) (rvc_half s)
     else map_option (\<lambda>(w, s). ((w, 4), s)) (word32 s) }"

section \<open>What words there are\<close>

definition is_system0 :: "nat \<Rightarrow> bool" where
  "is_system0 w \<longleftrightarrow> w mod 128 = 0x73 \<and> w div 2 ^ 12 mod 8 = 0"

text \<open>The words the sweep may execute: no JAL, of SYSTEM only ECALL and EBREAK (with any registers) and the listed CSRs.\<close>

definition allowed32 :: "nat \<Rightarrow> bool" where
  "allowed32 w \<longleftrightarrow> w < 2 ^ 32 \<and> w mod 4 = 3 \<and> w mod 128 \<noteq> 0x6F
     \<and> (is_system0 w \<longrightarrow> w div 2 ^ 20 \<in> {0, 1})
     \<and> (w mod 128 = 0x73 \<and> w div 2 ^ 12 mod 8 \<noteq> 0 \<longrightarrow> w div 2 ^ 20 \<in> set CSRS)"

lemma ok_chance_of [wp_intro]: "(\<And>b q. Q b (s\<lparr>pos := q\<rparr>)) \<Longrightarrow> ok (chance_of p s) Q"
  unfolding chance_of_def by (intro ok_bindI ok_SomeI ok_random)

text \<open>An instruction word by its fields.\<close>

definition fields :: "nat \<Rightarrow> nat \<Rightarrow> nat \<Rightarrow> nat \<Rightarrow> nat \<Rightarrow> nat" where
  "fields hi rs1 f3 rd op = hi * 2 ^ 20 + rs1 * 2 ^ 15 + f3 * 2 ^ 12 + rd * 2 ^ 7 + op"

lemma fields_parts:
  assumes "rs1 < 32" "f3 < 8" "rd < 32" "op < 128"
  shows "fields hi rs1 f3 rd op mod 128 = op" "fields hi rs1 f3 rd op div 2 ^ 12 mod 8 = f3" "fields hi rs1 f3 rd op div 2 ^ 20 = hi"
    "hi < 2 ^ 12 \<Longrightarrow> fields hi rs1 f3 rd op < 2 ^ 32"
proof -
  have step: "a < n \<Longrightarrow> (a + n * b) div n = b" "a < n \<Longrightarrow> (a + n * b) mod n = a" for a b n :: nat by simp_all
  have f: "fields hi rs1 f3 rd op = op + 128 * (rd + 32 * (f3 + 8 * (rs1 + 32 * hi)))" by (simp add: fields_def)
  show "fields hi rs1 f3 rd op mod 128 = op" unfolding f by (rule step(2) [OF assms(4)])
  have d7: "fields hi rs1 f3 rd op div 2 ^ 7 = rd + 32 * (f3 + 8 * (rs1 + 32 * hi))" unfolding f using step(1) [OF assms(4)] by simp
  have "fields hi rs1 f3 rd op div 2 ^ 12 = fields hi rs1 f3 rd op div 2 ^ 7 div 32" by (simp flip: div_mult2_eq)
  then have d12: "fields hi rs1 f3 rd op div 2 ^ 12 = f3 + 8 * (rs1 + 32 * hi)" unfolding d7 using step(1) [OF assms(3)] by simp
  show "fields hi rs1 f3 rd op div 2 ^ 12 mod 8 = f3" unfolding d12 by (rule step(2) [OF assms(2)])
  have "fields hi rs1 f3 rd op div 2 ^ 15 = fields hi rs1 f3 rd op div 2 ^ 12 div 8" by (simp flip: div_mult2_eq)
  then have d15: "fields hi rs1 f3 rd op div 2 ^ 15 = rs1 + 32 * hi" unfolding d12 using step(1) [OF assms(2)] by simp
  have "fields hi rs1 f3 rd op div 2 ^ 20 = fields hi rs1 f3 rd op div 2 ^ 15 div 32" by (simp flip: div_mult2_eq)
  then show "fields hi rs1 f3 rd op div 2 ^ 20 = hi" unfolding d15 using step(1) [OF assms(1)] by simp
  then show "hi < 2 ^ 12 \<Longrightarrow> fields hi rs1 f3 rd op < 2 ^ 32"
    using div_less_iff_less_mult [of "2 ^ 20" "fields hi rs1 f3 rd op" "2 ^ 12"] by simp
qed

text \<open>A word with the opcode \<open>op\<close> in its low bits.\<close>

definition with_op :: "nat \<Rightarrow> nat \<Rightarrow> bool" where
  "with_op op w \<longleftrightarrow> w < 2 ^ 32 \<and> w mod 128 = op"

lemma ok_fix_f7:
  assumes "with_op op w" "\<And>w' q. with_op op w' \<Longrightarrow> Q w' (s\<lparr>pos := q\<rparr>)"
  shows "ok (fix_f7 op w s) Q"
proof -
  have f: "with_op op (w mod 2 ^ 25 + f * 2 ^ 25)" if "f \<in> set F7S" for f
  proof -
    have "f < 2 ^ 7" using that by (auto simp: F7S_def)
    then have "f * 2 ^ 25 \<le> (2 ^ 7 - 1) * 2 ^ 25" by (intro mult_le_mono1) simp
    moreover have "w mod 2 ^ 25 < 2 ^ 25" by simp
    ultimately have "w mod 2 ^ 25 + f * 2 ^ 25 < 2 ^ 32" by simp
    moreover have "(w mod 2 ^ 25 + f * 2 ^ 25) mod 128 = w mod 128"
    proof -
      have "w mod 2 ^ 25 + f * 2 ^ 25 = w mod 2 ^ 25 + 128 * (f * 2 ^ 18)" by simp
      then have "(w mod 2 ^ 25 + f * 2 ^ 25) mod 128 = w mod 2 ^ 25 mod 128" by (simp only: mod_mult_self2)
      then show ?thesis by (simp add: mod_mod_cancel)
    qed
    ultimately show ?thesis using assms(1) by (simp add: with_op_def)
  qed
  have "Q w s" using assms(2) [OF assms(1), of "pos s"] by simp
  then show ?thesis
    unfolding fix_f7_def using assms f by (intro ok_bindI ok_ifI ok_SomeI wp_intro) (auto simp: F7S_def)
qed

lemma ok_fix_amo:
  assumes "with_op op w" "\<And>w' q. with_op op w' \<Longrightarrow> Q w' (s\<lparr>pos := q\<rparr>)"
  shows "ok (fix_amo op w s) Q"
proof -
  let ?w = "w div 2 ^ 15 * 2 ^ 15 + 2 * 2 ^ 12 + w mod 2 ^ 12"
  have "with_op op ?w"
  proof -
    have "w div 2 ^ 15 < 2 ^ 17" using assms(1) by (simp add: with_op_def less_mult_imp_div_less)
    then have "w div 2 ^ 15 * 2 ^ 15 \<le> (2 ^ 17 - 1) * 2 ^ 15" by (intro mult_le_mono1) simp
    moreover have "w mod 2 ^ 12 < 2 ^ 12" by simp
    ultimately have "?w < 2 ^ 32" by simp
    moreover have "?w mod 128 = w mod 128"
    proof -
      have "?w = w mod 2 ^ 12 + 128 * (w div 2 ^ 15 * 2 ^ 8 + 2 * 2 ^ 5)" by simp
      then have "?w mod 128 = w mod 2 ^ 12 mod 128" by (simp only: mod_mult_self2)
      then show ?thesis by (simp add: mod_mod_cancel)
    qed
    ultimately show ?thesis using assms(1) by (simp add: with_op_def)
  qed
  moreover have "Q w s" using assms(2) [OF assms(1), of "pos s"] by simp
  ultimately show ?thesis
    unfolding fix_amo_def using assms by (intro ok_bindI ok_ifI ok_SomeI wp_intro) (auto split: if_splits)
qed

definition csr_word :: "nat \<Rightarrow> bool" where
  "csr_word w \<longleftrightarrow> (\<exists>c rs1 f3 rd. w = fields c rs1 f3 rd 0x73 \<and> c \<in> set CSRS \<and> rs1 < 32 \<and> f3 < 8 \<and> rd < 32)"

lemma ok_fix_csr:
  assumes "with_op op w" "\<And>w' q. (if op = 0x73 then csr_word w' else with_op op w') \<Longrightarrow> Q w' (s\<lparr>pos := q\<rparr>)"
  shows "ok (fix_csr op w s) Q"
proof (cases "op = 0x73")
  case True
  have "csr_word (c * 2 ^ 20 + (w div 2 ^ 15 mod 32) * 2 ^ 15 + f3 * 2 ^ 12 + (w div 2 ^ 7 mod 32) * 2 ^ 7 + 0x73)"
    if "f3 \<in> set [1, 2, 3, 5, 6, 7, 0]" "c \<in> set CSRS" for f3 c
    unfolding csr_word_def using that
    by (intro exI [of _ c] exI [of _ "w div 2 ^ 15 mod 32"] exI [of _ f3] exI [of _ "w div 2 ^ 7 mod 32"]) (auto simp: fields_def)
  then show ?thesis
    unfolding fix_csr_def using assms(2) True by (simp only: if_True refl) (intro ok_bindI ok_SomeI wp_intro; simp add: CSRS_def)
next
  case False
  then show ?thesis using assms(2) [of w "pos s"] assms(1) by (simp add: fix_csr_def)
qed

lemma csr_bound: "c \<in> set CSRS \<Longrightarrow> c < 2 ^ 12"
  by (auto simp: CSRS_def)

lemma allowed_system0: "c \<in> {0, 1} \<Longrightarrow> rs1 < 32 \<Longrightarrow> rd < 32 \<Longrightarrow> allowed32 (fields c rs1 0 rd 0x73)"
  using fields_parts [of rs1 0 rd "0x73" c] mod_mod_cancel [of 4 128 "fields c rs1 0 rd 0x73"]
  by (auto simp: allowed32_def is_system0_def)

lemma allowed_csr: "csr_word w \<Longrightarrow> w div 2 ^ 12 mod 8 \<noteq> 0 \<Longrightarrow> allowed32 w"
proof -
  assume c: "csr_word w" and f: "w div 2 ^ 12 mod 8 \<noteq> 0"
  then obtain c rs1 f3 rd where w: "w = fields c rs1 f3 rd 0x73" "c \<in> set CSRS" "rs1 < 32" "f3 < 8" "rd < 32" by (auto simp: csr_word_def)
  have "w mod 128 mod 4 = w mod 4" by (simp add: mod_mod_cancel)
  then show ?thesis
    using fields_parts [OF w(3-5), of "0x73" c] csr_bound [OF w(2)] w(1,2) f by (simp add: allowed32_def is_system0_def)
qed

lemma allowed_plain: "with_op op w \<Longrightarrow> op mod 4 = 3 \<Longrightarrow> op \<noteq> 0x73 \<Longrightarrow> op \<noteq> 0x6F \<Longrightarrow> allowed32 w"
  using mod_mod_cancel [of 4 128 w] by (auto simp: allowed32_def with_op_def is_system0_def)

lemma fix_jal_op: "with_op op w \<Longrightarrow> with_op (if op = 0x6F then 0x7F else op) (fix_jal w)"
proof -
  assume w: "with_op op w"
  have "w mod 128 = 0x6F \<Longrightarrow> (w + 0x10) mod 128 = 0x7F \<and> w + 0x10 < 2 ^ 32"
  proof -
    assume m: "w mod 128 = 0x6F"
    define q where "q = w div 128"
    have q: "w = 0x6F + 128 * q" using m div_mult_mod_eq [of w 128] by (simp add: q_def)
    have "q < 2 ^ 25" using w by (simp add: q_def with_op_def less_mult_imp_div_less)
    moreover have "(0x7F + 128 * q) mod 128 = 0x7F" by (simp only: mod_mult_self2) simp
    ultimately show "(w + 0x10) mod 128 = 0x7F \<and> w + 0x10 < 2 ^ 32" unfolding q by simp
  qed
  with w show ?thesis by (auto simp: fix_jal_def with_op_def)
qed

lemma ok_fix_system:
  assumes "is_system0 w \<or> allowed32 w" "\<And>w' q. allowed32 w' \<Longrightarrow> Q w' (s\<lparr>pos := q\<rparr>)"
  shows "ok (fix_system w s) Q"
proof (cases "is_system0 w")
  case True
  have a: "allowed32 (w0 + rd * 2 ^ 7 + rs1 * 2 ^ 15)" if "w0 \<in> set [0x73, 0x100073]" "rd < 2 ^ 5" "rs1 < 2 ^ 5" for w0 rd rs1 :: nat
    using allowed_system0 [of 0 rs1 rd] allowed_system0 [of 1 rs1 rd] that by (auto simp: fields_def add_ac)
  have b: "allowed32 w0" if "w0 \<in> set [0x73, 0x100073]" for w0 :: nat using a [OF that, of 0 0] by simp
  show ?thesis
    unfolding fix_system_def using True assms(2) a b
    by (simp only: is_system0_def if_True simp_thms) (intro ok_bindI ok_ifI ok_SomeI wp_intro; simp)
next
  case False
  then have "fix_system w s = Some (w, s)" by (auto simp: fix_system_def is_system0_def)
  then show ?thesis using False assms(1) assms(2) [of w "pos s"] by simp
qed

lemma opcode_ok: "op \<in> set (OPCODES @ [k div 4 * 4 + 3]) \<Longrightarrow> k < 2 ^ 7 \<Longrightarrow> op < 128 \<and> op mod 4 = 3"
proof -
  assume o: "op \<in> set (OPCODES @ [k div 4 * 4 + 3])" and k: "k < 2 ^ 7"
  have "k div 4 < 32" using k by (simp add: less_mult_imp_div_less)
  then have "k div 4 * 4 + 3 < 128" by simp
  moreover have "(k div 4 * 4 + 3) mod 4 = 3" by simp
  ultimately show ?thesis using o by (auto simp: OPCODES_def)
qed

lemma with_op_start: "k < 2 ^ 32 \<Longrightarrow> op < 128 \<Longrightarrow> with_op op (k div 128 * 128 + op)"
proof -
  assume k: "k < 2 ^ 32" and op: "op < 128"
  then have "k div 128 < 2 ^ 25" by (simp add: less_mult_imp_div_less)
  then have "k div 128 * 128 \<le> (2 ^ 25 - 1) * 128" by (intro mult_le_mono1) simp
  then show ?thesis using op by (simp add: with_op_def)
qed

lemma after_csr:
  assumes "if op = 0x73 then csr_word w else with_op op w" "op mod 4 = 3"
  shows "is_system0 (fix_jal w) \<or> allowed32 (fix_jal w)"
proof (cases "op = 0x73")
  case True
  then have c: "csr_word w" using assms(1) by simp
  then have m: "w mod 128 = 0x73" using fields_parts(1) by (auto simp: csr_word_def)
  then have "fix_jal w = w" by (simp add: fix_jal_def)
  then show ?thesis using allowed_csr [OF c] m by (auto simp: is_system0_def)
next
  case False
  then have "with_op (if op = 0x6F then 0x7F else op) (fix_jal w)" using assms(1) fix_jal_op by simp
  then show ?thesis using allowed_plain [of "if op = 0x6F then 0x7F else op"] False assms(2) by (auto split: if_splits)
qed

lemma ok_adjust: "with_op op w \<Longrightarrow> op mod 4 = 3 \<Longrightarrow> ok (adjust op w s) (\<lambda>w s'. allowed32 w)"
  unfolding adjust_def
  by (intro ok_bindI ok_fix_f7 ok_fix_amo ok_fix_csr ok_fix_system) (assumption | erule after_csr)+

lemma ok_word32: "ok (word32 s) (\<lambda>w s'. allowed32 w)"
  unfolding word32_def
  by (intro ok_bindI ok_getrandbits ok_choice ok_adjust with_op_start) (use opcode_ok in auto)

text \<open>The rejection loop: a halfword that is not compressed is drawn again.\<close>

lemma rvc_half_step: "rvc_half s = (let h = tape s (pos s) mod 2 ^ 16 in
    if h mod 4 \<noteq> 3 then Some (h, s\<lparr>pos := Suc (pos s)\<rparr>) else rvc_half (s\<lparr>pos := Suc (pos s)\<rparr>))"
  by (subst rvc_half.simps) (simp add: getrandbits_def draw_def Let_def)

lemma rvc_half_sound: "rvc_half s = Some (h, s') \<Longrightarrow> h < 2 ^ 16 \<and> h mod 4 \<noteq> 3"
proof -
  assume "rvc_half s = Some (h, s')"
  then have "fst (h, s') < 2 ^ 16 \<and> fst (h, s') mod 4 \<noteq> 3"
  proof (rule rvc_half.raw_induct [rotated])
    fix f s r
    assume "\<And>s r. f s = Some r \<Longrightarrow> fst r < 2 ^ 16 \<and> fst r mod 4 \<noteq> 3"
      "Option.bind (getrandbits 16 s) (\<lambda>(h, s). if h mod 4 \<noteq> 3 then Some (h, s) else f s) = Some r"
    then show "fst r < 2 ^ 16 \<and> fst r mod 4 \<noteq> 3" by (auto simp: getrandbits_def draw_def split: if_splits)
  qed
  then show ?thesis by simp
qed

lemma rvc_half_returns:
  "tape s (pos s + n) mod 4 \<noteq> 3 \<Longrightarrow> \<exists>h s'. rvc_half s = Some (h, s')"
proof (induction n arbitrary: s)
  case 0
  have "tape s (pos s) mod 2 ^ 16 mod 4 = tape s (pos s) mod 4" by (rule mod_mod_cancel) simp
  with 0 show ?case by (simp add: rvc_half_step [of s] Let_def)
next
  case (Suc n)
  have "\<exists>h s'. rvc_half (s\<lparr>pos := Suc (pos s)\<rparr>) = Some (h, s')" using Suc by (intro Suc.IH) simp
  then show ?case by (subst rvc_half_step) (simp add: Let_def)
qed

lemma rand_word_cases:
  assumes "rand_word s = Some ((w, n), s')"
  shows "n = 2 \<and> w < 2 ^ 16 \<and> w mod 4 \<noteq> 3 \<or> n = 4 \<and> allowed32 w"
proof -
  obtain b s1 where c: "chance_of p_0_3 s = Some (b, s1)" using assms by (auto simp: rand_word_def bind_eq_Some_conv)
  show ?thesis
  proof (cases b)
    case True
    then show ?thesis using assms c rvc_half_sound by (auto simp: rand_word_def)
  next
    case False
    then obtain s2 where "word32 s1 = Some (w, s2)" "n = 4" using assms c by (auto simp: rand_word_def)
    then show ?thesis using ok_SomeD [OF ok_word32] by blast
  qed
qed

lemma rand_word_some:
  assumes "\<And>m. \<exists>n \<ge> m. tape s n mod 4 \<noteq> 3"
  shows "\<exists>w n s'. rand_word s = Some ((w, n), s')"
proof -
  obtain b s1 where c: "chance_of p_0_3 s = Some (b, s1)" "tape s1 = tape s"
    by (simp add: chance_of_def random_def draw_def)
  show ?thesis
  proof (cases b)
    case True
    obtain n where "n \<ge> pos s1" "tape s1 n mod 4 \<noteq> 3" using assms c(2) by metis
    then obtain h s2 where "rvc_half s1 = Some (h, s2)" using rvc_half_returns [of s1 "n - pos s1"] by auto
    then show ?thesis using c True by (simp add: rand_word_def)
  next
    case False
    obtain w s2 where "word32 s1 = Some (w, s2)" using okD [OF ok_word32] by blast
    then show ?thesis using c False by (simp add: rand_word_def)
  qed
qed

text \<open>The sweep executes only the words it means to: a drawn word is a compressed halfword with size 2, or a 32-bit
  instruction with size 4 that is not JAL, whose SYSTEM forms with funct3 0 are ECALL and EBREAK (with any
  registers) and whose CSR instructions use the listed CSR numbers.\<close>

theorem rand_word_allowed:
  assumes "rand_word s = Some ((w, n), s')"
  shows "n = 2 \<and> w < 2 ^ 16 \<and> w mod 4 \<noteq> 3 \<or> n = 4 \<and> allowed32 w"
  by (rule rand_word_cases [OF assms])

text \<open>Drawing a word ends, unless the random numbers are a halfword with low bits 11 for ever: if some later draw
  is not, \<open>rand_word\<close> returns.\<close>

theorem rand_word_returns:
  assumes "\<And>m. \<exists>n \<ge> m. tape s n mod 4 \<noteq> 3"
  shows "\<exists>w n s'. rand_word s = Some ((w, n), s')"
  by (rule rand_word_some [OF assms])

theorem rand_word_allowed_witness: "\<exists>w n s'. rand_word \<lparr>tape = (\<lambda>_. 0), pos = 0\<rparr> = Some ((w, n), s') \<and> (w, n) = (0, 2)
    \<and> (n = 2 \<and> w < 2 ^ 16 \<and> w mod 4 \<noteq> 3 \<or> n = 4 \<and> allowed32 w)"
proof -
  have "rvc_half \<lparr>tape = (\<lambda>_. 0), pos = 1\<rparr> = Some (0, \<lparr>tape = (\<lambda>_. 0), pos = 2\<rparr>)"
    by (simp add: rvc_half_step Let_def)
  then have "rand_word \<lparr>tape = (\<lambda>_. 0), pos = 0\<rparr> = Some ((0, 2), \<lparr>tape = (\<lambda>_. 0), pos = 2\<rparr>)"
    by (simp add: rand_word_def chance_of_def random_def draw_def below_def p_0_3_def)
  then show ?thesis using rand_word_allowed by blast
qed

theorem rand_word_returns_witness: "\<exists>w n s'. rand_word \<lparr>tape = (\<lambda>_. 4), pos = 0\<rparr> = Some ((w, n), s')"
  by (rule rand_word_returns) auto

end
