(* ===== verification/Encrun.thy ===== *)
theory Encrun
  imports Encsweep
begin

text \<open>
  The rest of \<^verbatim>\<open>tools/spike_diff/encsweep.py\<close>: the program around the drawn word (\<open>build_one\<close>), the address
  the word uses (\<open>effective_address\<close>), the known classes of divergences (\<open>known_class\<close>), and the exit
  status of the sweep. The assembler, Spike and the runner are parameters, as in the other scripts.
\<close>

section \<open>The program\<close>

datatype init = Ptr int | Val nat

fun init_line :: "nat \<Rightarrow> init \<Rightarrow> string" where
  "init_line r (Ptr off) = ''la x'' @ dec_nat r @ '', data_mid+'' @ dec_int off"
| "init_line r (Val v) = ''li x'' @ dec_nat r @ '', 0x'' @ hex_nat v"

definition init_reg :: "rng \<Rightarrow> (init \<times> rng) option" where
  "init_reg s = do {
     (ptr, s) \<leftarrow> chance_of p_0_65 s;
     if ptr then do { (k, s) \<leftarrow> randint (- 200) 200 s; Some (Ptr (4 * k), s) }
     else do {
       (bits, s) \<leftarrow> chance_of p_0_7 s;
       if bits then do { (v, s) \<leftarrow> getrandbits 32 s; Some (Val v, s) }
       else do { (v, s) \<leftarrow> choice [0, 1, 0xFFFFFFFF, 0x80000000] s; Some (Val v, s) } } }"

fun draw_inits :: "nat \<Rightarrow> rng \<Rightarrow> (init list \<times> rng) option" where
  "draw_inits 0 s = Some ([], s)"
| "draw_inits (Suc n) s = do {
     (i, s) \<leftarrow> init_reg s;
     (is, s) \<leftarrow> draw_inits n s;
     Some (i # is, s) }"

text \<open>\<open>rng.sample(population, k)\<close>: k different elements, in random order.\<close>

fun sample :: "nat \<Rightarrow> 'a list \<Rightarrow> rng \<Rightarrow> ('a list \<times> rng) option" where
  "sample 0 pool s = Some ([], s)"
| "sample (Suc k) pool s = do {
     (i, s) \<leftarrow> choice pool s;
     (is, s) \<leftarrow> sample k (remove1 i pool) s;
     Some (i # is, s) }"

fun fill :: "nat list \<Rightarrow> nat list \<Rightarrow> rng \<Rightarrow> (nat list \<times> rng) option" where
  "fill [] ws s = Some (ws, s)"
| "fill (i # is) ws s = do {
     (v, s) \<leftarrow> getrandbits 32 s;
     fill is (ws[i := v]) s }"

definition insn_line :: "nat \<Rightarrow> nat \<Rightarrow> string" where
  "insn_line w n = (if n = 2 then ''.2byte 0x'' @ zfill 4 (hex_nat w) else ''.4byte 0x'' @ zfill 8 (hex_nat w))"

definition enc_lines :: "init list \<Rightarrow> nat \<Rightarrow> nat \<Rightarrow> string list" where
  "enc_lines is w n =
     map (\<lambda>(r, i). init_line r i) (List.enumerate 1 is)
     @ [''j 1f'', ''.skip 4096'', ''1:'', ''test_insn:'', insn_line w n, ''ebreak'', ''.skip 4096'']"

text \<open>The rows of eight words; \<open>data_mid\<close> follows the row that starts at half the words less 8.\<close>

definition enc_data :: "nat list \<Rightarrow> string list" where
  "enc_data ws = [''  .data'', ''  .align 6'', ''data_region:'']
     @ concat (map (\<lambda>(j, row). word_line row # (if 8 * j = DATA_WORDS div 2 - 8 then [''data_mid:''] else []))
                   (List.enumerate 0 (chunks 8 ws)))"

definition enc_source :: "init list \<Rightarrow> nat \<Rightarrow> nat \<Rightarrow> nat list \<Rightarrow> string" where
  "enc_source is w n ws = HEADER @ text_of (indent (enc_lines is w n)) @ trap_handler @ text_of (enc_data ws) @ signature_tail"

definition enc_program :: "rng \<Rightarrow> ((nat \<times> nat \<times> init list \<times> nat list) \<times> rng) option" where
  "enc_program s = do {
     ((w, n), s) \<leftarrow> rand_word s;
     (is, s) \<leftarrow> draw_inits 31 s;
     (idx, s) \<leftarrow> sample 64 [0..<DATA_WORDS] s;
     (ws, s) \<leftarrow> fill idx (replicate DATA_WORDS 0) s;
     Some ((w, n, is, ws), s) }"

datatype enc_result = EFailed string | ERan string syms "int list option" string "int list"

record enc =
  e_seed :: int
  e_word :: nat
  e_size :: nat
  e_asm :: string
  e_result :: enc_result

fun init_value :: "syms \<Rightarrow> init \<Rightarrow> int option" where
  "init_value m (Val v) = Some (int v)"
| "init_value m (Ptr off) = map_option (\<lambda>a. (a + off) mod 2 ^ 32) (m ''data_mid'')"

definition build_one :: "proc \<Rightarrow> spike_proc \<Rightarrow> tools \<Rightarrow> string \<Rightarrow> string \<Rightarrow> int \<Rightarrow> (nat \<Rightarrow> nat) \<Rightarrow> files \<Rightarrow> (enc \<times> files) option" where
  "build_one p sp tools LINK wd seed tp fs = do {
     ((w, n, is, ws), s) \<leftarrow> enc_program \<lparr>tape = tp, pos = 0\<rparr>;
     let asm = path_join wd (''e'' @ dec_int seed @ ''.s'');
         fs1 = fs(asm \<mapsto> enc_source is w n ws)
     in case build_program p (t_cross tools) LINK asm of
          Raised \<Rightarrow> None
        | BuildError e \<Rightarrow> Some (\<lparr>e_seed = seed, e_word = w, e_size = n, e_asm = asm, e_result = EFailed (take 500 e)\<rparr>, fs1)
        | Built (elf, binf, m) \<Rightarrow> do {
            ((words, note), fs2) \<leftarrow> run_spike sp (t_spike tools) [] elf fs1;
            rs \<leftarrow> those (map (init_value m) (Val 0 # is));
            Some (\<lparr>e_seed = seed, e_word = w, e_size = n, e_asm = asm, e_result = ERan binf m words note rs\<rparr>, fs2) } }"

section \<open>Addresses and known divergences\<close>

definition sext :: "nat \<Rightarrow> nat \<Rightarrow> int" where
  "sext v bits = (if v div 2 ^ (bits - 1) mod 2 = 1 then int v - 2 ^ bits else int v)"

definition address_c :: "nat \<Rightarrow> int list \<Rightarrow> int option" where
  "address_c w rs =
     (let op = w mod 4; f3 = w div 2 ^ 13 in
      if op = 0 \<and> (f3 = 2 \<or> f3 = 6) then Some (rs ! (8 + w div 2 ^ 7 mod 8))
      else if op = 2 \<and> (f3 = 2 \<or> f3 = 6) then Some (rs ! 2)
      else if op = 2 \<and> f3 = 4 \<and> w div 4 mod 32 = 0 then Some (rs ! (w div 2 ^ 7 mod 32))
      else None)"

definition address_w :: "nat \<Rightarrow> int list \<Rightarrow> int option" where
  "address_w w rs =
     (let op = w mod 128; rs1 = w div 2 ^ 15 mod 32 in
      if op = 0x03 \<or> op = 0x67 then Some ((rs ! rs1 + sext (w div 2 ^ 20) 12) mod 2 ^ 32)
      else if op = 0x23 then Some ((rs ! rs1 + sext (w div 2 ^ 25 * 32 + w div 2 ^ 7 mod 32) 12) mod 2 ^ 32)
      else if op = 0x2F then Some (rs ! rs1)
      else None)"

definition effective_address :: "nat \<Rightarrow> nat \<Rightarrow> int list \<Rightarrow> int option" where
  "effective_address w n rs = (if n = 2 then address_c w rs else address_w w rs)"

text \<open>Indexing past the end of a register list raises.\<close>

definition counter_read :: "nat \<Rightarrow> nat \<Rightarrow> bool" where
  "counter_read w n \<longleftrightarrow> n = 4 \<and> w mod 128 = 0x73 \<and> w div 2 ^ 12 mod 4 \<in> {2, 3} \<and> w div 2 ^ 20 \<in> {0xC00, 0xC02}"

definition counter_class :: "nat \<Rightarrow> nat \<Rightarrow> spike_st \<Rightarrow> det_rec \<Rightarrow> string list \<Rightarrow> bool option" where
  "counter_class w n sp d diffs =
     (let rd = w div 2 ^ 7 mod 32 in
      if counter_read w n \<and> length diffs = 1 \<and> rd \<noteq> 0 then
        (if rd - 1 < length (sp_regs sp) \<and> rd - 1 < length (regs d)
         then Some ((sp_regs sp ! (rd - 1) - regs d ! (rd - 1)) mod 2 ^ 32 = 8) else None)
      else Some False)"

definition known_class :: "nat \<Rightarrow> nat \<Rightarrow> int list \<Rightarrow> spike_st \<Rightarrow> det_rec \<Rightarrow> string list \<Rightarrow> string option option" where
  "known_class w n rs sp d diffs =
     map_option (\<lambda>ctr.
       if ctr then Some ''absolute cycle/instret value (Spike also counts 8 boot ROM and preamble insns)''
       else case effective_address w n rs of
         Some ea \<Rightarrow> if ea < int LOAD_ADDR + 256 then Some ''memory-map artifact (address below 0x10000)'' else None
       | None \<Rightarrow> None) (counter_class w n sp d diffs)"

section \<open>Judging the programs and the exit status\<close>

text \<open>A \<open>collections.Counter\<close> in insertion order.\<close>

type_synonym counter = "(string \<times> nat) list"

fun bump :: "string \<Rightarrow> counter \<Rightarrow> counter" where
  "bump k [] = [(k, 1)]"
| "bump k ((k', n) # c) = (if k' = k then (k', Suc n) # c else (k', n) # bump k c)"

datatype enc_kind = EBuildError string | ESpikeError string | EConfigs "string list" | EDiffs "string option" "string list"

record sweep =
  sw_st :: counter
  sw_outcomes :: counter
  sw_log :: "(int \<times> nat \<times> enc_kind) list"
  sw_removed :: "string list"

definition tick :: "string \<Rightarrow> sweep \<Rightarrow> sweep" where
  "tick k t = t\<lparr>sw_st := bump k (sw_st t)\<rparr>"

definition write_log :: "enc \<Rightarrow> enc_kind \<Rightarrow> sweep \<Rightarrow> sweep" where
  "write_log r k t = t\<lparr>sw_log := sw_log t @ [(e_seed r, e_word r, k)]\<rparr>"

definition class_key :: "string option \<Rightarrow> string" where
  "class_key k = (case k of Some c \<Rightarrow> ''known: '' @ c | None \<Rightarrow> ''UNKNOWN divergence'')"

definition enc_configs :: "enc \<Rightarrow> string list \<Rightarrow> sweep \<Rightarrow> sweep" where
  "enc_configs r dd t = (if dd \<noteq> [] then write_log r (EConfigs dd) (tick ''UNKNOWN: runner configs differ'' t) else t)"

definition enc_diffs :: "enc \<Rightarrow> int list \<Rightarrow> spike_st \<Rightarrow> det_rec \<Rightarrow> string list \<Rightarrow> string list \<Rightarrow> sweep \<Rightarrow> sweep option" where
  "enc_diffs r rs sp c dd diffs t =
     (if diffs \<noteq> [] then do {
        k \<leftarrow> known_class (e_word r) (e_size r) rs sp c diffs;
        Some (write_log r (EDiffs k (take 6 diffs)) (tick (class_key k) t)) }
      else if dd = [] then Some ((tick ''match'' t)\<lparr>sw_removed := sw_removed t @ [e_asm r]\<rparr>)
      else Some t)"

definition enc_judge :: "results \<Rightarrow> enc \<Rightarrow> sweep \<Rightarrow> sweep option" where
  "enc_judge det r t0 =
     (let t = tick ''programs'' t0 in
      case e_result r of
        EFailed e \<Rightarrow> Some (write_log r (EBuildError e) (tick ''build_error'' t))
      | ERan binf m None note rs \<Rightarrow> Some (write_log r (ESpikeError note) (tick ''spike_error'' t))
      | ERan binf m (Some words) note rs \<Rightarrow> do {
          sp \<leftarrow> spike_state words m;
          rec \<leftarrow> det binf;
          c \<leftarrow> rec ''cache'';
          diffs \<leftarrow> compare sp c;
          let dd = compare_configs rec;
              oc = status c @ ''/mcause='' @ dec_int (mcause sp)
          in enc_diffs r rs sp c dd diffs (enc_configs r dd (t\<lparr>sw_outcomes := bump oc (sw_outcomes t)\<rparr>)) })"

fun enc_judge_all :: "results \<Rightarrow> enc list \<Rightarrow> sweep \<Rightarrow> sweep option" where
  "enc_judge_all det [] t = Some t"
| "enc_judge_all det (r # rs) t = Option.bind (enc_judge det r t) (enc_judge_all det rs)"

fun enc_batches :: "(results \<times> enc list) list \<Rightarrow> sweep \<Rightarrow> sweep option" where
  "enc_batches [] t = Some t"
| "enc_batches ((det, rs) # bs) t = Option.bind (enc_judge_all det rs t) (enc_batches bs)"

text \<open>The manifest of a batch: a line for every program that ran on Spike.\<close>

fun enc_manifest :: "enc list \<Rightarrow> string option" where
  "enc_manifest [] = Some []"
| "enc_manifest (r # rs) =
     (case e_result r of
        ERan binf m (Some _) _ _ \<Rightarrow> do {
          line \<leftarrow> manifest_line binf m ENC_MAX_STEPS;
          rest \<leftarrow> enc_manifest rs;
          Some (line @ nl @ rest) }
      | _ \<Rightarrow> enc_manifest rs)"

definition unknown_key :: "string \<Rightarrow> bool" where
  "unknown_key k \<longleftrightarrow> startswith k ''UNKNOWN'' \<or> endswith k ''_error''"

definition unknown :: "counter \<Rightarrow> nat" where
  "unknown c = sum_list (map snd (filter (\<lambda>(k, _). unknown_key k) c))"

definition sweep0 :: sweep where
  "sweep0 = \<lparr>sw_st = [], sw_outcomes = [], sw_log = [], sw_removed = []\<rparr>"

definition enc_exit :: "(results \<times> enc list) list \<Rightarrow> nat option" where
  "enc_exit bs = map_option (\<lambda>t. if unknown (sw_st t) \<noteq> 0 then 1 else 0) (enc_batches bs sweep0)"

section \<open>The shape of a program\<close>

fun init_ok :: "init \<Rightarrow> bool" where
  "init_ok (Ptr off) \<longleftrightarrow> off mod 4 = 0 \<and> - 800 \<le> off \<and> off \<le> 800"
| "init_ok (Val v) \<longleftrightarrow> v < 2 ^ 32"

lemma ok_init_reg [wp_intro]:
  assumes "\<And>i q. init_ok i \<Longrightarrow> Q i (s\<lparr>pos := q\<rparr>)"
  shows "ok (init_reg s) Q"
  unfolding init_reg_def using assms
  by (intro ok_bindI ok_ifI ok_SomeI wp_intro) (auto simp: less_eq_Suc_le intro!: assms)

lemma ok_draw_inits:
  "(\<And>is q. length is = n \<Longrightarrow> list_all init_ok is \<Longrightarrow> Q is (s\<lparr>pos := q\<rparr>)) \<Longrightarrow> ok (draw_inits n s) Q"
proof (induction n arbitrary: s Q)
  case 0
  from 0 [of "[]" "pos s"] show ?case by simp
next
  case (Suc n)
  show ?case
    unfolding draw_inits.simps
    by (intro ok_bindI ok_init_reg Suc.IH ok_SomeI) (auto intro: Suc.prems)
qed

lemma ok_sample:
  "k \<le> length pool \<Longrightarrow> distinct pool \<Longrightarrow>
   (\<And>xs q. length xs = k \<Longrightarrow> distinct xs \<Longrightarrow> set xs \<subseteq> set pool \<Longrightarrow> Q xs (s\<lparr>pos := q\<rparr>)) \<Longrightarrow> ok (sample k pool s) Q"
proof (induction k arbitrary: pool s Q)
  case 0
  from 0(3) [of "[]" "pos s"] show ?case by simp
next
  case (Suc k)
  show ?case
    unfolding sample.simps
  proof (intro ok_bindI ok_choice Suc.IH ok_SomeI)
    show "pool \<noteq> []" using Suc.prems(1) by auto
    show "k \<le> length (remove1 x pool)" if "x \<in> set pool" for x using that Suc.prems(1) by (simp add: length_remove1)
    show "distinct (remove1 x pool)" for x using Suc.prems(2) by simp
    show "Q (x # xs) (s\<lparr>pos := q, pos := q'\<rparr>)"
      if "x \<in> set pool" "length xs = k" "distinct xs" "set xs \<subseteq> set (remove1 x pool)" for x q xs q'
      using that Suc.prems(2) by (auto intro!: Suc.prems(3))
  qed
qed

lemma list_all_update: "list_all P ws \<Longrightarrow> P v \<Longrightarrow> list_all P (ws[i := v])"
  using set_update_subset_insert [of ws i v] by (auto simp: list_all_iff)

lemma ok_fill:
  "(\<And>ws' q. length ws' = length ws \<Longrightarrow> (list_all (\<lambda>w. w < 2 ^ 32) ws \<Longrightarrow> list_all (\<lambda>w. w < 2 ^ 32) ws') \<Longrightarrow>
      (\<And>j. j < length ws \<Longrightarrow> j \<notin> set is \<Longrightarrow> ws' ! j = ws ! j) \<Longrightarrow> Q ws' (s\<lparr>pos := q\<rparr>)) \<Longrightarrow> ok (fill is ws s) Q"
proof (induction "is" arbitrary: ws s Q)
  case Nil
  from Nil [of ws "pos s"] show ?case by simp
next
  case (Cons i "is")
  show ?case
    unfolding fill.simps
    by (intro ok_bindI ok_getrandbits Cons.IH) (auto intro!: Cons.prems simp: list_all_update)
qed

definition enc_ok :: "nat \<times> nat \<times> init list \<times> nat list \<Rightarrow> bool" where
  "enc_ok = (\<lambda>(w, n, is, ws). (n = 2 \<and> w < 2 ^ 16 \<and> w mod 4 \<noteq> 3 \<or> n = 4 \<and> allowed32 w) \<and> length is = 31 \<and> list_all init_ok is
     \<and> length ws = DATA_WORDS \<and> list_all (\<lambda>w. w < 2 ^ 32) ws \<and> card {j. j < DATA_WORDS \<and> ws ! j \<noteq> 0} \<le> 64)"

lemma enc_program_ok:
  assumes "enc_program s = Some (r, s')"
  shows "enc_ok r"
proof -
  obtain w n s1 where w: "rand_word s = Some ((w, n), s1)" and rest: "(do {
     (is, s) \<leftarrow> draw_inits 31 s1;
     (idx, s) \<leftarrow> sample 64 [0..<DATA_WORDS] s;
     (ws, s) \<leftarrow> fill idx (replicate DATA_WORDS 0) s;
     Some ((w, n, is, ws), s) }) = Some (r, s')"
    using assms unfolding enc_program_def by (auto simp: bind_eq_Some_conv [of "rand_word s"])
  have word: "n = 2 \<and> w < 2 ^ 16 \<and> w mod 4 \<noteq> 3 \<or> n = 4 \<and> allowed32 w" by (rule rand_word_cases [OF w])
  have c: "card {j. j < DATA_WORDS \<and> ws ! j \<noteq> 0} \<le> 64"
    if "\<And>j. j < DATA_WORDS \<Longrightarrow> j \<notin> set idx \<Longrightarrow> ws ! j = 0" "length idx = 64" for ws :: "nat list" and idx
  proof -
    have "{j. j < DATA_WORDS \<and> ws ! j \<noteq> 0} \<subseteq> set idx"
    proof (rule subsetI)
      fix j assume "j \<in> {j. j < DATA_WORDS \<and> ws ! j \<noteq> 0}"
      then show "j \<in> set idx" using that(1) [of j] by (cases "j \<in> set idx") simp_all
    qed
    then have "card {j. j < DATA_WORDS \<and> ws ! j \<noteq> 0} \<le> card (set idx)" by (intro card_mono) simp_all
    then show ?thesis using card_length [of idx] that(2) by simp
  qed
  have "ok (do {
     (is, s) \<leftarrow> draw_inits 31 s1;
     (idx, s) \<leftarrow> sample 64 [0..<DATA_WORDS] s;
     (ws, s) \<leftarrow> fill idx (replicate DATA_WORDS 0) s;
     Some ((w, n, is, ws), s) }) (\<lambda>r s. enc_ok r)"
  proof (intro ok_bindI ok_draw_inits ok_sample ok_fill ok_SomeI)
    show "64 \<le> length [0..<DATA_WORDS]" by (simp add: DATA_WORDS_def)
    show "distinct [0..<DATA_WORDS]" by simp
    fix "is" :: "init list" and q :: nat and idx :: "nat list" and q' :: nat and ws :: "nat list" and q'' :: nat
    assume a: "length is = 31" "list_all init_ok is" "length idx = 64"
      and len: "length ws = length (replicate DATA_WORDS (0 :: nat))"
      and all: "list_all (\<lambda>w. w < 2 ^ 32) (replicate DATA_WORDS (0 :: nat)) \<Longrightarrow> list_all (\<lambda>w. w < 2 ^ 32) ws"
      and rest: "\<And>j. j < length (replicate DATA_WORDS (0 :: nat)) \<Longrightarrow> j \<notin> set idx \<Longrightarrow> ws ! j = replicate DATA_WORDS 0 ! j"
    have "list_all (\<lambda>w. w < 2 ^ 32) ws" by (rule all) (simp add: list_all_iff)
    moreover have "card {j. j < DATA_WORDS \<and> ws ! j \<noteq> 0} \<le> 64" by (rule c [OF _ a(3)]) (use rest in simp)
    ultimately show "enc_ok (w, n, is, ws)" using word a len by (simp only: enc_ok_def case_prod_conv length_replicate simp_thms)
  qed
  from ok_SomeD [OF this rest] show ?thesis .
qed

text \<open>C40. Every program of the sweep starts with registers that are a multiple of 4 at most 800 from \<open>data_mid\<close> or a 32-bit
  value, executes one allowed word of its size, and has 2048 data words of 32 bits, at most 64 of them
  non-zero.\<close>

theorem sweep_program_shape:
  assumes "enc_program s = Some ((w, n, is, ws), s')"
  shows "(n = 2 \<and> w < 2 ^ 16 \<and> w mod 4 \<noteq> 3 \<or> n = 4 \<and> allowed32 w) \<and> length is = 31 \<and> list_all init_ok is
     \<and> length ws = DATA_WORDS \<and> list_all (\<lambda>w. w < 2 ^ 32) ws \<and> card {j. j < DATA_WORDS \<and> ws ! j \<noteq> 0} \<le> 64"
  using enc_program_ok [OF assms] by (simp only: enc_ok_def case_prod_conv)

lemma enc_program_returns:
  assumes "\<And>m. \<exists>n \<ge> m. tape s n mod 4 \<noteq> 3"
  shows "\<exists>r s'. enc_program s = Some (r, s')"
proof -
  obtain w n s1 where w: "rand_word s = Some ((w, n), s1)" using rand_word_some [OF assms] by blast
  have "ok (do {
     (is, s) \<leftarrow> draw_inits 31 s1;
     (idx, s) \<leftarrow> sample 64 [0..<DATA_WORDS] s;
     (ws, s) \<leftarrow> fill idx (replicate DATA_WORDS 0) s;
     Some ((w, n, is, ws), s) }) (\<lambda>r s. True)"
    by (intro ok_bindI ok_draw_inits ok_sample ok_fill ok_SomeI TrueI) (simp_all add: DATA_WORDS_def)
  from okD [OF this] show ?thesis unfolding enc_program_def w by auto
qed

theorem sweep_program_shape_witness:
  "\<exists>w n is ws s'. enc_program \<lparr>tape = (\<lambda>_. 0), pos = 0\<rparr> = Some ((w, n, is, ws), s') \<and> length is = 31 \<and> length ws = DATA_WORDS"
proof -
  obtain r s' where "enc_program \<lparr>tape = (\<lambda>_. 0), pos = 0\<rparr> = Some (r, s')"
    using enc_program_returns [of "\<lparr>tape = (\<lambda>_. 0), pos = 0\<rparr>"] by (metis mod_0 nle_le rng.select_convs(1) zero_neq_numeral)
  moreover obtain w n "is" ws where "r = (w, n, is, ws)" by (cases r)
  ultimately have "enc_program \<lparr>tape = (\<lambda>_. 0), pos = 0\<rparr> = Some ((w, n, is, ws), s')" by simp
  from sweep_program_shape [OF this] this show ?thesis by blast
qed

section \<open>The address of the word\<close>

definition reg_ok :: "int \<Rightarrow> bool" where
  "reg_ok v \<longleftrightarrow> 0 \<le> v \<and> v < 2 ^ 32"

text \<open>The register the address starts from, and the offset added to it.\<close>

definition base_of :: "nat \<Rightarrow> nat \<Rightarrow> nat" where
  "base_of w n =
     (if n = 2 then (if w mod 4 = 0 then 8 + w div 2 ^ 7 mod 8 else if w div 2 ^ 13 = 4 then w div 2 ^ 7 mod 32 else 2)
      else w div 2 ^ 15 mod 32)"

lemma sext_range: "v < 2 ^ 12 \<Longrightarrow> - 2048 \<le> sext v 12 \<and> sext v 12 \<le> 2047"
proof -
  assume v: "v < 2 ^ 12"
  show ?thesis
  proof (cases "v < 2 ^ 11")
    case False
    then have "v div 2 ^ 11 = 1" using v by (intro div_nat_eqI) auto
    with False v show ?thesis by (simp add: sext_def)
  qed (simp add: sext_def)
qed

lemma base_of_lt: "base_of w n < 32"
proof -
  have "w div 2 ^ 7 mod 8 < 8" "w div 2 ^ 7 mod 32 < 32" "w div 2 ^ 15 mod 32 < 32" by simp_all
  then show ?thesis unfolding base_of_def by (auto simp del: mod_less_divisor)
qed

lemma address_form:
  assumes "effective_address w n rs = Some ea" "w < 2 ^ 32"
  shows "ea = rs ! base_of w n \<or> (\<exists>d. - 2048 \<le> d \<and> d \<le> 2047 \<and> ea = (rs ! base_of w n + d) mod 2 ^ 32)"
proof (cases "n = 2")
  case True
  then show ?thesis using assms(1) by (auto simp: effective_address_def address_c_def base_of_def Let_def split: if_splits)
next
  case False
  have "w div 2 ^ 20 < 2 ^ 12" using assms(2) by (simp add: less_mult_imp_div_less)
  moreover have "w div 2 ^ 25 * 32 + w div 2 ^ 7 mod 32 < 2 ^ 12"
  proof -
    have "w div 2 ^ 25 < 2 ^ 7" using assms(2) by (simp add: less_mult_imp_div_less)
    then have "w div 2 ^ 25 * 32 \<le> (2 ^ 7 - 1) * 32" by (intro mult_le_mono1) simp
    moreover have "w div 2 ^ 7 mod 32 < 32" by simp
    ultimately show ?thesis by simp
  qed
  ultimately have "\<forall>v \<in> {sext (w div 2 ^ 20) 12, sext (w div 2 ^ 25 * 32 + w div 2 ^ 7 mod 32) 12}. - 2048 \<le> v \<and> v \<le> 2047"
    using sext_range by blast
  then show ?thesis using assms(1) False
    unfolding effective_address_def address_w_def base_of_def Let_def by (auto simp only: if_False split: if_splits)
qed

text \<open>C34. The address the sweep classifies by is a 32-bit address: that of one of the 32 registers, or of one plus a
  sign-extended 12-bit offset modulo 2^32. When the register is a pointer set up by the program, the
  address and the three bytes behind it are in the 8 KiB data region.\<close>

theorem address_in_region:
  assumes "effective_address w n rs = Some ea" and "w < 2 ^ 32"
    and "list_all reg_ok rs" and "length rs = 32"
  shows "0 \<le> ea \<and> ea < 2 ^ 32 \<and> (\<exists>r d. r < 32 \<and> - 2048 \<le> d \<and> d \<le> 2047 \<and> ea = (rs ! r + d) mod 2 ^ 32)
     \<and> (init_value m i = Some (rs ! base_of w n) \<and> i = Ptr off \<and> init_ok i \<and> m ''data_mid'' = Some a
          \<and> 4 * int DATA_WORDS div 2 \<le> a \<and> a + 4 * int DATA_WORDS div 2 \<le> 2 ^ 32
        \<longrightarrow> a - 4 * int DATA_WORDS div 2 \<le> ea \<and> ea + 4 \<le> a + 4 * int DATA_WORDS div 2)"
proof -
  let ?b = "rs ! base_of w n"
  have b: "0 \<le> ?b" "?b < 2 ^ 32" using assms(3,4) base_of_lt [of w n] by (auto simp: list_all_length reg_ok_def)
  obtain d where d: "- 2048 \<le> d" "d \<le> 2047" "ea = (?b + d) mod 2 ^ 32"
  proof (cases "ea = ?b")
    case True
    with b show ?thesis by (intro that [of 0]) simp_all
  qed (use that address_form [OF assms(1,2)] in blast)
  have reg: "a - 4096 \<le> ea \<and> ea + 4 \<le> a + 4096"
    if p: "?b = (a + off) mod 2 ^ 32" "- 800 \<le> off" "off \<le> 800" "4096 \<le> a" "a + 4096 \<le> 2 ^ 32"
  proof -
    have "?b = a + off" unfolding p(1) using p(2-5) by (intro mod_pos_pos_trivial) simp_all
    moreover have "(a + off + d) mod 2 ^ 32 = a + off + d" using p(2-5) d(1,2) by (intro mod_pos_pos_trivial) simp_all
    ultimately show ?thesis using p(2,3) d by simp
  qed
  show ?thesis
  proof (intro conjI impI exI)
    show "ea = (rs ! base_of w n + d) mod 2 ^ 32" by (rule d(3))
  qed (use d base_of_lt reg in \<open>auto simp: DATA_WORDS_def\<close>)
qed

theorem address_in_region_witness:
  "effective_address 0x0080A083 4 (replicate 32 0x20000) = Some 0x20008
   \<and> (0x20000 :: int) - 4 * int DATA_WORDS div 2 \<le> 0x20008 \<and> (0x20008 :: int) + 4 \<le> 0x20000 + 4 * int DATA_WORDS div 2"
proof -
  have e: "effective_address 0x0080A083 4 (replicate 32 0x20000) = Some 0x20008"
    by (simp add: effective_address_def address_w_def Let_def sext_def)
  have b: "base_of 0x0080A083 4 = 1" by (simp add: base_of_def)
  have l: "list_all reg_ok (replicate 32 0x20000)" by (simp add: list_all_length reg_ok_def)
  show ?thesis
    using e address_in_region [OF e _ l, of "[''data_mid'' \<mapsto> 0x20000]" "Ptr 0" 0 "0x20000"] b by (simp add: DATA_WORDS_def)
qed

section \<open>What exit status 0 means\<close>

definition tolerated :: "results \<Rightarrow> enc \<Rightarrow> bool" where
  "tolerated det r \<longleftrightarrow>
     (\<exists>binf m words note rs sp d rec. e_result r = ERan binf m (Some words) note rs \<and> spike_state words m = Some sp
        \<and> det binf = Some rec \<and> (\<forall>c \<in> set CONFIGS. rec c = Some d)
        \<and> (agree sp d \<or> (\<exists>ds k. compare sp d = Some ds \<and> known_class (e_word r) (e_size r) rs sp d ds = Some (Some k))))"

lemma unknown_bump: "unknown (bump k c) = unknown c + (if unknown_key k then 1 else 0)"
  by (induction k c rule: bump.induct) (auto simp: unknown_def)

lemma unknown_keys [simp]:
  "\<not> unknown_key ''programs''" "unknown_key ''build_error''" "unknown_key ''spike_error''" "\<not> unknown_key ''match''"
  "unknown_key ''UNKNOWN: runner configs differ''" "unknown_key (class_key None)"
  by (simp_all add: unknown_key_def class_key_def endswith_def)

lemma known_keys: "known_class w n rs sp d ds = Some (Some k) \<Longrightarrow> \<not> unknown_key (class_key (Some k))"
  by (auto simp: known_class_def unknown_key_def class_key_def endswith_def split: option.splits if_splits)

definition badness :: "sweep \<Rightarrow> nat" where
  "badness t = unknown (sw_st t)"

lemma badness_simps [simp]:
  "badness (tick k t) = badness t + (if unknown_key k then 1 else 0)" "badness (write_log r e t) = badness t"
  "badness (sw_outcomes_update g t) = badness t" "badness (sw_removed_update h t) = badness t"
  by (simp_all add: badness_def tick_def write_log_def unknown_bump)

lemma badness_configs [simp]: "badness (enc_configs r dd t) = badness t + (if dd = [] then 0 else 1)"
  by (simp add: enc_configs_def)

lemma badness_diffs:
  assumes "enc_diffs r rs sp c dd diffs t = Some t'"
  shows "badness t' = badness t + (if diffs = [] \<or> (\<exists>k. known_class (e_word r) (e_size r) rs sp c diffs = Some (Some k)) then 0 else 1)"
proof (cases "diffs = []")
  case False
  then obtain k where k: "known_class (e_word r) (e_size r) rs sp c diffs = Some k"
    "t' = write_log r (EDiffs k (take 6 diffs)) (tick (class_key k) t)"
    using assms by (auto simp: enc_diffs_def bind_eq_Some_conv)
  then show ?thesis using False known_keys by (cases k) auto
qed (use assms in \<open>auto simp: enc_diffs_def split: if_splits\<close>)

lemma enc_judge_bad:
  assumes "enc_judge det r t = Some t'" "shaped det"
  shows "badness t \<le> badness t' \<and> (badness t' = badness t \<longleftrightarrow> tolerated det r)"
proof (cases "\<exists>binf m words note rs. e_result r = ERan binf m (Some words) note rs")
  case False
  then have "\<not> tolerated det r" by (auto simp: tolerated_def)
  moreover from False have "badness t' = Suc (badness t)"
    using assms(1) by (cases "e_result r") (auto simp: enc_judge_def Let_def split: option.splits)
  ultimately show ?thesis by simp
next
  case True
  then obtain binf m words nt rs where p: "e_result r = ERan binf m (Some words) nt rs" by blast
  obtain sp rec c diffs u where x: "spike_state words m = Some sp" "det binf = Some rec" "rec ''cache'' = Some c" "compare sp c = Some diffs"
    and u: "enc_diffs r rs sp c (compare_configs rec) diffs (enc_configs r (compare_configs rec) u) = Some t'" "badness u = badness t"
    using assms(1) by (auto simp: enc_judge_def p Let_def bind_eq_Some_conv)
  have d: "diffs = [] \<longleftrightarrow> agree sp c" using compare_shaped [OF x(1) assms(2) x(2,3)] x(4) by auto
  have c: "(\<exists>d. (\<forall>c \<in> set CONFIGS. rec c = Some d) \<and> P d) \<longleftrightarrow> compare_configs rec = [] \<and> P c" for P
    unfolding configs_equal using x(3) by (auto simp: CONFIGS_def)
  have "tolerated det r \<longleftrightarrow> (\<exists>d. (\<forall>c \<in> set CONFIGS. rec c = Some d)
      \<and> (agree sp d \<or> (\<exists>ds k. compare sp d = Some ds \<and> known_class (e_word r) (e_size r) rs sp d ds = Some (Some k))))"
    by (simp add: tolerated_def p x(1,2))
  also have "\<dots> \<longleftrightarrow> compare_configs rec = [] \<and> (diffs = [] \<or> (\<exists>k. known_class (e_word r) (e_size r) rs sp c diffs = Some (Some k)))"
    unfolding c d x(4) by simp
  finally show ?thesis using badness_diffs [OF u(1)] u(2) by simp
qed

lemma enc_judge_all_bad:
  "enc_judge_all det rs t = Some t' \<Longrightarrow> shaped det \<Longrightarrow>
   badness t \<le> badness t' \<and> (badness t' = badness t \<longleftrightarrow> list_all (tolerated det) rs)"
proof (induction rs arbitrary: t)
  case (Cons r rs)
  then obtain t1 where t1: "enc_judge det r t = Some t1" "enc_judge_all det rs t1 = Some t'" by (auto simp: bind_eq_Some_conv)
  with Cons.IH [OF t1(2) Cons.prems(2)] enc_judge_bad [OF t1(1) Cons.prems(2)] show ?case by auto
qed simp

lemma enc_batches_bad:
  "enc_batches bs t = Some t' \<Longrightarrow> list_all (\<lambda>(det, _). shaped det) bs \<Longrightarrow>
   badness t \<le> badness t' \<and> (badness t' = badness t \<longleftrightarrow> list_all (\<lambda>(det, rs). list_all (tolerated det) rs) bs)"
proof (induction bs arbitrary: t)
  case (Cons b bs)
  obtain det rs where b: "b = (det, rs)" by (cases b)
  with Cons.prems obtain t1 where t1: "enc_judge_all det rs t = Some t1" "enc_batches bs t1 = Some t'" by (auto simp: bind_eq_Some_conv)
  with Cons.IH [OF t1(2)] enc_judge_all_bad [OF t1(1)] Cons.prems(2) b show ?case by auto
qed simp

text \<open>The sweep's exit status is 0 exactly when every program of every batch built and ran on Spike, gave three equal
  runner records, and either ended in the same state on both machines or diverged in a known class.\<close>

theorem sweep_exit_zero_iff:
  assumes "enc_exit bs = Some n" and "list_all (\<lambda>(det, _). shaped det) bs"
  shows "n = 0 \<longleftrightarrow> list_all (\<lambda>(det, rs). list_all (tolerated det) rs) bs"
proof -
  obtain t where t: "enc_batches bs sweep0 = Some t" "n = (if badness t \<noteq> 0 then 1 else 0)"
    using assms(1) by (auto simp: enc_exit_def badness_def)
  have "badness sweep0 = 0" by (simp add: badness_def sweep0_def unknown_def)
  then show ?thesis using enc_batches_bad [OF t(1) assms(2)] t(2) by auto
qed

definition sample_enc :: enc where
  "sample_enc = \<lparr>e_seed = 0, e_word = 0, e_size = 2, e_asm = ''e0.s'',
     e_result = ERan ''e0.bin'' [''trap_dump'' \<mapsto> 0x10004] (Some sample_words) [] (replicate 32 0)\<rparr>"

definition sample_records :: results where
  "sample_records = [''e0.bin'' \<mapsto> [''cache'' \<mapsto> sample_det, ''nocache'' \<mapsto> sample_det, ''runtime'' \<mapsto> sample_det]]"

lemma sample_records_shaped: "shaped sample_records"
  using sample_det_shape by (auto simp: shaped_def sample_records_def split: if_splits)

theorem sweep_exit_zero_iff_witness:
  "enc_exit [(sample_records, [sample_enc])] = Some 0 \<and> tolerated sample_records sample_enc"
proof -
  obtain sp where s: "spike_state sample_words [''trap_dump'' \<mapsto> 0x10004] = Some sp" "agree sp sample_det" using sample_agree by blast
  obtain ds where "compare sp sample_det = Some ds" "ds = []" using compare_agree [OF spike_state_shape [OF s(1)] sample_det_shape] s(2) by blast
  then have "\<exists>t. enc_judge sample_records sample_enc sweep0 = Some t"
    using s(1) by (auto simp: enc_judge_def sample_enc_def sample_records_def Let_def enc_diffs_def)
  then obtain t where "enc_judge sample_records sample_enc sweep0 = Some t" by blast
  then have e: "enc_exit [(sample_records, [sample_enc])] = Some (if unknown (sw_st t) \<noteq> 0 then 1 else 0)" by (simp add: enc_exit_def)
  have tol: "tolerated sample_records sample_enc"
    using s by (auto simp: tolerated_def sample_enc_def sample_records_def CONFIGS_def)
  then show ?thesis using sweep_exit_zero_iff [OF e] e sample_records_shaped by (simp split: if_splits)
qed

end
