(* ===== verification/Batches.thy ===== *)
theory Batches
  imports Gen_Program Fuzz Encrun "HOL-Library.List_Lexorder" "HOL-Library.Char_ord"
begin

text \<open>
  The loops of the two random testers, \<open>main\<close> of \<^verbatim>\<open>fuzz.py\<close> and of \<^verbatim>\<open>encsweep.py\<close>: the seeds in batches, each batch built and run on
  Spike, written to a manifest, run on Determinant and judged, the files removed, and the totals. What
  the runs share is the locale \<open>batch_loop\<close>.

  The workers of a batch each write files of their own, so the model runs them one after the other.
\<close>

section \<open>Ranges and batches\<close>

text \<open>\<open>list(range(a, b, s))\<close>; a step of 0 raises.\<close>

definition range_len :: "int \<Rightarrow> int \<Rightarrow> int \<Rightarrow> nat" where
  "range_len a b s = (if 0 < s then nat ((b - a + s - 1) div s) else nat ((a - b - s - 1) div - s))"

definition py_range :: "int \<Rightarrow> int \<Rightarrow> int \<Rightarrow> int list option" where
  "py_range a b s = (if s = 0 then None else Some (map (\<lambda>i. a + s * int i) [0..<range_len a b s]))"

text \<open>\<open>list(range(a, b))\<close>, and \<open>xs[i:i + n]\<close> for \<open>i\<close> and \<open>n\<close> not negative.\<close>

definition upto_excl :: "int \<Rightarrow> int \<Rightarrow> int list" where
  "upto_excl a b = map (\<lambda>i. a + int i) [0..<nat (b - a)]"

definition slice :: "int \<Rightarrow> int \<Rightarrow> 'a list \<Rightarrow> 'a list" where
  "slice i n xs = take (nat n) (drop (nat i) xs)"

text \<open>The batches one after the other, with the state they thread; a batch that raises ends the loop.\<close>

fun run_batches :: "('x \<Rightarrow> 's \<Rightarrow> 's option) \<Rightarrow> 'x list \<Rightarrow> 's \<Rightarrow> 's option" where
  "run_batches step [] s = Some s"
| "run_batches step (x # xs) s = Option.bind (step x s) (run_batches step xs)"

lemma py_range_one: "py_range a b 1 = Some (upto_excl a b)"
  by (simp add: py_range_def upto_excl_def range_len_def)

lemma concat_takes:
  assumes "0 < k" "length xs \<le> k * m"
  shows "concat (map (\<lambda>i. take k (drop (k * i) xs)) [0..<m]) = xs"
  using assms(2)
proof (induction m arbitrary: xs)
  case (Suc m)
  have "map (\<lambda>i. take k (drop (k * i) xs)) [0..<Suc m] = take k xs # map (\<lambda>i. take k (drop (k * i) (drop k xs))) [0..<m]"
    unfolding upt_conv_Cons [OF zero_less_Suc] map_Suc_upt [symmetric] by (simp add: add.commute)
  then show ?case using Suc.IH [of "drop k xs"] Suc.prems by simp
qed simp

lemma range_len_enough: "0 < s \<Longrightarrow> b - a \<le> s * int (range_len a b s)"
proof -
  assume s: "0 < s"
  have "(b - a + s - 1) mod s < s" using s by simp
  moreover have "b - a + s - 1 = s * ((b - a + s - 1) div s) + (b - a + s - 1) mod s" by simp
  ultimately have "b - a \<le> s * ((b - a + s - 1) div s)" by linarith
  also have "\<dots> \<le> s * int (range_len a b s)" using s by (intro mult_left_mono) (simp_all add: range_len_def)
  finally show ?thesis .
qed

text \<open>Both scripts visit every seed once, in order: \<open>seeds[b:b + n]\<close>, and \<open>range(b, min(b + n, end))\<close>.\<close>

lemma slices_all:
  assumes "py_range 0 (int (length xs)) n = Some bs" "0 < n"
  shows "concat (map (\<lambda>b. slice b n xs) bs) = xs"
proof -
  have bs: "bs = map (\<lambda>i. n * int i) [0..<range_len 0 (int (length xs)) n]" using assms by (simp add: py_range_def)
  have "nat (n * int i) = nat n * i" for i using assms(2) by (simp add: nat_mult_distrib)
  then have "map (\<lambda>b. slice b n xs) bs = map (\<lambda>i. take (nat n) (drop (nat n * i) xs)) [0..<range_len 0 (int (length xs)) n]"
    by (simp add: bs slice_def)
  moreover have "length xs \<le> nat n * range_len 0 (int (length xs)) n"
  proof -
    have "int (length xs) \<le> int (nat n * range_len 0 (int (length xs)) n)"
      using range_len_enough [OF assms(2), of "int (length xs)" 0] assms(2) by simp
    then show ?thesis by (simp only: of_nat_le_iff)
  qed
  ultimately show ?thesis using concat_takes [of "nat n" xs] assms(2) by simp
qed

lemma cut: "0 < n \<Longrightarrow> 0 \<le> k \<Longrightarrow> nat (min (a + k + n) b - (a + k)) = min (nat (b - a) - nat k) (nat n)"
  by (simp add: min_def) linarith

lemma upto_part:
  assumes "0 < n"
  shows "upto_excl (a + n * int i) (min (a + n * int i + n) b) = take (nat n) (drop (nat n * i) (upto_excl a b))"
proof (rule nth_equalityI)
  have e: "nat n * i = nat (n * int i)" using assms by (simp add: nat_mult_distrib)
  show l: "length (upto_excl (a + n * int i) (min (a + n * int i + n) b)) = length (take (nat n) (drop (nat n * i) (upto_excl a b)))"
    unfolding e upto_excl_def using cut [of n "n * int i"] assms by simp
  fix j assume "j < length (upto_excl (a + n * int i) (min (a + n * int i + n) b))"
  then have "j < nat n" "j < nat (b - a) - nat n * i" unfolding l by (simp_all add: upto_excl_def)
  moreover have "int (nat n * i) = n * int i" using assms by simp
  ultimately show "upto_excl (a + n * int i) (min (a + n * int i + n) b) ! j = take (nat n) (drop (nat n * i) (upto_excl a b)) ! j"
    using \<open>j < length _\<close> assms by (simp add: upto_excl_def)
qed

lemma ranges_all:
  assumes "py_range a b n = Some bs" "0 < n"
  shows "concat (map (\<lambda>x. upto_excl x (min (x + n) b)) bs) = upto_excl a b"
proof -
  have bs: "bs = map (\<lambda>i. a + n * int i) [0..<range_len a b n]" using assms by (simp add: py_range_def)
  have "length (upto_excl a b) \<le> nat n * range_len a b n"
  proof -
    have "b - a \<le> int (nat n * range_len a b n)" using range_len_enough [OF assms(2), of b a] assms(2) by simp
    then show ?thesis by (simp add: upto_excl_def nat_le_iff)
  qed
  then show ?thesis using concat_takes [of "nat n" "upto_excl a b"] assms(2) by (simp add: bs upto_part comp_def)
qed

section \<open>What a batch promises\<close>

text \<open>A batch gives the programs of its seeds, in order, each judged with the runner's records of its batch; the
  number of bad ones never falls, and stays the same exactly when every program of the batch is good. The last law may rest on a
  property \<open>sound\<close> of the runner.\<close>

locale batch_loop =
  fixes step :: "'b \<Rightarrow> 's \<Rightarrow> 's option"
    and seeds :: "'b \<Rightarrow> 'x list"
    and bad :: "'s \<Rightarrow> nat"
    and total :: "'s \<Rightarrow> nat"
    and seed_of :: "'r \<Rightarrow> 'x"
    and judged :: "'r \<Rightarrow> bool"
    and good :: "'r \<Rightarrow> bool"
    and sound :: bool
  assumes step_law: "step b s = Some s' \<Longrightarrow> \<exists>rs. map seed_of rs = seeds b \<and> list_all judged rs
    \<and> (sound \<longrightarrow> bad s \<le> bad s' \<and> (bad s' = bad s \<longleftrightarrow> list_all good rs))"
    and step_total: "step b s = Some s' \<Longrightarrow> total s' = total s + length (seeds b)"
begin

lemma batches_law:
  "run_batches step bs s = Some s' \<Longrightarrow> \<exists>rs. map seed_of rs = concat (map seeds bs) \<and> list_all judged rs
    \<and> (sound \<longrightarrow> bad s \<le> bad s' \<and> (bad s' = bad s \<longleftrightarrow> list_all good rs))"
proof (induction bs arbitrary: s)
  case (Cons b bs)
  then obtain s1 where s1: "step b s = Some s1" "run_batches step bs s1 = Some s'" by (auto simp: bind_eq_Some_conv)
  obtain rs where rs: "map seed_of rs = seeds b" "list_all judged rs"
    "sound \<longrightarrow> bad s \<le> bad s1 \<and> (bad s1 = bad s \<longleftrightarrow> list_all good rs)" using step_law [OF s1(1)] by blast
  obtain qs where qs: "map seed_of qs = concat (map seeds bs)" "list_all judged qs"
    "sound \<longrightarrow> bad s1 \<le> bad s' \<and> (bad s' = bad s1 \<longleftrightarrow> list_all good qs)" using Cons.IH [OF s1(2)] by blast
  show ?case by (rule exI [of _ "rs @ qs"]) (use rs qs in auto)
qed simp

lemma batches_total: "run_batches step bs s = Some s' \<Longrightarrow> total s' = total s + length (concat (map seeds bs))"
  by (induction bs arbitrary: s) (auto simp: bind_eq_Some_conv dest!: step_total)

end

section \<open>fuzz.py\<close>

text \<open>The processes of a run, and the script's arguments; without \<open>--mix\<close> all mixes in order.\<close>

record machines =
  m_asm :: proc
  m_spike :: spike_proc
  m_runner :: proc
  m_link :: string

record fuzz_args =
  f_mix :: "string list"
  f_count :: int
  f_start :: int
  f_items :: int
  f_batch :: int
  f_keep :: bool

definition fuzz_mixes :: "fuzz_args \<Rightarrow> string list" where
  "fuzz_mixes a = (if f_mix a = [] then sort (map fst MIXES) else f_mix a)"

fun prepare_all :: "machines \<Rightarrow> tools \<Rightarrow> (int \<Rightarrow> nat \<Rightarrow> nat) \<Rightarrow> string \<Rightarrow> string \<Rightarrow> int \<Rightarrow> int list \<Rightarrow> files \<Rightarrow> (prog list \<times> files) option" where
  "prepare_all M tools tp out mix items [] fs = Some ([], fs)"
| "prepare_all M tools tp out mix items (s # ss) fs = do {
     (r, fs) \<leftarrow> prepare (m_asm M) (m_spike M) tools (m_link M) out mix s (tp s) (nat items) fs;
     (rs, fs) \<leftarrow> prepare_all M tools tp out mix items ss fs;
     Some (r # rs, fs) }"

definition runnable :: "prog \<Rightarrow> bool" where
  "runnable r \<longleftrightarrow> (case p_result r of Ready _ _ (Some _) _ \<Rightarrow> True | _ \<Rightarrow> False)"

text \<open>A batch: the tally's list of removed programs holds those of the batch.\<close>

definition fuzz_batch :: "machines \<Rightarrow> tools \<Rightarrow> (string \<Rightarrow> int \<Rightarrow> nat \<Rightarrow> nat) \<Rightarrow> string \<Rightarrow> fuzz_args \<Rightarrow> string \<Rightarrow> int list \<Rightarrow> tally \<times> files \<Rightarrow> (tally \<times> files) option" where
  "fuzz_batch M tools tp out a mix batch = (\<lambda>(t, fs). do {
     (recs, fs) \<leftarrow> prepare_all M tools (tp mix) out mix (f_items a) batch fs;
     text \<leftarrow> manifest recs;
     let man = path_join (path_join out mix) (''manifest_'' @ dec_int (hd batch) @ ''.txt'');
     let fs = fs(man \<mapsto> text);
     det \<leftarrow> (if list_ex runnable recs then run_runner (m_runner M) (t_runner tools) man else Some Map.empty);
     t \<leftarrow> judge_all det (f_keep a) recs (t\<lparr>removed := []\<rparr>);
     let fs = fold remove_artifacts (removed t) fs;
     Some (t, if f_keep a then fs else fs(man := None)) })"

record mix_summary =
  s_stats :: "string \<Rightarrow> nat"
  s_retired :: "(int \<times> int \<times> int) option"
  s_outcomes :: "string \<Rightarrow> nat"

text \<open>The least, the greatest and the mean number of retired instructions, when a program was compared.\<close>

definition summary_of :: "tally \<Rightarrow> mix_summary" where
  "summary_of t = \<lparr>s_stats = st t,
     s_retired = (let r = retired_all t in
       if r = [] then None else Some (Min (set r), Max (set r), sum_list r div int (length r))),
     s_outcomes = outcomes t\<rparr>"

definition fuzz_mix :: "machines \<Rightarrow> tools \<Rightarrow> (string \<Rightarrow> int \<Rightarrow> nat \<Rightarrow> nat) \<Rightarrow> string \<Rightarrow> fuzz_args \<Rightarrow> string \<Rightarrow> tally \<times> files \<Rightarrow> (tally \<times> files) option" where
  "fuzz_mix M tools tp out a mix = (\<lambda>(t, fs). do {
     let seeds = upto_excl (f_start a) (f_start a + f_count a);
     starts \<leftarrow> py_range 0 (int (length seeds)) (f_batch a);
     run_batches (fuzz_batch M tools tp out a mix) (map (\<lambda>b0. slice b0 (f_batch a) seeds) starts)
       (t\<lparr>st := (\<lambda>_. 0), retired_all := [], outcomes := (\<lambda>_. 0)\<rparr>, fs) })"

text \<open>The summary is a dictionary, so a mix given twice has one entry, the last.\<close>

fun fuzz_run :: "machines \<Rightarrow> tools \<Rightarrow> (string \<Rightarrow> int \<Rightarrow> nat \<Rightarrow> nat) \<Rightarrow> string \<Rightarrow> fuzz_args \<Rightarrow> string list \<Rightarrow> (string \<rightharpoonup> mix_summary) \<Rightarrow> tally \<times> files
    \<Rightarrow> ((string \<rightharpoonup> mix_summary) \<times> tally \<times> files) option" where
  "fuzz_run M tools tp out a [] summ s = Some (summ, s)"
| "fuzz_run M tools tp out a (mix # ms) summ s = do {
     s \<leftarrow> fuzz_mix M tools tp out a mix s;
     fuzz_run M tools tp out a ms (summ(mix \<mapsto> summary_of (fst s))) s }"

record fuzz_report =
  fr_summary :: "string \<rightharpoonup> mix_summary"
  fr_programs :: nat
  fr_bad :: nat
  fr_log :: "(string \<times> int \<times> kind) list"
  fr_exit :: nat

definition programs_of :: "string list \<Rightarrow> (string \<rightharpoonup> mix_summary) \<Rightarrow> nat" where
  "programs_of ms summ = sum_list (map (\<lambda>m. case summ m of None \<Rightarrow> 0 | Some s \<Rightarrow> s_stats s ''programs'') (remdups ms))"

definition fuzz_main :: "machines \<Rightarrow> tools \<Rightarrow> (string \<Rightarrow> int \<Rightarrow> nat \<Rightarrow> nat) \<Rightarrow> string \<Rightarrow> fuzz_args \<Rightarrow> files \<Rightarrow> (fuzz_report \<times> files) option" where
  "fuzz_main M tools tp out a fs = do {
     (summ, t, fs) \<leftarrow> fuzz_run M tools tp out a (fuzz_mixes a) Map.empty (start_tally, fs);
     Some (\<lparr>fr_summary = summ, fr_programs = programs_of (fuzz_mixes a) summ, fr_bad = bad_total t, fr_log = divlog t,
            fr_exit = (if bad_total t \<noteq> 0 then 1 else 0)\<rparr>, fs) }"

text \<open>A judged program: the records are those of its batch's runner call, made when a program of the batch ran on Spike.\<close>

definition runner_records :: "machines \<Rightarrow> tools \<Rightarrow> results \<Rightarrow> bool" where
  "runner_records M tools det \<longleftrightarrow> (\<exists>man. run_runner (m_runner M) (t_runner tools) man = Some det)"

definition sound_runner :: "machines \<Rightarrow> tools \<Rightarrow> bool" where
  "sound_runner M tools \<longleftrightarrow> (\<forall>man det. run_runner (m_runner M) (t_runner tools) man = Some det \<longrightarrow> shaped det)"

lemma prepare_names:
  "prepare p sp tools LINK out mix s tp items fs = Some (r, fs') \<Longrightarrow> p_mix r = mix \<and> p_seed r = s"
  by (auto simp: prepare_def Let_def bind_eq_Some_conv split: option.splits outcome.splits)

lemma prepare_all_names:
  "prepare_all M tools tp out mix items ss fs = Some (rs, fs') \<Longrightarrow> map (\<lambda>r. (p_mix r, p_seed r)) rs = map (Pair mix) ss"
proof (induction ss arbitrary: fs rs)
  case (Cons s ss)
  then obtain r fs1 qs where r: "prepare (m_asm M) (m_spike M) tools (m_link M) out mix s (tp s) (nat items) fs = Some (r, fs1)"
    "prepare_all M tools tp out mix items ss fs1 = Some (qs, fs')" "rs = r # qs" by (auto simp: bind_eq_Some_conv)
  then show ?case using Cons.IH [OF r(2)] prepare_names [OF r(1)] by simp
qed simp

lemma shaped_empty [simp]: "shaped Map.empty"
  by (simp add: shaped_def)

lemma list_all_pair [simp]: "list_all P (map (Pair x) ys) = list_all (\<lambda>y. P (x, y)) ys"
  by (simp add: list.pred_map comp_def)

text \<open>The law of \<open>batch_loop\<close> for the two scripts.\<close>

lemma fuzz_batch_law:
  assumes "fuzz_batch M tools tp out a mix batch s = Some s'"
  shows "\<exists>rs. map (\<lambda>(det, r). p_seed r) rs = batch \<and> list_all (\<lambda>(det, r). p_mix r = mix \<and> (runnable r \<longrightarrow> runner_records M tools det)) rs
    \<and> (sound_runner M tools \<longrightarrow> bad_total (fst s) \<le> bad_total (fst s') \<and>
        (bad_total (fst s') = bad_total (fst s) \<longleftrightarrow> list_all (\<lambda>(det, r). clean_prog det r) rs))"
proof -
  obtain t fs where s: "s = (t, fs)" by (cases s)
  obtain recs fs1 man det t' where p: "prepare_all M tools (tp mix) out mix (f_items a) batch fs = Some (recs, fs1)"
    and d: "(if list_ex runnable recs then run_runner (m_runner M) (t_runner tools) man else Some Map.empty) = Some det"
    and j: "judge_all det (f_keep a) recs (t\<lparr>removed := []\<rparr>) = Some t'" "fst s' = t'"
    using assms by (auto simp: fuzz_batch_def s Let_def bind_eq_Some_conv)
  have n: "map (\<lambda>r. (p_mix r, p_seed r)) recs = map (Pair mix) batch" by (rule prepare_all_names [OF p])
  have "map p_seed recs = map snd (map (\<lambda>r. (p_mix r, p_seed r)) recs)" by simp
  then have seeds: "map p_seed recs = batch" unfolding n by (simp add: comp_def)
  have "map p_mix recs = map fst (map (\<lambda>r. (p_mix r, p_seed r)) recs)" by simp
  then have "set (map p_mix recs) \<subseteq> {mix}" unfolding n by auto
  then have mixes: "r \<in> set recs \<Longrightarrow> p_mix r = mix" for r by auto
  have "runnable r \<longrightarrow> runner_records M tools det" if "r \<in> set recs" for r
    using that d by (auto simp: runner_records_def list_ex_iff split: if_splits)
  then have a: "list_all (\<lambda>r. p_mix r = mix \<and> (runnable r \<longrightarrow> runner_records M tools det)) recs"
    using mixes by (auto simp: list_all_iff)
  have "bad_total t' = bad_total t + length (filter (\<lambda>r. \<not> clean_prog det r) recs)" if "sound_runner M tools"
    using judge_all_bad [OF j(1)] that d by (auto simp: sound_runner_def split: if_splits)
  then have "sound_runner M tools \<longrightarrow> bad_total t \<le> bad_total t' \<and> (bad_total t' = bad_total t \<longleftrightarrow> list_all (clean_prog det) recs)"
    by (auto simp: filter_empty_conv list_all_iff)
  then show ?thesis using a seeds j(2) by (intro exI [of _ "map (Pair det) recs"]) (simp add: s comp_def)
qed

lemma judge_programs: "judge det keep r t = Some t' \<Longrightarrow> st t' ''programs'' = Suc (st t ''programs'')"
  by (auto simp: judge_def finish_def inc_def note_bad_def add_bad_def Let_def bind_eq_Some_conv split: prepared.splits option.splits)

lemma judge_all_programs: "judge_all det keep rs t = Some t' \<Longrightarrow> st t' ''programs'' = st t ''programs'' + length rs"
  by (induction rs arbitrary: t) (auto simp: bind_eq_Some_conv judge_programs)

lemma fuzz_batch_total:
  assumes "fuzz_batch M tools tp out a mix batch s = Some s'"
  shows "st (fst s') ''programs'' = st (fst s) ''programs'' + length (id batch)"
proof -
  obtain t fs where s: "s = (t, fs)" by (cases s)
  obtain recs fs1 det t' where p: "prepare_all M tools (tp mix) out mix (f_items a) batch fs = Some (recs, fs1)"
    and j: "judge_all det (f_keep a) recs (t\<lparr>removed := []\<rparr>) = Some t'" "fst s' = t'"
    using assms by (auto simp: fuzz_batch_def s Let_def bind_eq_Some_conv)
  have "length recs = length batch" using arg_cong [OF prepare_all_names [OF p], of length] by simp
  then show ?thesis using judge_all_programs [OF j(1)] j(2) by (simp add: s)
qed

interpretation fz: batch_loop "fuzz_batch M tools tp out a mix" id "\<lambda>s. bad_total (fst s)" "\<lambda>s. st (fst s) ''programs''" "\<lambda>(det, r). p_seed r"
    "\<lambda>(det, r). p_mix r = mix \<and> (runnable r \<longrightarrow> runner_records M tools det)" "\<lambda>(det, r). clean_prog det r" "sound_runner M tools"
  for M tools tp out a mix
  by unfold_locales (simp_all add: fuzz_batch_law fuzz_batch_total [simplified])

lemma fuzz_mix_law:
  assumes "fuzz_mix M tools tp out a mix s = Some s'" "0 < f_batch a"
  shows "\<exists>rs. map (\<lambda>(det, r). (p_mix r, p_seed r)) rs = map (Pair mix) (upto_excl (f_start a) (f_start a + f_count a))
    \<and> list_all (\<lambda>(det, r). runnable r \<longrightarrow> runner_records M tools det) rs
    \<and> (sound_runner M tools \<longrightarrow> bad_total (fst s) \<le> bad_total (fst s') \<and>
        (bad_total (fst s') = bad_total (fst s) \<longleftrightarrow> list_all (\<lambda>(det, r). clean_prog det r) rs))"
proof -
  obtain t fs where s: "s = (t, fs)" by (cases s)
  let ?seeds = "upto_excl (f_start a) (f_start a + f_count a)" and ?s = "(t\<lparr>st := \<lambda>_. 0, retired_all := [], outcomes := \<lambda>_. 0\<rparr>, fs)"
  obtain starts where p: "py_range 0 (int (length ?seeds)) (f_batch a) = Some starts"
    and r: "run_batches (fuzz_batch M tools tp out a mix) (map (\<lambda>b0. slice b0 (f_batch a) ?seeds) starts) ?s = Some s'"
    using assms(1) by (auto simp: fuzz_mix_def s Let_def bind_eq_Some_conv)
  obtain rs where rs: "map (\<lambda>(det, r). p_seed r) rs = ?seeds"
    "list_all (\<lambda>(det, r). p_mix r = mix \<and> (runnable r \<longrightarrow> runner_records M tools det)) rs"
    "sound_runner M tools \<longrightarrow> bad_total t \<le> bad_total (fst s') \<and> (bad_total (fst s') = bad_total t \<longleftrightarrow> list_all (\<lambda>(det, r). clean_prog det r) rs)"
    using fz.batches_law [OF r] slices_all [OF p assms(2)] by auto
  have "map (\<lambda>(det, r). (p_mix r, p_seed r)) rs = map (Pair mix) (map (\<lambda>(det, r). p_seed r) rs)"
    using rs(2) by (auto simp: list_all_iff)
  moreover have "list_all (\<lambda>(det, r). runnable r \<longrightarrow> runner_records M tools det) rs" using rs(2) by (auto simp: list_all_iff)
  ultimately show ?thesis using rs(1,3) by (intro exI [of _ rs]) (simp add: s)
qed

lemma fuzz_run_law:
  assumes "0 < f_batch a"
  shows "fuzz_run M tools tp out a ms summ s = Some (summ', s') \<Longrightarrow>
    \<exists>rs. map (\<lambda>(det, r). (p_mix r, p_seed r)) rs = concat (map (\<lambda>mix. map (Pair mix) (upto_excl (f_start a) (f_start a + f_count a))) ms)
    \<and> list_all (\<lambda>(det, r). runnable r \<longrightarrow> runner_records M tools det) rs
    \<and> (sound_runner M tools \<longrightarrow> bad_total (fst s) \<le> bad_total (fst s') \<and>
        (bad_total (fst s') = bad_total (fst s) \<longleftrightarrow> list_all (\<lambda>(det, r). clean_prog det r) rs))"
proof (induction ms arbitrary: summ s)
  case (Cons mix ms)
  then obtain s1 where s1: "fuzz_mix M tools tp out a mix s = Some s1"
    "fuzz_run M tools tp out a ms (summ(mix \<mapsto> summary_of (fst s1))) s1 = Some (summ', s')" by (auto simp: bind_eq_Some_conv)
  from fuzz_mix_law [OF s1(1) assms] obtain rs where
    rs: "map (\<lambda>(det, r). (p_mix r, p_seed r)) rs = map (Pair mix) (upto_excl (f_start a) (f_start a + f_count a))"
      "list_all (\<lambda>(det, r). runnable r \<longrightarrow> runner_records M tools det) rs"
      "sound_runner M tools \<longrightarrow> bad_total (fst s) \<le> bad_total (fst s1) \<and>
        (bad_total (fst s1) = bad_total (fst s) \<longleftrightarrow> list_all (\<lambda>(det, r). clean_prog det r) rs)" by blast
  from Cons.IH [OF s1(2)] obtain qs where
    qs: "map (\<lambda>(det, r). (p_mix r, p_seed r)) qs = concat (map (\<lambda>mix. map (Pair mix) (upto_excl (f_start a) (f_start a + f_count a))) ms)"
      "list_all (\<lambda>(det, r). runnable r \<longrightarrow> runner_records M tools det) qs"
      "sound_runner M tools \<longrightarrow> bad_total (fst s1) \<le> bad_total (fst s') \<and>
        (bad_total (fst s') = bad_total (fst s1) \<longleftrightarrow> list_all (\<lambda>(det, r). clean_prog det r) qs)" by blast
  show ?case by (rule exI [of _ "rs @ qs"]) (use rs qs in auto)
qed simp


lemma fuzz_mix_programs:
  assumes "fuzz_mix M tools tp out a mix s = Some s'" "0 < f_batch a"
  shows "st (fst s') ''programs'' = nat (f_count a)"
proof -
  obtain t fs where s: "s = (t, fs)" by (cases s)
  let ?seeds = "upto_excl (f_start a) (f_start a + f_count a)" and ?s = "(t\<lparr>st := \<lambda>_. 0, retired_all := [], outcomes := \<lambda>_. 0\<rparr>, fs)"
  obtain starts where p: "py_range 0 (int (length ?seeds)) (f_batch a) = Some starts"
    and r: "run_batches (fuzz_batch M tools tp out a mix) (map (\<lambda>b0. slice b0 (f_batch a) ?seeds) starts) ?s = Some s'"
    using assms(1) by (auto simp: fuzz_mix_def s Let_def bind_eq_Some_conv)
  have "concat (map id (map (\<lambda>b0. slice b0 (f_batch a) ?seeds) starts)) = ?seeds" using slices_all [OF p assms(2)] by simp
  then show ?thesis using fz.batches_total [OF r] by (simp add: upto_excl_def)
qed

lemma fuzz_run_programs:
  assumes "0 < f_batch a"
  shows "fuzz_run M tools tp out a ms summ s = Some (summ', s') \<Longrightarrow> (\<And>m x. summ m = Some x \<Longrightarrow> s_stats x ''programs'' = nat (f_count a)) \<Longrightarrow>
    (\<forall>m x. summ' m = Some x \<longrightarrow> s_stats x ''programs'' = nat (f_count a)) \<and> dom summ' = dom summ \<union> set ms"
proof (induction ms arbitrary: summ s)
  case (Cons mix ms)
  then obtain s1 where s1: "fuzz_mix M tools tp out a mix s = Some s1"
    "fuzz_run M tools tp out a ms (summ(mix \<mapsto> summary_of (fst s1))) s1 = Some (summ', s')" by (auto simp: bind_eq_Some_conv)
  have "s_stats (summary_of (fst s1)) ''programs'' = nat (f_count a)"
    using fuzz_mix_programs [OF s1(1) assms] by (simp add: summary_of_def)
  then have pre: "s_stats x ''programs'' = nat (f_count a)" if "(summ(mix \<mapsto> summary_of (fst s1))) m = Some x" for m x
    using that Cons.prems(2) by (cases "m = mix") simp_all
  have "(\<forall>m x. summ' m = Some x \<longrightarrow> s_stats x ''programs'' = nat (f_count a))
      \<and> dom summ' = dom (summ(mix \<mapsto> summary_of (fst s1))) \<union> set ms" by (rule Cons.IH [OF s1(2)]) (rule pre)
  then show ?case by simp
qed simp

text \<open>The printed number of programs counts each mix once: with a mix given twice it is smaller than the number of programs that
  were run and judged, which the number of bad ones next to it is out of.\<close>

theorem fuzz_counts_mixes:
  assumes "fuzz_main M tools tp out a fs = Some (r, fs')" and "0 < f_batch a"
  shows "fr_programs r = card (set (fuzz_mixes a)) * nat (f_count a)"
proof -
  obtain t where run: "fuzz_run M tools tp out a (fuzz_mixes a) Map.empty (start_tally, fs) = Some (fr_summary r, t, fs')"
    and e: "fr_programs r = programs_of (fuzz_mixes a) (fr_summary r)"
    using assms(1) by (auto simp: fuzz_main_def bind_eq_Some_conv)
  have "(\<forall>m x. fr_summary r m = Some x \<longrightarrow> s_stats x ''programs'' = nat (f_count a)) \<and> dom (fr_summary r) = dom (Map.empty :: string \<rightharpoonup> mix_summary) \<union> set (fuzz_mixes a)"
    using fuzz_run_programs [OF assms(2) run] by simp
  then have "(case fr_summary r m of None \<Rightarrow> 0 | Some s \<Rightarrow> s_stats s ''programs'') = nat (f_count a)" if "m \<in> set (fuzz_mixes a)" for m
    using that by (auto split: option.split)
  then have "map (\<lambda>m. case fr_summary r m of None \<Rightarrow> 0 | Some s \<Rightarrow> s_stats s ''programs'') (remdups (fuzz_mixes a))
      = map (\<lambda>_. nat (f_count a)) (remdups (fuzz_mixes a))" by (intro map_cong) auto
  from arg_cong [OF this, of sum_list] show ?thesis
    unfolding e programs_of_def by (simp only: sum_list_triv length_remdups_card_conv of_nat_id)
qed

text \<open>A run in which the assembler fails.\<close>

definition no_assembler :: machines where
  "no_assembler = \<lparr>m_asm = (\<lambda>_. (1, [], ''error'')), m_spike = (\<lambda>_ fs. (None, fs)), m_runner = (\<lambda>_. (0, [], [])), m_link = ''link.ld''\<rparr>"

definition no_tools :: tools where
  "no_tools = \<lparr>t_work = ''/w'', t_spike = ''spike'', t_cross = [], t_runner = ''runner'', t_path = []\<rparr>"

definition two_seeds :: fuzz_args where
  "two_seeds = \<lparr>f_mix = [''mem'', ''mem''], f_count = 1, f_start = 0, f_items = 40, f_batch = 1, f_keep = False\<rparr>"

lemma prepare_fails:
  "\<exists>e fs'. prepare (m_asm no_assembler) sp no_tools LINK out ''mem'' seed (\<lambda>_. 0) n fs =
     Some (\<lparr>p_mix = ''mem'', p_seed = seed, p_asm = path_join (path_join out ''mem'') (''s'' @ dec_int seed @ ''.s''), p_result = Failed e\<rparr>, fs')"
proof -
  obtain src where "program n Gen_Program.sample = Some src" using program_Some [of Gen_Program.sample n] Gen_init_top_level [OF sample_init] by auto
  then have "Option.bind (Gen_init (\<lambda>_. 0) ''mem'') (program n) = Some src" by (simp add: sample_init)
  then show ?thesis by (simp add: prepare_def Let_def no_assembler_def build_program_def sh_def)
qed

lemma batch_fails: "\<exists>s'. fuzz_batch no_assembler no_tools (\<lambda>_ _ _. 0) out a ''mem'' [seed] s = Some s'"
proof -
  obtain t fs where s: "s = (t, fs)" by (cases s)
  obtain e fs' where "prepare (m_asm no_assembler) (m_spike no_assembler) no_tools (m_link no_assembler) out ''mem'' seed (\<lambda>_. 0) (nat (f_items a)) fs =
     Some (\<lparr>p_mix = ''mem'', p_seed = seed, p_asm = path_join (path_join out ''mem'') (''s'' @ dec_int seed @ ''.s''), p_result = Failed e\<rparr>, fs')"
    using prepare_fails by blast
  then show ?thesis by (simp add: fuzz_batch_def s Let_def runnable_def judge_def)
qed

lemma two_seeds_returns: "\<exists>r fs'. fuzz_main no_assembler no_tools (\<lambda>_ _ _. 0) ''/w/fuzz'' two_seeds Map.empty = Some (r, fs')"
proof -
  have "\<exists>s'. fuzz_mix no_assembler no_tools (\<lambda>_ _ _. 0) ''/w/fuzz'' two_seeds ''mem'' s = Some s'" for s
  proof -
    obtain t fs where s: "s = (t, fs)" by (cases s)
    obtain s' where "fuzz_batch no_assembler no_tools (\<lambda>_ _ _. 0) ''/w/fuzz'' two_seeds ''mem'' [0]
        (t\<lparr>st := \<lambda>_. 0, retired_all := [], outcomes := \<lambda>_. 0\<rparr>, fs) = Some s'" using batch_fails by blast
    then show ?thesis by (simp add: fuzz_mix_def s two_seeds_def upto_excl_def py_range_def range_len_def slice_def)
  qed
  then obtain s1 s2 where "fuzz_mix no_assembler no_tools (\<lambda>_ _ _. 0) ''/w/fuzz'' two_seeds ''mem'' (start_tally, Map.empty) = Some s1"
    "fuzz_mix no_assembler no_tools (\<lambda>_ _ _. 0) ''/w/fuzz'' two_seeds ''mem'' s1 = Some s2" by blast
  moreover obtain t fs where "s2 = (t, fs)" by (cases s2)
  moreover have "fuzz_mixes two_seeds = [''mem'', ''mem'']" by (simp add: fuzz_mixes_def two_seeds_def)
  ultimately show ?thesis by (simp add: fuzz_main_def)
qed


theorem fuzz_counts_mixes_witness:
  "\<exists>r fs'. fuzz_main no_assembler no_tools (\<lambda>_ _ _. 0) ''/w/fuzz'' two_seeds Map.empty = Some (r, fs') \<and> fr_programs r = 1"
proof -
  obtain r fs' where r: "fuzz_main no_assembler no_tools (\<lambda>_ _ _. 0) ''/w/fuzz'' two_seeds Map.empty = Some (r, fs')"
    using two_seeds_returns by blast
  have "0 < f_batch two_seeds" by (simp add: two_seeds_def)
  from fuzz_counts_mixes [OF r this] r show ?thesis by (simp add: fuzz_mixes_def two_seeds_def)
qed

text \<open>The hypothesis on the batch size is needed: \<open>--batch 0\<close> raises, and with a negative batch size no program is run at all
  and the fuzzer still succeeds.\<close>

lemma no_batches: "n < 0 \<Longrightarrow> py_range 0 (int k) n = Some []"
proof -
  assume n: "n < 0"
  then have "(0 - int k - n - 1) div - n \<le> (- n - 1) div - n" by (intro zdiv_mono1) simp_all
  also have "\<dots> = 0" using n by (intro div_pos_pos_trivial) simp_all
  finally have "(0 - int k - n - 1) div - n \<le> 0" .
  then show ?thesis using n by (simp add: py_range_def range_len_def)
qed

lemma fuzz_run_nothing:
  assumes "f_batch a < 0"
  shows "(\<And>m x. summ m = Some x \<Longrightarrow> s_stats x ''programs'' = 0) \<Longrightarrow> bad_total (fst s) = 0 \<Longrightarrow>
    \<exists>summ' t'. fuzz_run M tools tp out a ms summ s = Some (summ', t', snd s) \<and> bad_total t' = 0 \<and> (\<forall>m x. summ' m = Some x \<longrightarrow> s_stats x ''programs'' = 0)"
proof (induction ms arbitrary: summ s)
  case Nil
  then show ?case by (cases s) auto
next
  case (Cons mix ms)
  obtain t fs where s: "s = (t, fs)" by (cases s)
  let ?t = "t\<lparr>st := \<lambda>_. 0, retired_all := [], outcomes := \<lambda>_. 0\<rparr>"
  have m: "fuzz_mix M tools tp out a mix s = Some (?t, fs)" using no_batches [OF assms] by (simp add: fuzz_mix_def s)
  have pre: "s_stats x ''programs'' = 0" if "(summ(mix \<mapsto> summary_of ?t)) m = Some x" for m x
    using that Cons.prems(1) by (cases "m = mix") (auto simp: summary_of_def)
  have "bad_total (fst (?t, fs)) = 0" using Cons.prems(2) by (simp add: s)
  then have "\<exists>summ' t'. fuzz_run M tools tp out a ms (summ(mix \<mapsto> summary_of ?t)) (?t, fs) = Some (summ', t', snd (?t, fs))
      \<and> bad_total t' = 0 \<and> (\<forall>m x. summ' m = Some x \<longrightarrow> s_stats x ''programs'' = 0)"
    by (rule Cons.IH [rotated]) (rule pre)
  with m show ?case by (simp add: s)
qed

theorem fuzz_negative_batch:
  assumes "f_batch a < 0"
  shows "\<exists>r. fuzz_main M tools tp out a fs = Some (r, fs) \<and> fr_programs r = 0 \<and> fr_exit r = 0"
proof -
  have "bad_total (fst (start_tally, fs)) = 0" by (simp add: start_tally_def)
  from fuzz_run_nothing [OF assms _ this, of Map.empty M tools tp out "fuzz_mixes a"] obtain summ' t'
    where r: "fuzz_run M tools tp out a (fuzz_mixes a) Map.empty (start_tally, fs) = Some (summ', t', fs)" "bad_total t' = 0"
      "\<forall>m x. summ' m = Some x \<longrightarrow> s_stats x ''programs'' = 0" by auto
  have "programs_of ms summ' = 0" for ms using r(3) by (auto simp: programs_of_def split: option.split)
  with r show ?thesis by (simp add: fuzz_main_def)
qed

theorem fuzz_zero_batch:
  assumes "f_batch a = 0"
  shows "fuzz_main M tools tp out a fs = None"
proof -
  have "fuzz_mixes a \<noteq> []" by (simp add: fuzz_mixes_def MIXES_def)
  then obtain mix ms where ms: "fuzz_mixes a = mix # ms" by (cases "fuzz_mixes a") auto
  have "fuzz_mix M tools tp out a mix s = None" for s using assms by (cases s) (simp add: fuzz_mix_def py_range_def)
  then show ?thesis by (simp add: fuzz_main_def ms)
qed

theorem fuzz_negative_batch_witness:
  "\<exists>r. fuzz_main no_assembler no_tools (\<lambda>_ _ _. 0) ''/w/fuzz'' (two_seeds\<lparr>f_batch := - 1\<rparr>) Map.empty = Some (r, Map.empty) \<and> fr_exit r = 0"
  using fuzz_negative_batch [of "two_seeds\<lparr>f_batch := - 1\<rparr>"] by fastforce

theorem fuzz_zero_batch_witness:
  "fuzz_main no_assembler no_tools (\<lambda>_ _ _. 0) ''/w/fuzz'' (two_seeds\<lparr>f_batch := 0\<rparr>) Map.empty = None"
  by (rule fuzz_zero_batch) simp

section \<open>encsweep.py\<close>

record sweep_args =
  w_count :: int
  w_start :: int
  w_batch :: int

fun build_all :: "machines \<Rightarrow> tools \<Rightarrow> (int \<Rightarrow> nat \<Rightarrow> nat) \<Rightarrow> string \<Rightarrow> int list \<Rightarrow> files \<Rightarrow> (enc list \<times> files) option" where
  "build_all M tools tp out [] fs = Some ([], fs)"
| "build_all M tools tp out (s # ss) fs = do {
     (r, fs) \<leftarrow> build_one (m_asm M) (m_spike M) tools (m_link M) out s (tp s) fs;
     (rs, fs) \<leftarrow> build_all M tools tp out ss fs;
     Some (r # rs, fs) }"

definition enc_runnable :: "enc \<Rightarrow> bool" where
  "enc_runnable r \<longleftrightarrow> (case e_result r of ERan _ _ (Some _) _ _ \<Rightarrow> True | _ \<Rightarrow> False)"

text \<open>The batch that starts at \<open>b0\<close>: the seeds up to the next batch or the end.\<close>

definition enc_seeds :: "sweep_args \<Rightarrow> int \<Rightarrow> int list" where
  "enc_seeds a b0 = upto_excl b0 (min (b0 + w_batch a) (w_start a + w_count a))"

definition enc_batch :: "machines \<Rightarrow> tools \<Rightarrow> (int \<Rightarrow> nat \<Rightarrow> nat) \<Rightarrow> string \<Rightarrow> int \<times> int list \<Rightarrow> sweep \<times> files \<Rightarrow> (sweep \<times> files) option" where
  "enc_batch M tools tp out = (\<lambda>(b0, seeds) (t, fs). do {
     (recs, fs) \<leftarrow> build_all M tools tp out seeds fs;
     text \<leftarrow> enc_manifest recs;
     let man = path_join out (''manifest_'' @ dec_int b0 @ ''.txt'');
     let fs = fs(man \<mapsto> text);
     det \<leftarrow> (if list_ex enc_runnable recs then run_runner (m_runner M) (t_runner tools) man else Some Map.empty);
     t \<leftarrow> enc_judge_all det recs (t\<lparr>sw_removed := []\<rparr>);
     Some (t, (fold remove_artifacts (sw_removed t) fs)(man := None)) })"

record sweep_report =
  wr_stats :: counter
  wr_outcomes :: counter
  wr_log :: "(int \<times> nat \<times> enc_kind) list"
  wr_unknown :: nat
  wr_exit :: nat

definition enc_main :: "machines \<Rightarrow> tools \<Rightarrow> (int \<Rightarrow> nat \<Rightarrow> nat) \<Rightarrow> string \<Rightarrow> sweep_args \<Rightarrow> files \<Rightarrow> (sweep_report \<times> files) option" where
  "enc_main M tools tp out a fs = do {
     starts \<leftarrow> py_range (w_start a) (w_start a + w_count a) (w_batch a);
     (t, fs) \<leftarrow> run_batches (enc_batch M tools tp out) (map (\<lambda>b0. (b0, enc_seeds a b0)) starts) (sweep0, fs);
     Some (\<lparr>wr_stats = sw_st t, wr_outcomes = sw_outcomes t, wr_log = sw_log t, wr_unknown = unknown (sw_st t),
            wr_exit = (if unknown (sw_st t) \<noteq> 0 then 1 else 0)\<rparr>, fs) }"

lemma build_one_names:
  assumes "build_one p sp tools LINK wd s tp fs = Some (r, fs')"
  shows "e_seed r = s"
proof -
  obtain w n i ws q where e: "enc_program \<lparr>tape = tp, pos = 0\<rparr> = Some ((w, n, i, ws), q)"
    using assms by (cases "enc_program \<lparr>tape = tp, pos = 0\<rparr>") (auto simp: build_one_def)
  show ?thesis
    using assms by (cases "build_program p (t_cross tools) LINK (path_join wd (''e'' @ dec_int s @ ''.s''))")
      (auto simp: build_one_def e Let_def bind_eq_Some_conv)
qed

lemma build_all_names: "build_all M tools tp out ss fs = Some (rs, fs') \<Longrightarrow> map e_seed rs = ss"
proof (induction ss arbitrary: fs rs)
  case (Cons s ss)
  then obtain r fs1 qs where r: "build_one (m_asm M) (m_spike M) tools (m_link M) out s (tp s) fs = Some (r, fs1)"
    "build_all M tools tp out ss fs1 = Some (qs, fs')" "rs = r # qs" by (auto simp: bind_eq_Some_conv)
  then show ?case using Cons.IH [OF r(2)] build_one_names [OF r(1)] by simp
qed simp

text \<open>\<open>st["programs"]\<close>; the other keys of the counter differ from it.\<close>

definition counted_as :: "string \<Rightarrow> counter \<Rightarrow> nat" where
  "counted_as k c = (case map_of c k of None \<Rightarrow> 0 | Some n \<Rightarrow> n)"

lemma counted_bump: "counted_as k (bump j c) = counted_as k c + (if k = j then 1 else 0)"
  by (induction j c rule: bump.induct) (auto simp: counted_as_def)

lemma counted_simps [simp]:
  "counted_as k (sw_st (tick j t)) = counted_as k (sw_st t) + (if k = j then 1 else 0)" "sw_st (write_log r e t) = sw_st t"
  by (simp_all add: tick_def counted_bump write_log_def)

lemma class_key_programs [simp]: "''programs'' \<noteq> class_key k" "class_key k \<noteq> ''programs''"
  by (simp_all add: class_key_def split: option.split)

lemma enc_judge_programs: "enc_judge det r t = Some t' \<Longrightarrow> counted_as ''programs'' (sw_st t') = Suc (counted_as ''programs'' (sw_st t))"
  by (auto simp: enc_judge_def enc_diffs_def enc_configs_def Let_def bind_eq_Some_conv split: enc_result.splits option.splits if_splits)

lemma enc_judge_all_programs:
  "enc_judge_all det rs t = Some t' \<Longrightarrow> counted_as ''programs'' (sw_st t') = counted_as ''programs'' (sw_st t) + length rs"
  by (induction rs arbitrary: t) (auto simp: bind_eq_Some_conv enc_judge_programs)

lemma enc_batch_law:
  assumes "enc_batch M tools tp out b s = Some s'"
  shows "\<exists>rs. map (\<lambda>(det, r). e_seed r) rs = snd b \<and> list_all (\<lambda>(det, r). enc_runnable r \<longrightarrow> runner_records M tools det) rs
    \<and> (sound_runner M tools \<longrightarrow> badness (fst s) \<le> badness (fst s') \<and>
        (badness (fst s') = badness (fst s) \<longleftrightarrow> list_all (\<lambda>(det, r). tolerated det r) rs))"
    and "counted_as ''programs'' (sw_st (fst s')) = counted_as ''programs'' (sw_st (fst s)) + length (snd b)"
proof -
  obtain t fs where s: "s = (t, fs)" by (cases s)
  obtain recs fs1 man det t' where p: "build_all M tools tp out (snd b) fs = Some (recs, fs1)"
    and d: "(if list_ex enc_runnable recs then run_runner (m_runner M) (t_runner tools) man else Some Map.empty) = Some det"
    and j: "enc_judge_all det recs (t\<lparr>sw_removed := []\<rparr>) = Some t'" "fst s' = t'"
    using assms by (auto simp: enc_batch_def s Let_def bind_eq_Some_conv split: prod.splits)
  have seeds: "map e_seed recs = snd b" by (rule build_all_names [OF p])
  have a: "list_all (\<lambda>r. enc_runnable r \<longrightarrow> runner_records M tools det) recs"
    using d by (auto simp: list_all_iff runner_records_def list_ex_iff split: if_splits)
  have "badness t \<le> badness t' \<and> (badness t' = badness t \<longleftrightarrow> list_all (tolerated det) recs)" if "sound_runner M tools"
    using enc_judge_all_bad [OF j(1)] that d by (auto simp: sound_runner_def split: if_splits)
  then show "\<exists>rs. map (\<lambda>(det, r). e_seed r) rs = snd b \<and> list_all (\<lambda>(det, r). enc_runnable r \<longrightarrow> runner_records M tools det) rs
    \<and> (sound_runner M tools \<longrightarrow> badness (fst s) \<le> badness (fst s') \<and>
        (badness (fst s') = badness (fst s) \<longleftrightarrow> list_all (\<lambda>(det, r). tolerated det r) rs))"
    using a seeds j(2) by (intro exI [of _ "map (Pair det) recs"]) (simp add: s comp_def)
  show "counted_as ''programs'' (sw_st (fst s')) = counted_as ''programs'' (sw_st (fst s)) + length (snd b)"
    using enc_judge_all_programs [OF j(1)] j(2) by (simp add: s seeds [symmetric])
qed

interpretation es: batch_loop "enc_batch M tools tp out" snd "\<lambda>s. badness (fst s)" "\<lambda>s. counted_as ''programs'' (sw_st (fst s))"
    "\<lambda>(det, r). e_seed r" "\<lambda>(det, r). enc_runnable r \<longrightarrow> runner_records M tools det" "\<lambda>(det, r). tolerated det r" "sound_runner M tools"
  for M tools tp out
  by unfold_locales (rule enc_batch_law, assumption)+


definition two_words :: sweep_args where
  "two_words = \<lparr>w_count = 2, w_start = 0, w_batch = 1\<rparr>"

lemma enc_batch_fails: "\<exists>s'. enc_batch no_assembler no_tools (\<lambda>_ _. 0) out (b0, [seed]) s = Some s'"
proof -
  obtain t fs where s: "s = (t, fs)" by (cases s)
  obtain w n i ws q where e: "enc_program \<lparr>tape = (\<lambda>_. 0), pos = 0\<rparr> = Some ((w, n, i, ws), q)"
    using enc_program_returns [of "\<lparr>tape = (\<lambda>_. 0), pos = 0\<rparr>"] by (metis mod_0 nle_le prod_cases4 rng.select_convs(1) zero_neq_numeral)
  show ?thesis
    by (simp add: enc_batch_def s Let_def build_one_def e no_assembler_def build_program_def sh_def enc_runnable_def enc_judge_def)
qed


end
