(* ===== verification/Cov_Main.thy ===== *)
theory Cov_Main
  imports Coverage Batches
begin

text \<open>
  \<open>main\<close> of \<^verbatim>\<open>coverage.py\<close>: the programs it generates, builds and runs on Spike, the counters over all their logs, and what
  it reports. The counters of one log are in \<open>Coverage\<close>.
\<close>

section \<open>The runs\<close>

text \<open>Spike with its log: \<open>None\<close> when it times out, else what it wrote to its error output.\<close>

type_synonym log_proc = "string list \<Rightarrow> string option"

record cov_args =
  c_mix :: "string list"
  c_count :: int
  c_start :: int
  c_items :: int

definition cov_mixes :: "cov_args \<Rightarrow> string list" where
  "cov_mixes a = (if c_mix a = [] then sort (map fst MIXES) else c_mix a)"

definition cov_asm :: "string \<Rightarrow> string \<times> int \<Rightarrow> string" where
  "cov_asm out = (\<lambda>(mix, seed). path_join out (mix @ dec_int seed @ ''.s''))"

definition cov_cmd :: "tools \<Rightarrow> string \<Rightarrow> string list" where
  "cov_cmd tools elf = [t_spike tools, ''--isa='' @ ISA_SPIKE, ''-m'' @ SPIKE_MEM, ''-l'', elf]"

text \<open>The symbols are looked up at the first line that matches.\<close>

definition count_log :: "syms \<Rightarrow> string list \<Rightarrow> counters \<Rightarrow> counters option" where
  "count_log m ls c =
     (if list_all (\<lambda>l. log_line l = None) ls then Some c
      else do {
        start \<leftarrow> m ''test_start'';
        handler \<leftarrow> m ''trap_handler'';
        Some (cov_lines start handler False None ls c) })"

text \<open>One program: a build error is not caught.\<close>

definition cov_program :: "proc \<Rightarrow> log_proc \<Rightarrow> tools \<Rightarrow> string \<Rightarrow> (string \<Rightarrow> int \<Rightarrow> nat \<Rightarrow> nat) \<Rightarrow> string \<Rightarrow> int \<Rightarrow> string \<times> int \<Rightarrow> counters \<times> files \<Rightarrow> (counters \<times> files) option" where
  "cov_program p lg tools LINK tp out items = (\<lambda>(mix, seed) (c, fs). do {
     let asm = cov_asm out (mix, seed);
     src \<leftarrow> Option.bind (Gen_init (tp mix seed) mix) (program (nat items));
     let fs = fs(asm \<mapsto> src);
     (case build_program p (t_cross tools) LINK asm of
        Built (elf, binf, m) \<Rightarrow> do {
          err \<leftarrow> lg (cov_cmd tools elf);
          c \<leftarrow> count_log m (splitlines err) c;
          Some (c, remove_artifacts asm fs) }
      | _ \<Rightarrow> None) })"

definition cov_jobs :: "cov_args \<Rightarrow> (string \<times> int) list" where
  "cov_jobs a = concat (map (\<lambda>mix. map (Pair mix) (upto_excl (c_start a) (c_start a + c_count a))) (cov_mixes a))"

text \<open>What is printed: the least executed mnemonics are the first 15 in the stable order of their counts.\<close>

record cov_report =
  cr_programs :: int
  cr_insns :: nat
  cr_odd32 :: nat
  cr_distinct :: nat
  cr_missing :: "string list"
  cr_least :: "(string \<times> nat) list"
  cr_other :: "string \<rightharpoonup> nat"
  cr_branches :: "(string \<times> nat \<times> nat) list"
  cr_x0 :: "string \<Rightarrow> nat"
  cr_hints :: "string \<Rightarrow> nat"

definition cov_report_of :: "cov_args \<Rightarrow> counters \<Rightarrow> cov_report" where
  "cov_report_of a c =
     \<lparr>cr_programs = int (length (cov_mixes a)) * c_count a, cr_insns = insns c, cr_odd32 = odd32 c,
      cr_distinct = length EXPECTED - length (missing c), cr_missing = missing c,
      cr_least = take 15 (map (\<lambda>k. (k, mn c k)) (sort_key (mn c) EXPECTED)),
      cr_other = (\<lambda>k. if k \<in> set EXPECTED \<or> mn c k = 0 then None else Some (mn c k)),
      cr_branches = map (\<lambda>b. (b, taken c (b, True), taken c (b, False))) (sort COV_BRANCHES),
      cr_x0 = x0dest c, cr_hints = hints c\<rparr>"

definition cov_main :: "proc \<Rightarrow> log_proc \<Rightarrow> tools \<Rightarrow> string \<Rightarrow> (string \<Rightarrow> int \<Rightarrow> nat \<Rightarrow> nat) \<Rightarrow> string \<Rightarrow> cov_args \<Rightarrow> files \<Rightarrow> (cov_report \<times> files) option" where
  "cov_main p lg tools LINK tp out a fs = do {
     (c, fs) \<leftarrow> run_batches (cov_program p lg tools LINK tp out (c_items a)) (cov_jobs a) (zero_counters, fs);
     Some (cov_report_of a c, fs) }"

section \<open>What is counted\<close>

text \<open>The body lines of a program's log.\<close>

definition body_lines :: "syms \<Rightarrow> string list \<Rightarrow> (nat \<times> nat \<times> string) list" where
  "body_lines m ls =
     (case (m ''test_start'', m ''trap_handler'') of
        (Some start, Some handler) \<Rightarrow> counted start handler False ls
      | _ \<Rightarrow> [])"

definition body_of :: "proc \<Rightarrow> log_proc \<Rightarrow> tools \<Rightarrow> string \<Rightarrow> string \<Rightarrow> string \<times> int \<Rightarrow> (nat \<times> nat \<times> string) list" where
  "body_of p lg tools LINK out job =
     (case build_program p (t_cross tools) LINK (cov_asm out job) of
        Built (elf, binf, m) \<Rightarrow> (case lg (cov_cmd tools elf) of None \<Rightarrow> [] | Some err \<Rightarrow> body_lines m (splitlines err))
      | _ \<Rightarrow> [])"

abbreviation mnemonics :: "(nat \<times> nat \<times> string) list \<Rightarrow> string list" where
  "mnemonics \<equiv> map (\<lambda>(_, _, op). canon op)"

text \<open>\<open>c'\<close> is \<open>c\<close> with the body lines \<open>xs\<close> counted.\<close>

definition adds :: "(nat \<times> nat \<times> string) list list \<Rightarrow> counters \<Rightarrow> counters \<Rightarrow> bool" where
  "adds xss c c' \<longleftrightarrow> insns c' = insns c + length (concat xss)
     \<and> (\<forall>k. mn c' k = mn c k + count k (mnemonics (concat xss)))
     \<and> (\<forall>b t. b \<in> set COV_BRANCHES \<longrightarrow> taken c' (b, t) = taken c (b, t) + count (b, t) (concat (map follow xss)))"

lemma count_append [simp]: "count k (xs @ ys) = count k xs + count k ys"
  by (simp add: count_def)

lemma count_Nil [simp]: "count k [] = 0"
  by (simp add: count_def)

lemma count_zero: "count k xs = 0 \<longleftrightarrow> k \<notin> set xs"
  by (auto simp: count_def filter_empty_conv)

lemma counted_none: "list_all (\<lambda>l. log_line l = None) ls \<Longrightarrow> counted start handler b ls = []"
  by (induction ls) auto

lemma count_log_adds: "count_log m ls c = Some c' \<Longrightarrow> adds [body_lines m ls] c c'"
proof (cases "list_all (\<lambda>l. log_line l = None) ls")
  case True
  assume "count_log m ls c = Some c'"
  then have "c' = c" using True by (simp add: count_log_def)
  moreover have "body_lines m ls = []" using counted_none [OF True] by (simp add: body_lines_def split: option.split)
  ultimately show ?thesis by (simp add: adds_def)
next
  case False
  assume "count_log m ls c = Some c'"
  with False obtain start handler where m: "m ''test_start'' = Some start" "m ''trap_handler'' = Some handler"
    and c': "c' = cov_lines start handler False None ls c" by (auto simp: count_log_def bind_eq_Some_conv)
  show ?thesis
    using cov_lines_mn [of start handler False None ls c] cov_lines_taken [of _ None False start handler ls c]
    by (simp add: adds_def body_lines_def m c')
qed

lemma cov_program_adds:
  assumes "cov_program p lg tools LINK tp out items job s = Some s'"
  shows "adds [body_of p lg tools LINK out job] (fst s) (fst s')"
    and "\<exists>src. snd s' = remove_artifacts (cov_asm out job) ((snd s)(cov_asm out job \<mapsto> src))"
proof -
  obtain mix seed c fs where j: "job = (mix, seed)" "s = (c, fs)" by (cases job, cases s)
  obtain src elf binf m err c' where b: "build_program p (t_cross tools) LINK (cov_asm out job) = Built (elf, binf, m)"
    and l: "lg (cov_cmd tools elf) = Some err" "count_log m (splitlines err) c = Some c'"
    and s': "s' = (c', remove_artifacts (cov_asm out job) (fs(cov_asm out job \<mapsto> src)))"
    using assms by (cases "build_program p (t_cross tools) LINK (cov_asm out (mix, seed))")
      (auto simp: cov_program_def j Let_def bind_eq_Some_conv)
  show "adds [body_of p lg tools LINK out job] (fst s) (fst s')"
    using count_log_adds [OF l(2)] by (simp add: body_of_def b l(1) j(2) s')
  show "\<exists>src. snd s' = remove_artifacts (cov_asm out job) ((snd s)(cov_asm out job \<mapsto> src))" by (auto simp: s' j(2))
qed

lemma adds_trans: "adds xss c c1 \<Longrightarrow> adds yss c1 c2 \<Longrightarrow> adds (xss @ yss) c c2"
  by (simp add: adds_def)

lemma cov_runs_adds:
  "run_batches (cov_program p lg tools LINK tp out items) jobs s = Some s' \<Longrightarrow>
   adds (map (body_of p lg tools LINK out) jobs) (fst s) (fst s')"
proof (induction jobs arbitrary: s)
  case Nil
  then show ?case by (simp add: adds_def)
next
  case (Cons job jobs)
  then obtain s1 where s1: "cov_program p lg tools LINK tp out items job s = Some s1"
    "run_batches (cov_program p lg tools LINK tp out items) jobs s1 = Some s'" by (auto simp: bind_eq_Some_conv)
  from adds_trans [OF cov_program_adds(1) [OF s1(1)] Cons.IH [OF s1(2)]] show ?case by simp
qed


text \<open>The programs are deleted: afterwards none of their artifacts exists, and no other file has changed.\<close>

definition artifacts :: "string \<Rightarrow> string set" where
  "artifacts asm = (\<lambda>ext. chop 2 asm @ ext) ` {''.s'', ''.o'', ''.elf'', ''.bin'', ''.sig''}"

lemma remove_artifacts_at: "remove_artifacts asm fs q = (if q \<in> artifacts asm then None else fs q)"
  by (simp add: remove_artifacts_def artifacts_def)

lemma asm_artifact: "cov_asm out job \<in> artifacts (cov_asm out job)"
proof -
  obtain mix seed where j: "job = (mix, seed)" by (cases job)
  have "\<exists>x. cov_asm out job = x @ ''.s''" by (auto simp: cov_asm_def j path_join_def intro: exI [of _ "mix @ dec_int seed"] exI [of _ "out @ mix @ dec_int seed"] exI [of _ "out @ ''/'' @ mix @ dec_int seed"])
  then show ?thesis by (auto simp: artifacts_def chop_def)
qed

theorem coverage_deletes:
  assumes "cov_main p lg tools LINK tp out a fs = Some (r, fs')"
  shows "fs' q = (if \<exists>job \<in> set (cov_jobs a). q \<in> artifacts (cov_asm out job) then None else fs q)"
proof -
  have runs: "run_batches (cov_program p lg tools LINK tp out items) jobs s = Some s' \<Longrightarrow>
      snd s' q = (if \<exists>job \<in> set jobs. q \<in> artifacts (cov_asm out job) then None else snd s q)" for items jobs s s'
  proof (induction jobs arbitrary: s)
    case (Cons job jobs)
    then obtain s1 where s1: "cov_program p lg tools LINK tp out items job s = Some s1"
      "run_batches (cov_program p lg tools LINK tp out items) jobs s1 = Some s'" by (auto simp: bind_eq_Some_conv)
    obtain src where "snd s1 = remove_artifacts (cov_asm out job) ((snd s)(cov_asm out job \<mapsto> src))"
      using cov_program_adds(2) [OF s1(1)] by blast
    then have "snd s1 q = (if q \<in> artifacts (cov_asm out job) then None else snd s q)"
      using asm_artifact [of out job] by (auto simp: remove_artifacts_at)
    then show ?case using Cons.IH [OF s1(2)] by auto
  qed simp
  obtain c where "run_batches (cov_program p lg tools LINK tp out (c_items a)) (cov_jobs a) (zero_counters, fs) = Some (c, fs')"
    using assms by (auto simp: cov_main_def bind_eq_Some_conv)
  from runs [OF this] show ?thesis by simp
qed

text \<open>A run with one program, whose log has one line of the body.\<close>

definition sample_build :: proc where
  "sample_build cmd = (0, if length cmd = 2 then ''00000010 T test_start'' @ nl @ ''00000040 T trap_handler'' else [], [])"

definition sample_spike :: log_proc where
  "sample_spike cmd = Some ''core   0: 0x00000010 (0x00000463) beq     zero, zero, pc + 8''"

definition sample_cov :: cov_args where
  "sample_cov = \<lparr>c_mix = [''mem''], c_count = 1, c_start = 0, c_items = 40\<rparr>"

definition sample_syms :: syms where
  "sample_syms = [''test_start'' \<mapsto> 16, ''trap_handler'' \<mapsto> 64]"

lemma sample_built:
  "\<exists>elf binf. build_program sample_build cross LINK asm = Built (elf, binf, sample_syms)"
proof -
  have "splitlines (''00000010 T test_start'' @ nl @ ''00000040 T trap_handler'') = [''00000010 T test_start'', ''00000040 T trap_handler'']"
    by code_simp
  moreover have "split_ws ''00000010 T test_start'' = [''00000010'', ''T'', ''test_start'']"
    "split_ws ''00000040 T trap_handler'' = [''00000040'', ''T'', ''trap_handler'']" by code_simp+
  moreover have "int_hex ''00000010'' = Some 16" "int_hex ''00000040'' = Some 64" by code_simp+
  ultimately have "read_syms (splitlines (''00000010 T test_start'' @ nl @ ''00000040 T trap_handler'')) Map.empty = Built sample_syms"
    by (simp add: sample_syms_def)
  then show ?thesis by (simp add: build_program_def sample_build_def sh_def symbols_def Let_def)
qed

lemma sample_lines: "log_line ''core   0: 0x00000010 (0x00000463) beq     zero, zero, pc + 8'' = Some (16, 0x463, ''beq'')"
  "splitlines ''core   0: 0x00000010 (0x00000463) beq     zero, zero, pc + 8'' = [''core   0: 0x00000010 (0x00000463) beq     zero, zero, pc + 8'']"
  by code_simp+

lemma sample_jobs: "cov_jobs sample_cov = [(''mem'', 0)]"
  by (simp add: cov_jobs_def sample_cov_def cov_mixes_def upto_excl_def)

lemma sample_cov_returns: "\<exists>r fs'. cov_main sample_build sample_spike no_tools [] (\<lambda>_ _ _. 0) ''/w'' sample_cov fs = Some (r, fs')"
proof -
  obtain src where "program 40 Gen_Program.sample = Some src" using program_Some [of Gen_Program.sample 40] Gen_init_top_level [OF sample_init] by auto
  note g = this sample_init
  obtain elf binf where b: "build_program sample_build (t_cross no_tools) [] (cov_asm ''/w'' (''mem'', 0)) = Built (elf, binf, sample_syms)"
    using sample_built by blast
  show ?thesis
    unfolding cov_main_def sample_jobs
    by (simp add: cov_program_def Let_def g b sample_cov_def sample_spike_def count_log_def sample_lines sample_syms_def)
qed

lemma sample_body: "map (body_of sample_build sample_spike no_tools [] ''/w'') (cov_jobs sample_cov) = [[(16, 0x463, ''beq'')]]"
proof -
  obtain elf binf where b: "build_program sample_build (t_cross no_tools) [] (cov_asm ''/w'' (''mem'', 0)) = Built (elf, binf, sample_syms)"
    using sample_built by blast
  show ?thesis unfolding sample_jobs
    by (simp add: body_of_def b sample_spike_def body_lines_def sample_syms_def sample_lines)
qed


theorem coverage_deletes_witness:
  "\<exists>r fs'. cov_main sample_build sample_spike no_tools [] (\<lambda>_ _ _. 0) ''/w'' sample_cov [''keep'' \<mapsto> []] = Some (r, fs')
     \<and> fs' (cov_asm ''/w'' (''mem'', 0)) = None"
proof -
  obtain r fs' where r: "cov_main sample_build sample_spike no_tools [] (\<lambda>_ _ _. 0) ''/w'' sample_cov [''keep'' \<mapsto> []] = Some (r, fs')"
    using sample_cov_returns by blast
  have "fs' (cov_asm ''/w'' (''mem'', 0)) = None"
    using coverage_deletes [OF r, of "cov_asm ''/w'' (''mem'', 0)"] asm_artifact [of "''/w''" "(''mem'', 0)"] by (simp add: sample_jobs)
  with r show ?thesis by blast
qed

end
