(* ===== verification/PyCodec.thy ===== *)
theory PyCodec
  imports PyBytes
begin

text \<open>
  Encodings the mutation driver uses from Python's library: UTF-8 (\<open>bytes.decode\<close>,
  \<open>str.encode\<close>), base 64 and the JSON text of an object of strings, each with its round trip.
\<close>

section \<open>UTF-8\<close>

text \<open>Text is a list of code points. A surrogate has no encoding; \<open>None\<close> is a UnicodeError.\<close>

type_synonym codepoints = "nat list"

definition utf8_char :: "nat \<Rightarrow> nat list option" where
  "utf8_char n =
     (if n < 0x80 then Some [n]
      else if n < 0x800 then Some [0xC0 + n div 64, 0x80 + n mod 64]
      else if 0xD800 \<le> n \<and> n < 0xE000 then None
      else if n < 0x10000 then Some [0xE0 + n div 4096, 0x80 + n div 64 mod 64, 0x80 + n mod 64]
      else if n < 0x110000 then Some [0xF0 + n div 262144, 0x80 + n div 4096 mod 64, 0x80 + n div 64 mod 64, 0x80 + n mod 64]
      else None)"

definition utf8_encode :: "codepoints \<Rightarrow> bytes option" where
  "utf8_encode s = map_option (\<lambda>cs. map word_of_nat (concat cs)) (those (map utf8_char s))"

definition cont :: "nat \<Rightarrow> bool" where
  "cont b \<longleftrightarrow> 0x80 \<le> b \<and> b < 0xC0"

fun utf8_read :: "nat list \<Rightarrow> codepoints option" where
  "utf8_read [] = Some []"
| "utf8_read (a # bs) =
     (if a < 0x80 then map_option ((#) a) (utf8_read bs)
      else if 0xC2 \<le> a \<and> a < 0xE0 then
        (case bs of
           b # r \<Rightarrow> if cont b then map_option ((#) ((a - 0xC0) * 64 + (b - 0x80))) (utf8_read r) else None
         | [] \<Rightarrow> None)
      else if 0xE0 \<le> a \<and> a < 0xF0 then
        (case bs of
           b # c # r \<Rightarrow>
             let n = (a - 0xE0) * 4096 + (b - 0x80) * 64 + (c - 0x80) in
             if cont b \<and> cont c \<and> 0x800 \<le> n \<and> \<not> (0xD800 \<le> n \<and> n < 0xE000)
             then map_option ((#) n) (utf8_read r) else None
         | _ \<Rightarrow> None)
      else if 0xF0 \<le> a \<and> a < 0xF5 then
        (case bs of
           b # c # d # r \<Rightarrow>
             let n = (a - 0xF0) * 262144 + (b - 0x80) * 4096 + (c - 0x80) * 64 + (d - 0x80) in
             if cont b \<and> cont c \<and> cont d \<and> 0x10000 \<le> n \<and> n < 0x110000
             then map_option ((#) n) (utf8_read r) else None
         | _ \<Rightarrow> None)
      else None)"

definition utf8_decode :: "bytes \<Rightarrow> codepoints option" where
  "utf8_decode bs = utf8_read (map unat bs)"

lemma div_div64: "n div 64 div 64 = n div (4096::nat)" "n div 4096 div 64 = n div (262144::nat)"
  by (simp_all add: div_mult2_eq [symmetric])

lemma digits64:
  "n div 64 * 64 + n mod 64 = (n::nat)"
  "n div 4096 * 4096 + n div 64 mod 64 * 64 + n mod 64 = (n::nat)"
  "n div 262144 * 262144 + n div 4096 mod 64 * 4096 + n div 64 mod 64 * 64 + n mod 64 = (n::nat)"
  using div_mult_mod_eq [of n 64] div_mult_mod_eq [of "n div 64" 64] div_mult_mod_eq [of "n div 4096" 64]
  unfolding div_div64 by linarith+

lemma utf8_read_char: "utf8_char n = Some bs \<Longrightarrow> utf8_read (bs @ r) = map_option ((#) n) (utf8_read r)"
  using digits64 [of n] by (auto simp: utf8_char_def cont_def Let_def split: if_splits)

lemma utf8_char_bytes: "utf8_char n = Some bs \<Longrightarrow> b \<in> set bs \<Longrightarrow> b < 256"
  by (auto simp: utf8_char_def split: if_splits)

lemma utf8_read_encoded: "those (map utf8_char s) = Some cs \<Longrightarrow> utf8_read (concat cs) = Some s"
  by (induction s arbitrary: cs) (auto simp: utf8_read_char split: option.splits)

lemma utf8_decode_encode:
  assumes "utf8_encode s = Some bs"
  shows "utf8_decode bs = Some s"
proof -
  obtain cs where cs: "those (map utf8_char s) = Some cs" "bs = map word_of_nat (concat cs)"
    using assms by (auto simp: utf8_encode_def)
  have "b < 256" if "b \<in> set (concat cs)" for b
    using cs(1) that by (induction s arbitrary: cs) (auto simp: utf8_char_bytes split: option.splits, blast)
  then have "map (\<lambda>b. unat (word_of_nat b :: byte)) (concat cs) = concat cs"
    by (intro map_idI) (simp add: unat_of_nat)
  then show ?thesis using utf8_read_encoded [OF cs(1)] by (simp add: utf8_decode_def cs(2) o_def)
qed

section \<open>Base 64\<close>

definition dig64 :: "nat \<Rightarrow> char" where
  "dig64 d =
     (if d < 26 then char_of (65 + d) else if d < 52 then char_of (71 + d) else if d < 62 then char_of (d - 4)
      else if d = 62 then CHR ''+'' else CHR ''/'')"

definition undig64 :: "char \<Rightarrow> nat option" where
  "undig64 c = (let n = of_char c :: nat in
     if 65 \<le> n \<and> n < 91 then Some (n - 65) else if 97 \<le> n \<and> n < 123 then Some (n - 71)
     else if 48 \<le> n \<and> n < 58 then Some (n + 4) else if c = CHR ''+'' then Some 62 else if c = CHR ''/'' then Some 63 else None)"

interpretation base64: notation_base 64 dig64 undig64
proof unfold_locales
  fix d :: nat
  assume "d < 64"
  then show "undig64 (dig64 d) = Some d"
    by (auto simp: dig64_def undig64_def Let_def of_char_of not_less less_Suc_eq_le)
qed simp

fun b64encode :: "bytes \<Rightarrow> string" where
  "b64encode [] = []"
| "b64encode [a] = [dig64 (unat a div 4), dig64 (unat a mod 4 * 16), CHR ''='', CHR ''='']"
| "b64encode [a, b] = [dig64 (unat a div 4), dig64 (unat a mod 4 * 16 + unat b div 16), dig64 (unat b mod 16 * 4), CHR ''='']"
| "b64encode (a # b # c # r) =
     [dig64 (unat a div 4), dig64 (unat a mod 4 * 16 + unat b div 16), dig64 (unat b mod 16 * 4 + unat c div 64), dig64 (unat c mod 64)]
     @ b64encode r"

text \<open>
  \<open>binascii.a2b_base64\<close>: \<open>q\<close> digits of a group of four are read and \<open>l\<close> are their open bits, after
  \<open>p\<close> pads; characters outside the alphabet are skipped, and a pad that completes a group ends the data.
\<close>

fun b64_go :: "nat \<Rightarrow> nat \<Rightarrow> nat \<Rightarrow> string \<Rightarrow> bytes option" where
  "b64_go q l p [] = (if q = 0 then Some [] else None)"
| "b64_go q l p (c # s) =
     (if c = CHR ''='' then
        (if 2 \<le> q \<and> 4 \<le> q + p + 1 then Some [] else b64_go q l (if 2 \<le> q then p + 1 else p) s)
      else case undig64 c of
        None \<Rightarrow> b64_go q l p s
      | Some v \<Rightarrow>
          if q = 0 then b64_go 1 v 0 s
          else if q = 1 then map_option ((#) (word_of_nat (l * 4 + v div 16))) (b64_go 2 (v mod 16) 0 s)
          else if q = 2 then map_option ((#) (word_of_nat (l * 16 + v div 4))) (b64_go 3 (v mod 4) 0 s)
          else map_option ((#) (word_of_nat (l * 64 + v))) (b64_go 0 0 0 s))"

definition b64decode :: "string \<Rightarrow> bytes option" where
  "b64decode s = b64_go 0 0 0 s"

lemma dig64_no_pad: "d < 64 \<Longrightarrow> dig64 d \<noteq> CHR ''=''"
  using base64.undig_dig [of d] by (auto simp: undig64_def)

lemma byte_less: "unat (b :: byte) < 256"
  using unsigned_less [of b] by simp

lemma b64_step: "d < 64 \<Longrightarrow> b64_go q l p (dig64 d # s) =
     (if q = 0 then b64_go 1 d 0 s
      else if q = 1 then map_option ((#) (word_of_nat (l * 4 + d div 16))) (b64_go 2 (d mod 16) 0 s)
      else if q = 2 then map_option ((#) (word_of_nat (l * 16 + d div 4))) (b64_go 3 (d mod 4) 0 s)
      else map_option ((#) (word_of_nat (l * 64 + d))) (b64_go 0 0 0 s))"
  by (simp add: base64.undig_dig dig64_no_pad)

lemma b64_byte: "unat (b :: byte) = n \<Longrightarrow> word_of_nat n = b"
  by auto

lemma b64decode_encode: "b64decode (b64encode bs) = Some bs"
  unfolding b64decode_def
proof (induction bs rule: b64encode.induct)
  case (2 a)
  have "unat a div 4 * 4 + unat a mod 4 = unat a" by simp
  then show ?case using byte_less [of a] by (simp add: b64_step b64_byte del: b64_go.simps(2)) simp
next
  case (3 a b)
  then show ?case using byte_less [of a] byte_less [of b] by (simp add: b64_step b64_byte del: b64_go.simps(2)) simp
next
  case (4 a b c r)
  then show ?case using byte_less [of a] byte_less [of b] byte_less [of c]
    by (simp add: b64_step b64_byte del: b64_go.simps(2))
qed simp

section \<open>JSON objects of strings\<close>

text \<open>
  \<open>json.dumps\<close> of a dict of strings, with Python's separators and ASCII escapes, and \<open>json.load\<close> on
  text of that shape. \<open>None\<close> is a JSONDecodeError; values that are not strings, and escapes above
  the first 256 code points, are outside the model (also \<open>None\<close>).
\<close>

definition esc :: "char \<Rightarrow> string" where
  "esc c =
     (let n = of_char c :: nat in
      if c = CHR 0x22 then [CHR 0x5C, CHR 0x22]
      else if c = CHR 0x5C then [CHR 0x5C, CHR 0x5C]
      else if c = CHR 0x0A then [CHR 0x5C, CHR ''n'']
      else if c = CHR 0x0D then [CHR 0x5C, CHR ''r'']
      else if c = CHR 0x09 then [CHR 0x5C, CHR ''t'']
      else if c = CHR 0x0C then [CHR 0x5C, CHR ''f'']
      else if c = CHR 0x08 then [CHR 0x5C, CHR ''b'']
      else if n < 32 \<or> 126 < n then [CHR 0x5C, CHR ''u'', CHR ''0'', CHR ''0'', hex_dig (n div 16), hex_dig (n mod 16)]
      else [c])"

definition quoted :: "string \<Rightarrow> string" where
  "quoted s = CHR 0x22 # concat (map esc s) @ [CHR 0x22]"

definition entry :: "string \<times> string \<Rightarrow> string" where
  "entry kv = quoted (fst kv) @ '': '' @ quoted (snd kv)"

definition dumps :: "(string \<times> string) list \<Rightarrow> string" where
  "dumps kvs = ''{'' @ join '', '' (map entry kvs) @ ''}''"

definition unesc :: "char \<Rightarrow> char option" where
  "unesc e = map_of [(CHR 0x22, CHR 0x22), (CHR 0x5C, CHR 0x5C), (CHR ''/'', CHR ''/''), (CHR ''b'', CHR 0x08),
     (CHR ''f'', CHR 0x0C), (CHR ''n'', CHR 0x0A), (CHR ''r'', CHR 0x0D), (CHR ''t'', CHR 0x09)] e"

definition hex4 :: "string \<Rightarrow> char option" where
  "hex4 s = (case read_hex s of None \<Rightarrow> None | Some n \<Rightarrow> if n < 256 then Some (char_of n) else None)"

text \<open>The character an escape stands for, behind its backslash.\<close>

definition escape :: "string \<Rightarrow> (char \<times> string) option" where
  "escape s =
     (case s of
        [] \<Rightarrow> None
      | e # r \<Rightarrow>
          if e = CHR ''u'' then
            (if length r < 4 then None else map_option (\<lambda>x. (x, drop 4 r)) (hex4 (take 4 r)))
          else map_option (\<lambda>x. (x, r)) (unesc e))"

lemma escape_shorter: "escape s = Some (x, r) \<Longrightarrow> length r < length s"
  by (auto simp: escape_def split: list.splits if_splits)

lemma escape_extend: "escape s = Some (x, r) \<Longrightarrow> escape (s @ t) = Some (x, r @ t)"
  by (auto simp: escape_def split: list.splits if_splits)

text \<open>The rest of a string behind its opening quote.\<close>

function scanstr :: "string \<Rightarrow> (string \<times> string) option" where
  "scanstr [] = None"
| "scanstr (c # r) =
     (if c = CHR 0x22 then Some ([], r)
      else if c = CHR 0x5C then
        (case escape r of
           None \<Rightarrow> None
         | Some (x, r1) \<Rightarrow> map_option (\<lambda>(s, t). (x # s, t)) (scanstr r1))
      else if (of_char c :: nat) < 32 then None
      else map_option (\<lambda>(s, t). (c # s, t)) (scanstr r))"
  by pat_completeness auto
termination
  by (relation "measure length") (auto dest: escape_shorter)

definition js_space :: "char \<Rightarrow> bool" where
  "js_space c \<longleftrightarrow> c \<in> {CHR '' '', CHR 0x09, CHR 0x0A, CHR 0x0D}"

text \<open>A character that must come next, behind blanks.\<close>

definition token :: "char \<Rightarrow> string \<Rightarrow> string option" where
  "token c s = (case dropWhile js_space s of [] \<Rightarrow> None | x # r \<Rightarrow> if x = c then Some r else None)"

lemma scanstr_shorter: "scanstr s = Some (v, r) \<Longrightarrow> length r < length s"
proof (induction s arbitrary: v r rule: scanstr.induct)
  case (2 c s)
  then show ?case by (fastforce split: if_splits option.splits dest: escape_shorter)
qed simp

lemma token_shorter: "token c s = Some r \<Longrightarrow> length r < length s"
  using length_dropWhile_le [of js_space s] by (auto simp: token_def split: list.splits if_splits)

definition pair :: "string \<Rightarrow> ((string \<times> string) \<times> string) option" where
  "pair s = do {
     s1 \<leftarrow> token (CHR 0x22) s;
     (k, s2) \<leftarrow> scanstr s1;
     s3 \<leftarrow> token (CHR '':'') s2;
     s4 \<leftarrow> token (CHR 0x22) s3;
     (v, s5) \<leftarrow> scanstr s4;
     Some ((k, v), s5) }"

lemma pair_shorter: "pair s = Some (kv, r) \<Longrightarrow> length r < length s"
  by (auto simp: pair_def bind_eq_Some_conv dest!: token_shorter scanstr_shorter)

function members :: "string \<Rightarrow> ((string \<times> string) list \<times> string) option" where
  "members s =
     (case pair s of
        None \<Rightarrow> None
      | Some (kv, r) \<Rightarrow>
          (case token (CHR '','') r of
             Some r1 \<Rightarrow> map_option (\<lambda>(kvs, t). (kv # kvs, t)) (members r1)
           | None \<Rightarrow> map_option (\<lambda>t. ([kv], t)) (token (CHR ''}'') r)))"
  by pat_completeness auto
termination
  by (relation "measure length") (auto dest!: pair_shorter token_shorter)

declare members.simps [simp del]

definition loads :: "string \<Rightarrow> (string \<rightharpoonup> string) option" where
  "loads s =
     (case token (CHR ''{'') s of
        None \<Rightarrow> None
      | Some r \<Rightarrow>
          (case (case token (CHR ''}'') r of Some t \<Rightarrow> Some ([], t) | None \<Rightarrow> members r) of
             None \<Rightarrow> None
           | Some (kvs, t) \<Rightarrow> if list_all js_space t then Some (map_of (rev kvs)) else None))"

lemma token_here [simp]: "\<not> js_space c \<Longrightarrow> token c (c # r) = Some r"
  by (simp add: token_def)

lemma token_blank [simp]: "token c (CHR '' '' # r) = token c r"
  by (simp add: token_def js_space_def)

lemma js_space_marks [simp]:
  "\<not> js_space (CHR 0x22)" "\<not> js_space (CHR '':'')" "\<not> js_space (CHR '','')" "\<not> js_space (CHR ''{'')" "\<not> js_space (CHR ''}'')"
  by (simp_all add: js_space_def)

lemma hex4_byte: "n < 256 \<Longrightarrow> hex4 [CHR ''0'', CHR ''0'', hex_dig (n div 16), hex_dig (n mod 16)] = Some (char_of n)"
proof -
  assume n: "n < 256"
  then have "hex_undig (hex_dig (n div 16)) = Some (n div 16)" "hex_undig (hex_dig (n mod 16)) = Some (n mod 16)"
    by (simp_all add: hexadecimal.undig_dig less_mult_imp_div_less)
  then have "read_hex [CHR ''0'', CHR ''0'', hex_dig (n div 16), hex_dig (n mod 16)] = Some n"
    by (simp add: read_hex_def of_base_def)
  then show ?thesis using n by (simp add: hex4_def)
qed

lemma scanstr_esc: "scanstr (esc c @ r) = map_option (\<lambda>(s, t). (c # s, t)) (scanstr r)"
  using hex4_byte [of "of_char c"] by (auto simp: esc_def escape_def unesc_def Let_def)

lemma scanstr_quoted: "scanstr (concat (map esc s) @ CHR 0x22 # r) = Some (s, r)"
  by (induction s) (simp_all add: scanstr_esc)

lemma pair_text: "pair (quoted k @ CHR '':'' # CHR '' '' # quoted v @ r) = Some ((k, v), r)"
  by (simp add: pair_def quoted_def scanstr_quoted)

lemma pair_entry: "pair (entry kv @ r) = Some (kv, r)"
  using pair_text by (cases kv) (simp add: entry_def)

lemma members_blank: "members (CHR '' '' # s) = members s"
  by (subst (1 2) members.simps) (simp add: pair_def)

lemma members_text: "kvs \<noteq> [] \<Longrightarrow> members (join '', '' (map entry kvs) @ CHR ''}'' # r) = Some (kvs, r)"
proof (induction kvs)
  case (Cons kv kvs)
  show ?case
  proof (cases "kvs = []")
    case True
    then show ?thesis by (subst members.simps) (simp add: pair_entry token_def)
  next
    case False
    then have "join '', '' (map entry (kv # kvs)) = entry kv @ '', '' @ join '', '' (map entry kvs)"
      by (cases kvs) simp_all
    with False Cons.IH show ?thesis by (subst members.simps) (simp add: pair_entry members_blank)
  qed
qed simp

lemma loads_dumps: "kvs \<noteq> [] \<Longrightarrow> loads (dumps kvs) = Some (map_of (rev kvs))"
proof -
  assume k: "kvs \<noteq> []"
  then obtain kv kvs' where kvs: "kvs = kv # kvs'" by (cases kvs) auto
  have "\<exists>s. join '', '' (map entry (kv # kvs')) = CHR 0x22 # s"
    by (cases kv; cases kvs') (simp_all add: entry_def quoted_def)
  then obtain s where s: "join '', '' (map entry kvs) = CHR 0x22 # s" using kvs by blast
  have "token (CHR ''}'') (CHR 0x22 # t) = None" for t by (simp add: token_def)
  then show ?thesis using members_text [OF k, of "[]"] by (simp add: loads_def dumps_def s)
qed

subsection \<open>Truncated text\<close>

text \<open>A reader that accepts some text accepts any continuation, with the continuation as the rest.\<close>

lemma scanstr_extend: "scanstr s = Some (v, r) \<Longrightarrow> scanstr (s @ t) = Some (v, r @ t)"
proof (induction s arbitrary: v r rule: scanstr.induct)
  case (2 c s)
  then show ?case by (auto simp: escape_extend split: if_splits option.splits)
qed simp

lemma token_extend: "token c s = Some r \<Longrightarrow> token c (s @ t) = Some (r @ t)"
  by (induction s) (auto simp: token_def split: if_splits)

lemma pair_extend: "pair s = Some (kv, r) \<Longrightarrow> pair (s @ t) = Some (kv, r @ t)"
proof -
  assume "pair s = Some (kv, r)"
  then obtain s1 k s2 s3 s4 v where "token (CHR 0x22) s = Some s1" "scanstr s1 = Some (k, s2)" "token (CHR '':'') s2 = Some s3"
    "token (CHR 0x22) s3 = Some s4" "scanstr s4 = Some (v, r)" "kv = (k, v)"
    by (auto simp: pair_def bind_eq_Some_conv)
  then show ?thesis by (simp add: pair_def token_extend scanstr_extend)
qed

lemma members_extend: "members s = Some (kvs, r) \<Longrightarrow> members (s @ t) = Some (kvs, r @ t)"
proof (induction s arbitrary: kvs r rule: members.induct)
  case (1 s)
  obtain kv s1 where p: "pair s = Some (kv, s1)"
    using 1(2) by (auto simp: members.simps [of s] split: option.splits)
  show ?case
  proof (cases "token (CHR '','') s1")
    case (Some s2)
    then obtain kvs' where "members s2 = Some (kvs', r)" "kvs = kv # kvs'"
      using 1(2) p by (auto simp: members.simps [of s])
    with 1(1) [OF p refl Some] show ?thesis
      using Some p by (simp add: members.simps [of "s @ t"] pair_extend token_extend)
  next
    case None
    then have e: "token (CHR ''}'') s1 = Some r" "kvs = [kv]" using 1(2) p by (auto simp: members.simps [of s])
    then have "token (CHR '','') (s1 @ t) = None" by (induction s1) (auto simp: token_def split: if_splits)
    with e p show ?thesis by (simp add: members.simps [of "s @ t"] pair_extend token_extend)
  qed
qed

text \<open>No proper prefix of an object's text is accepted.\<close>

lemma loads_truncated:
  assumes "kvs \<noteq> []" "dumps kvs = s @ t" "t \<noteq> []"
  shows "loads s = None"
proof (rule ccontr)
  assume "loads s \<noteq> None"
  then obtain r where r: "token (CHR ''{'') s = Some r" by (auto simp: loads_def split: option.splits)
  have "token (CHR ''{'') (dumps kvs) = Some (join '', '' (map entry kvs) @ ''}'')" by (simp add: dumps_def)
  then have body: "join '', '' (map entry kvs) @ ''}'' = r @ t" using token_extend [OF r, of t] assms(2) by simp
  have m: "members (r @ t) = Some (kvs, [])" using members_text [OF assms(1), of "[]"] body by auto
  have "loads s \<noteq> None \<Longrightarrow> \<exists>kvs' u. members r = Some (kvs', u) \<or> token (CHR ''}'') r = Some u"
    using r by (auto simp: loads_def split: option.splits)
  then obtain kvs' u where "members r = Some (kvs', u) \<or> token (CHR ''}'') r = Some u" using \<open>loads s \<noteq> None\<close> by blast
  then show False
  proof
    assume "members r = Some (kvs', u)"
    from members_extend [OF this, of t] m assms(3) show False by simp
  next
    assume "token (CHR ''}'') r = Some u"
    then have "token (CHR ''}'') (r @ t) = Some (u @ t)" by (rule token_extend)
    moreover have "token (CHR 0x22) (r @ t) \<noteq> None"
      using m by (auto simp: members.simps [of "r @ t"] pair_def bind_eq_Some_conv split: option.splits)
    ultimately show False by (auto simp: token_def split: list.splits if_splits)
  qed
qed

end
