(* ===== verification/Edits.thy ===== *)
theory Edits
  imports PyCodec Setup
begin

text \<open>
  The catalogue of \<^verbatim>\<open>tools/mutation/mutate.py\<close>: its checks (\<open>catalogue_problems\<close>), the edits
  (\<open>apply_edits\<close>), and their check against a tree (\<open>validate\<close>), with a specification of an edit as the
  replacement of one anchored occurrence. Problems are values instead of their messages.
\<close>

section \<open>The catalogue\<close>

text \<open>A mutant is a dict; a key may be missing. An edit is a sequence of texts, meant to be a pair.\<close>

type_synonym edit = "codepoints list"

record mutant =
  m_id :: "string option"
  m_file :: "string option"
  m_desc :: "string option"
  m_edits :: "edit list option"

record catalogue =
  MUTANTS :: "mutant list"
  EQUIVALENT :: "string list"

datatype edit_error = EditError nat nat codepoints | ValueError

datatype problem =
    Missing string string | Duplicate string | NoEdits string | BadEdit string nat | UnknownId string
  | Unreadable string string string | Unchanged string string | NotApplicable string string edit_error

definition mid :: "mutant \<Rightarrow> string" where
  "mid m = (case m_id m of None \<Rightarrow> ''?'' | Some i \<Rightarrow> i)"

definition missing_keys :: "mutant \<Rightarrow> string list" where
  "missing_keys m =
     (if m_id m = None then [''id''] else []) @ (if m_file m = None then [''file''] else [])
     @ (if m_desc m = None then [''desc''] else []) @ (if m_edits m = None then [''edits''] else [])"

definition edits_of :: "mutant \<Rightarrow> edit list" where
  "edits_of m = (case m_edits m of None \<Rightarrow> [] | Some es \<Rightarrow> es)"

definition bad_edit :: "edit \<Rightarrow> bool" where
  "bad_edit e \<longleftrightarrow> length e \<noteq> 2 \<or> e ! 0 = [] \<or> e ! 0 = e ! 1"

fun bad_edits :: "string \<Rightarrow> nat \<Rightarrow> edit list \<Rightarrow> problem list" where
  "bad_edits i n [] = []"
| "bad_edits i n (e # es) = (if bad_edit e then [BadEdit i n] else []) @ bad_edits i (Suc n) es"

fun mutant_problems :: "string set \<Rightarrow> mutant list \<Rightarrow> problem list \<times> string set" where
  "mutant_problems seen [] = ([], seen)"
| "mutant_problems seen (m # ms) =
     (let ps = map (Missing (mid m)) (missing_keys m)
               @ (if mid m \<in> seen then [Duplicate (mid m)] else [])
               @ (if edits_of m = [] then [NoEdits (mid m)] else [])
               @ bad_edits (mid m) 1 (edits_of m);
          (qs, seen') = mutant_problems (insert (mid m) seen) ms
      in (ps @ qs, seen'))"

definition catalogue_problems :: "catalogue \<Rightarrow> problem list" where
  "catalogue_problems c =
     (let (ps, seen) = mutant_problems {} (MUTANTS c) in ps @ map UnknownId [i \<leftarrow> EQUIVALENT c. i \<notin> seen])"

section \<open>Edits\<close>

text \<open>Edit \<open>n\<close> and the ones behind it. An edit that is not a pair cannot be unpacked.\<close>

fun apply_from :: "nat \<Rightarrow> codepoints \<Rightarrow> edit list \<Rightarrow> edit_error + codepoints" where
  "apply_from n text [] = Inr text"
| "apply_from n text (e # es) =
     (case e of
        [orig, repl] \<Rightarrow>
          (let c = count_sub text orig in
           if c \<noteq> 1 then Inl (EditError n c orig) else apply_from (Suc n) (replace1 text orig repl) es)
      | _ \<Rightarrow> Inl ValueError)"

definition apply_edits :: "codepoints \<Rightarrow> edit list \<Rightarrow> edit_error + codepoints" where
  "apply_edits text edits = apply_from 1 text edits"

text \<open>
  The files of a tree: an error message or the bytes. \<open>validate\<close> raises (\<open>None\<close>) on a missing key, on bytes
  that are not UTF-8 and on an edit that is not a pair.
\<close>

fun validate :: "(string \<Rightarrow> string + bytes) \<Rightarrow> string \<Rightarrow> mutant list \<Rightarrow> problem list option" where
  "validate rd tree [] = Some []"
| "validate rd tree (m # ms) =
     (case (m_id m, m_file m, m_edits m) of
        (Some i, Some file, Some es) \<Rightarrow>
          (case rd (path_join tree file) of
             Inl strerror \<Rightarrow> map_option ((#) (Unreadable i file strerror)) (validate rd tree ms)
           | Inr bs \<Rightarrow>
               (case utf8_decode bs of
                  None \<Rightarrow> None
                | Some text \<Rightarrow>
                    (case apply_edits text es of
                       Inl ValueError \<Rightarrow> None
                     | Inl e \<Rightarrow> map_option ((#) (NotApplicable i file e)) (validate rd tree ms)
                     | Inr text' \<Rightarrow>
                         map_option ((@) (if text' = text then [Unchanged i file] else [])) (validate rd tree ms))))
      | _ \<Rightarrow> None)"

section \<open>A clean catalogue\<close>

definition complete :: "mutant \<Rightarrow> bool" where
  "complete m \<longleftrightarrow> m_id m \<noteq> None \<and> m_file m \<noteq> None \<and> m_desc m \<noteq> None \<and> edits_of m \<noteq> []
     \<and> list_all (\<lambda>e. \<exists>orig repl. e = [orig, repl] \<and> orig \<noteq> [] \<and> orig \<noteq> repl) (edits_of m)"

lemma bad_edit_iff: "\<not> bad_edit e \<longleftrightarrow> (\<exists>orig repl. e = [orig, repl] \<and> orig \<noteq> [] \<and> orig \<noteq> repl)"
  by (auto simp: bad_edit_def length_Suc_conv numeral_2_eq_2)

lemma bad_edits_nil: "bad_edits i n es = [] \<longleftrightarrow> list_all (\<lambda>e. \<not> bad_edit e) es"
  by (induction i n es rule: bad_edits.induct) auto

lemma missing_keys_nil: "missing_keys m = [] \<longleftrightarrow> m_id m \<noteq> None \<and> m_file m \<noteq> None \<and> m_desc m \<noteq> None \<and> m_edits m \<noteq> None"
  by (simp add: missing_keys_def)

lemma mutant_problems_nil:
  "fst (mutant_problems seen ms) = [] \<longleftrightarrow> list_all complete ms \<and> distinct (map mid ms) \<and> set (map mid ms) \<inter> seen = {}"
proof (induction seen ms rule: mutant_problems.induct)
  case (2 seen m ms)
  have "missing_keys m = [] \<and> edits_of m \<noteq> [] \<and> bad_edits (mid m) 1 (edits_of m) = [] \<longleftrightarrow> complete m"
    by (auto simp: missing_keys_nil bad_edits_nil bad_edit_iff complete_def edits_of_def split: option.splits)
  with 2 show ?case by (auto simp: Let_def split: prod.splits if_splits)
qed simp

lemma mutant_problems_seen: "snd (mutant_problems seen ms) = seen \<union> set (map mid ms)"
  by (induction seen ms rule: mutant_problems.induct) (auto simp: Let_def split: prod.splits)

lemma catalogue_clean:
  "catalogue_problems c = [] \<longleftrightarrow>
     list_all complete (MUTANTS c) \<and> distinct (map mid (MUTANTS c)) \<and> set (EQUIVALENT c) \<subseteq> set (map mid (MUTANTS c))"
  using mutant_problems_nil [of "{}" "MUTANTS c"] mutant_problems_seen [of "{}" "MUTANTS c"]
  by (auto simp: catalogue_problems_def filter_empty_conv split: prod.splits)

text \<open>\<open>catalogue_problems\<close> accepts exactly the well-formed catalogues: every mutant has an id, a file, a
  description and at least one edit, every edit is a pair of a non-empty anchor and a different replacement,
  no id occurs twice, and the equivalent mutants are listed ones.\<close>

theorem catalogue_problems_nil_iff:
  "catalogue_problems c = [] \<longleftrightarrow>
     list_all complete (MUTANTS c) \<and> distinct (map mid (MUTANTS c)) \<and> set (EQUIVALENT c) \<subseteq> set (map mid (MUTANTS c))"
  by (rule catalogue_clean)

section \<open>What edits do\<close>

text \<open>
  The specification: \<open>edited t es t'\<close>, when each edit in turn replaces the first occurrence of its anchor
  and no occurrence is left behind it.
\<close>

definition occurs :: "'a list \<Rightarrow> 'a list \<Rightarrow> bool" where
  "occurs p s \<longleftrightarrow> (\<exists>u v. s = u @ p @ v)"

inductive edited :: "codepoints \<Rightarrow> edit list \<Rightarrow> codepoints \<Rightarrow> bool" where
  none: "edited t [] t"
| one: "edited t ([orig, repl] # es) t'"
    if "t = u @ orig @ v" "\<And>w z. t = w @ orig @ z \<Longrightarrow> length u \<le> length w" "\<not> occurs orig v" "edited (u @ repl @ v) es t'"

inductive_cases edited_NilE: "edited t [] t'"
inductive_cases edited_ConsE: "edited t (e # es) t'"

lemma find_sub_least: "find_sub s p = Some i \<Longrightarrow> s = w @ p @ z \<Longrightarrow> i \<le> length w"
proof (induction s arbitrary: i w)
  case (Cons c s)
  show ?case
  proof (cases "startswith (c # s) p")
    case True
    then show ?thesis using Cons.prems(1) by (simp add: find_sub_Cons)
  next
    case False
    then obtain j where j: "find_sub s p = Some j" "i = Suc j" using Cons.prems(1) by (auto simp: find_sub_Cons)
    have "w \<noteq> []" using False Cons.prems(2) by (auto simp: startswith_iff)
    then obtain w' where w': "w = c # w'" using Cons.prems(2) by (cases w) auto
    then have "s = w' @ p @ z" using Cons.prems(2) by simp
    from Cons.IH [OF j(1) this] w' j(2) show ?thesis by simp
  qed
qed (auto simp: find_sub_Nil split: if_splits)

lemma count_one:
  assumes "p \<noteq> []" "find_sub s p = Some i"
  shows "count_sub s p = 1 \<longleftrightarrow> \<not> occurs p (drop (i + length p) s)"
  using count_sub_0 [OF assms(1), of "drop (i + length p) s"] assms
  by (simp add: count_sub_def count_from.simps [of s p] occurs_def)

lemma count_none: "p \<noteq> [] \<Longrightarrow> find_sub s p = None \<Longrightarrow> count_sub s p \<noteq> 1"
  by (simp add: count_sub_def count_from.simps [of s p])

lemma find_sub_split:
  assumes "t = u @ p @ v" "\<And>w z. t = w @ p @ z \<Longrightarrow> length u \<le> length w"
  shows "find_sub t p = Some (length u)"
proof -
  obtain i where i: "find_sub t p = Some i" using find_sub_append assms(1) by blast
  then have "i \<le> length u" using find_sub_least assms(1) by blast
  moreover have "length u \<le> i" using assms(2) [OF find_sub_Some [OF i]] find_sub_bound [OF i] by simp
  ultimately show ?thesis using i by simp
qed

lemma edit_step:
  assumes "orig \<noteq> []"
  shows "edited t ([orig, repl] # es) t' \<longleftrightarrow> count_sub t orig = 1 \<and> edited (replace1 t orig repl) es t'"
proof
  assume "edited t ([orig, repl] # es) t'"
  then obtain u v where e: "t = u @ orig @ v" "\<And>w z. t = w @ orig @ z \<Longrightarrow> length u \<le> length w" "\<not> occurs orig v"
      "edited (u @ repl @ v) es t'"
    by (auto elim: edited_ConsE)
  have f: "find_sub t orig = Some (length u)" using find_sub_split [OF e(1,2)] .
  then show "count_sub t orig = 1 \<and> edited (replace1 t orig repl) es t'"
    using count_one [OF assms f] e(1,3,4) by (simp add: replace1_def)
next
  assume c: "count_sub t orig = 1 \<and> edited (replace1 t orig repl) es t'"
  then obtain i where f: "find_sub t orig = Some i" using count_none [OF assms] by (cases "find_sub t orig") auto
  show "edited t ([orig, repl] # es) t'"
  proof (rule edited.one)
    show "t = take i t @ orig @ drop (i + length orig) t" by (rule find_sub_Some [OF f])
    show "length (take i t) \<le> length w" if "t = w @ orig @ z" for w z using find_sub_least [OF f that] by simp
    show "\<not> occurs orig (drop (i + length orig) t)" using c count_one [OF assms f] by simp
    show "edited (take i t @ repl @ drop (i + length orig) t) es t'" using c f by (simp add: replace1_def)
  qed
qed

lemma apply_from_edited:
  "list_all (\<lambda>e. \<not> bad_edit e) es \<Longrightarrow> apply_from n t es = Inr t' \<longleftrightarrow> edited t es t'"
proof (induction n t es rule: apply_from.induct)
  case (1 n t)
  then show ?case by (auto elim: edited_NilE intro: edited.none)
next
  case (2 n t e es)
  then obtain orig repl where "e = [orig, repl]" "orig \<noteq> []" by (auto simp: bad_edit_iff)
  with 2 show ?case by (simp add: edit_step Let_def)
qed

text \<open>C9. On the edits of a well-formed catalogue, \<open>apply_edits\<close> returns a text exactly when every edit in turn
  replaces the first occurrence of its anchor with no occurrence behind it, and it returns that text.\<close>

theorem apply_edits_spec:
  assumes "list_all (\<lambda>e. \<not> bad_edit e) es"
  shows "apply_edits t es = Inr t' \<longleftrightarrow> edited t es t'"
  unfolding apply_edits_def by (rule apply_from_edited [OF assms])

definition sample_text :: codepoints where
  "sample_text = map of_char ''if (rd == 0) return;''"

definition sample_edit :: edit where
  "sample_edit = [map of_char ''rd == 0'', map of_char ''rd == 1'']"

lemma sample_edit_ok: "\<not> bad_edit sample_edit"
  by (simp add: bad_edit_def sample_edit_def)

theorem apply_edits_spec_witness:
  "apply_edits sample_text [sample_edit] = Inr (map of_char ''if (rd == 1) return;'')
   \<and> edited sample_text [sample_edit] (map of_char ''if (rd == 1) return;'')"
proof -
  have "apply_edits sample_text [sample_edit] = Inr (map of_char ''if (rd == 1) return;'')" by code_simp
  then show ?thesis using apply_edits_spec [of "[sample_edit]" sample_text] sample_edit_ok by simp
qed

text \<open>The documentation asks that each anchor occur exactly once; the code counts occurrences that do not
  overlap. An anchor that occurs twice, overlapping itself, is accepted, and its first occurrence is replaced.\<close>

theorem apply_edits_overlapping:
  "\<exists>t orig repl u v u' v'. t = u @ orig @ v \<and> t = u' @ orig @ v' \<and> u \<noteq> u' \<and> apply_edits t [[orig, repl]] = Inr (u @ repl @ v)"
proof -
  have "apply_edits [1, 1, 1] [[[1, 1], [2]]] = Inr ([] @ [2] @ [1])" by code_simp
  moreover have "[1, 1, 1::nat] = [] @ [1, 1] @ [1]" "[1, 1, 1::nat] = [1] @ [1, 1] @ []" by simp_all
  ultimately show ?thesis by (metis not_Cons_self2)
qed

section \<open>What validation guarantees\<close>

text \<open>A mutant that applies to a tree: its file decodes, and its edits change the text.\<close>

definition applies :: "(string \<Rightarrow> string + bytes) \<Rightarrow> string \<Rightarrow> mutant \<Rightarrow> bool" where
  "applies rd tree m \<longleftrightarrow>
     (\<exists>i file es bs t t'. m_id m = Some i \<and> m_file m = Some file \<and> m_edits m = Some es \<and> rd (path_join tree file) = Inr bs
        \<and> utf8_decode bs = Some t \<and> apply_edits t es = Inr t' \<and> t' \<noteq> t)"

lemma validate_applies: "validate rd tree ms = Some [] \<longleftrightarrow> list_all (applies rd tree) ms"
proof (induction ms)
  case (Cons m ms)
  then show ?case
    by (auto simp: applies_def split: option.splits sum.splits edit_error.splits)
qed simp

lemma edited_single: "edited t [[orig, repl]] t' \<Longrightarrow> orig \<noteq> repl \<Longrightarrow> t' \<noteq> t"
  by (auto elim!: edited_ConsE edited_NilE)


text \<open>In a well-formed catalogue a mutant with a single edit never leaves its file unchanged: whenever the
  edit applies, the text is different.\<close>

theorem single_edit_changes:
  assumes "catalogue_problems c = []" and "m \<in> set (MUTANTS c)" and "m_edits m = Some [e]"
    and "apply_edits t [e] = Inr t'"
  shows "t' \<noteq> t"
proof -
  have "list_all complete (MUTANTS c)"
    using assms(1) mutant_problems_nil [of "{}" "MUTANTS c"] by (auto simp: catalogue_problems_def split: prod.splits)
  with assms(2) have "complete m" by (auto simp: list_all_iff)
  with assms(3) obtain orig repl where e: "e = [orig, repl]" "orig \<noteq> []" "orig \<noteq> repl" by (auto simp: complete_def edits_of_def)
  moreover from e have "\<not> bad_edit e" by (simp add: bad_edit_iff)
  then have "edited t [e] t'" using assms(4) apply_from_edited [of "[e]" 1] by (simp add: apply_edits_def)
  ultimately show ?thesis using edited_single by simp
qed

definition sample_mutant :: mutant where
  "sample_mutant = \<lparr>m_id = Some ''C1'', m_file = Some ''a.zig'', m_desc = Some ''off by one'', m_edits = Some [sample_edit]\<rparr>"

definition sample_catalogue :: catalogue where
  "sample_catalogue = \<lparr>MUTANTS = [sample_mutant], EQUIVALENT = []\<rparr>"

theorem single_edit_changes_witness:
  "\<exists>t'. apply_edits sample_text [sample_edit] = Inr t' \<and> t' \<noteq> sample_text"
proof -
  have "apply_edits sample_text [sample_edit] = Inr (map of_char ''if (rd == 1) return;'')" by code_simp
  moreover have "catalogue_problems sample_catalogue = []"
    by (simp add: catalogue_problems_def sample_catalogue_def sample_mutant_def missing_keys_def edits_of_def sample_edit_ok mid_def)
  moreover have "sample_mutant \<in> set (MUTANTS sample_catalogue)" "m_edits sample_mutant = Some [sample_edit]"
    by (simp_all add: sample_catalogue_def sample_mutant_def)
  ultimately show ?thesis using single_edit_changes [of sample_catalogue sample_mutant sample_edit sample_text] by blast
qed

end
