(* ===== verification/Analysis.thy ===== *)
theory Analysis
  imports PyBytes Template
begin

text \<open>
  \<^verbatim>\<open>tools/mutation/mutate.py\<close>, reading the output of \<open>zig build\<close>: the patterns (each matches inside
  one line), the summary tree (\<open>parse_tree\<close>, \<open>step_state\<close>), the result of one build (\<open>analyse\<close>) and of
  a mutant (\<open>overall_status\<close>).
\<close>

section \<open>Patterns\<close>

text \<open>The pieces between newlines: what \<open>^\<close> and \<open>$\<close> delimit under \<open>re.M\<close>.\<close>

definition text_lines :: "string \<Rightarrow> string list" where
  "text_lines s = split_char (CHR 0x0A) s"

fun first_some :: "('a \<Rightarrow> 'b option) \<Rightarrow> 'a list \<Rightarrow> 'b option" where
  "first_some f [] = None"
| "first_some f (x # xs) = (case f x of None \<Rightarrow> first_some f xs | Some y \<Rightarrow> Some y)"

fun matches :: "('a \<Rightarrow> 'b option) \<Rightarrow> 'a list \<Rightarrow> 'b list" where
  "matches f [] = []"
| "matches f (x # xs) = (case f x of None \<Rightarrow> matches f xs | Some y \<Rightarrow> y # matches f xs)"

text \<open>A number and what must follow it.\<close>

definition number_then :: "string \<Rightarrow> string \<Rightarrow> (string \<times> string) option" where
  "number_then sep s =
     (let d = takeWhile is_digit s; r = dropWhile is_digit s in
      if d \<noteq> [] \<and> startswith r sep then Some (d, drop (length sep) r) else None)"

text \<open>\<open>^(\S+?\.zig):(\d+):(\d+): error: (.*)$\<close>: the shortest file name that fits.\<close>

definition compile_error :: "string \<Rightarrow> (string \<times> string \<times> string) option" where
  "compile_error line =
     first_some (\<lambda>k.
       let f = take k line; r = drop k line in
       if endswith f ''.zig'' \<and> list_all (\<lambda>c. \<not> is_space c) f \<and> startswith r '':'' then
         (case number_then '':'' (drop 1 r) of
            None \<Rightarrow> None
          | Some (ln, r1) \<Rightarrow> map_option (\<lambda>(_, msg). (f, ln, msg)) (number_then '': error: '' r1))
       else None) [5..<Suc (length line)]"

definition FAIL_KINDS :: "string list" where
  "FAIL_KINDS = [''failed'', ''terminated'', ''exited'', ''stopped'', ''timed out'', ''leaked'', ''logged'']"

text \<open>\<open>^error: '(.+)' (failed|...)\<close>: the longest name that fits.\<close>

definition failed_test :: "string \<Rightarrow> (string \<times> string) option" where
  "failed_test line =
     (if startswith line (''error: '' @ [CHR 0x27]) then
        (let r = drop 8 line in
         first_some (\<lambda>j.
           if startswith (drop j r) [CHR 0x27, CHR '' '']
           then first_some (\<lambda>k. if startswith (drop (j + 2) r) k then Some (take j r, k) else None) FAIL_KINDS
           else None) (rev [1..<Suc (length r)]))
      else None)"

definition digest_cmd :: "string \<Rightarrow> string option" where
  "digest_cmd line =
     (if startswith line ''failed command: '' \<and> find_sub (drop 16 line) ''corpus-digests'' \<noteq> None
      then Some (drop 16 line) else None)"

definition digest_diff :: "string \<Rightarrow> string option" where
  "digest_diff line =
     (if startswith line ''+ '' then
        (let w = takeWhile (\<lambda>c. \<not> is_space c) (drop 2 line) in
         if endswith w ''.bin'' \<and> 4 < length w \<and> startswith (drop (2 + length w) line) '' '' then Some w else None)
      else None)"

definition native_diff :: "string \<Rightarrow> string option" where
  "native_diff line =
     (let w = takeWhile (\<lambda>c. \<not> is_space c) line in
      first_some (\<lambda>k. if endswith (take k line) ''.bin'' \<and> startswith (drop k line) '': result differs from the native run''
                       then Some (take k line) else None) (rev [5..<Suc (length w)]))"

definition FAIL_WORDS :: "string list" where
  "FAIL_WORDS = [''fail'', ''failure'', ''crash'', ''timeout'', ''timed out'', ''error'', ''errors'', ''leak'', ''leaks'']"

definition PASS_WORDS :: "string list" where
  "PASS_WORDS = [''pass'', ''success'', ''cached'']"

section \<open>The summary tree\<close>

definition suite_of_test :: "string \<Rightarrow> string" where
  "suite_of_test name =
     (if startswith name ''compliance.'' then ''compliance'' else if startswith name ''main.'' then ''cli'' else ''unit'')"

definition step_state :: "string \<Rightarrow> string" where
  "step_state text =
     (if search_words FAIL_WORDS text then ''FAIL''
      else if search_words PASS_WORDS text then ''pass''
      else if find_sub text ''skipped'' \<noteq> None then ''skipped'' else ''?'')"

definition rfind :: "string \<Rightarrow> string \<Rightarrow> nat option" where
  "rfind s p = map_option (\<lambda>i. length s - (i + length p)) (find_sub (rev s) (rev p))"

definition digest_run :: "string \<Rightarrow> string list" where
  "digest_run line =
     (let r = drop 1 line in
      if startswith r ''  +- run exe corpus-digests'' then [drop 5 r] else [])"

fun tree_lines :: "string list \<Rightarrow> string list \<times> string list" where
  "tree_lines [] = ([], [])"
| "tree_lines (line # ls) =
     (let (cs, ds) = tree_lines ls in
      if startswith line ''+- '' then (strip (drop 3 line) # cs, ds)
      else if startswith line ''|'' \<or> startswith line '' '' then (cs, digest_run line @ ds)
      else ([], []))"

definition parse_tree :: "string \<Rightarrow> (string list \<times> string list) option" where
  "parse_tree out =
     (case rfind out ''Build Summary:'' of
        None \<Rightarrow> None
      | Some i \<Rightarrow> Some (tree_lines (drop 2 (splitlines (drop i out)))))"

fun uniq :: "'a set \<Rightarrow> 'a list \<Rightarrow> 'a list" where
  "uniq seen [] = []"
| "uniq seen (x # xs) = (if x \<in> seen then uniq seen xs else x # uniq (insert x seen) xs)"

definition first_unique :: "'a list \<Rightarrow> nat \<Rightarrow> 'a list" where
  "first_unique items n = take n (uniq {} items)"

section \<open>One build\<close>

datatype build_step = Test | TestAll

datatype status = SURVIVED | KILLED | COMPILE_ERROR | TIMEOUT | ERROR

fun step_name :: "build_step \<Rightarrow> string" where
  "step_name Test = ''test''" | "step_name TestAll = ''test-all''"

fun RUN_TESTS :: "build_step \<Rightarrow> string list" where
  "RUN_TESTS Test = [''unit'', ''cli'']" | "RUN_TESTS TestAll = [''unit'', ''cli'', ''compliance'']"

definition DIGEST_RUNS :: "string list" where
  "DIGEST_RUNS = [''digests'', ''digests_nocache'', ''digests_runtime'']"

definition SUITES :: "string list" where
  "SUITES = [''unit'', ''cli'', ''compliance'', ''digests'', ''digests_nocache'', ''digests_runtime'']"

datatype warning =
    RunTestSteps nat nat | FailedCommand string "string option" | FailingTest string string "string option"

record analysis =
  a_status :: status
  a_rc :: int
  a_secs :: nat
  suites :: "(string \<times> string) list"
  failed_tests :: "string list"
  failed_test_count :: nat
  compile_errors :: "string list"
  warnings :: "warning list"
  failure_kinds :: "(string \<times> nat) list"
  digest_programs :: "string list"
  digest_programs_count :: nat
  tail_kept :: bool

fun count_kinds :: "string list \<Rightarrow> (string \<times> nat) list \<Rightarrow> (string \<times> nat) list" where
  "count_kinds [] d = d"
| "count_kinds (k # ks) d = count_kinds ks (dict_set k (Suc (case map_of d k of None \<Rightarrow> 0 | Some n \<Rightarrow> n)) d)"

fun set_states :: "(string \<times> string) list \<Rightarrow> (string \<times> string) list \<Rightarrow> (string \<times> string) list" where
  "set_states [] d = d"
| "set_states ((name, text) # r) d = set_states r (dict_set name (step_state text) d)"

definition digest_name :: "string \<Rightarrow> string" where
  "digest_name cmd =
     (if find_sub cmd ''--no-decode-cache'' \<noteq> None then ''digests_nocache''
      else if find_sub cmd ''--runtime-memory'' \<noteq> None then ''digests_runtime'' else ''digests'')"

fun check_cmds :: "string list \<Rightarrow> (string \<times> string) list \<Rightarrow> (string \<times> string) list \<times> warning list" where
  "check_cmds [] d = (d, [])"
| "check_cmds (cmd # cmds) d =
     (let name = digest_name cmd in
      if map_of d name \<noteq> Some ''FAIL'' then
        (let (d', ws) = check_cmds cmds (dict_set name ''FAIL'' d) in (d', FailedCommand name (map_of d name) # ws))
      else check_cmds cmds d)"

definition tree_suites :: "build_step \<Rightarrow> string \<Rightarrow> (string \<times> string) list \<times> warning list" where
  "tree_suites step out =
     (case parse_tree out of
        None \<Rightarrow> ([], [])
      | Some (children, digest_runs) \<Rightarrow>
          (let run_tests = filter (\<lambda>c. startswith c ''run test'') children;
               expected = RUN_TESTS step;
               ws = (if length run_tests \<noteq> length expected then [RunTestSteps (length run_tests) (length expected)] else []);
               d = set_states (zip expected run_tests) []
           in case step of
                Test \<Rightarrow> (d, ws)
              | TestAll \<Rightarrow>
                  (let (d', ws') = check_cmds (matches digest_cmd (text_lines out)) (set_states (zip DIGEST_RUNS digest_runs) d)
                   in (d', ws @ ws'))))"

definition all_programs :: "build_step \<Rightarrow> string \<Rightarrow> string list" where
  "all_programs step out =
     (if parse_tree out = None \<or> step = Test then []
      else let ps = matches digest_diff (text_lines out) @ matches native_diff (text_lines out) in first_unique ps (length ps))"

definition analyse :: "build_step \<Rightarrow> int \<Rightarrow> string \<Rightarrow> bool \<Rightarrow> nat \<Rightarrow> analysis" where
  "analyse step rc out timed_out secs =
     (let errs = first_unique (map (\<lambda>(f, ln, msg). f @ '':'' @ ln @ '': '' @ msg) (matches compile_error (text_lines out))) 3;
          failed = matches failed_test (text_lines out);
          names = first_unique (map fst failed) (length failed);
          (d, ws) = tree_suites step out;
          ws' = ws @ concat (map (\<lambda>name. let s = suite_of_test name in
                   if map_of d s \<noteq> Some ''FAIL'' then [FailingTest name s (map_of d s)] else []) names);
          st = (if timed_out then TIMEOUT else if errs \<noteq> [] then COMPILE_ERROR else if rc = 0 then SURVIVED
                else if list_ex (\<lambda>(_, v). v = ''FAIL'') d \<or> names \<noteq> [] then KILLED else ERROR);
          ps = all_programs step out
      in \<lparr>a_status = st, a_rc = rc, a_secs = secs, suites = d, failed_tests = take 25 names, failed_test_count = length names,
          compile_errors = errs, warnings = ws', failure_kinds = count_kinds (map snd failed) [],
          digest_programs = take 10 ps, digest_programs_count = length ps,
          tail_kept = (st = ERROR \<or> st = TIMEOUT \<or> ws' \<noteq> [])\<rparr>)"

definition overall_status :: "status \<Rightarrow> status \<Rightarrow> status" where
  "overall_status test test_all =
     (if test = COMPILE_ERROR \<or> test_all = COMPILE_ERROR then COMPILE_ERROR
      else if test_all = TIMEOUT \<and> test = KILLED then KILLED
      else if test_all = SURVIVED \<and> test \<noteq> SURVIVED then ERROR
      else test_all)"

definition failed_suites :: "analysis \<Rightarrow> string list" where
  "failed_suites test_all = [s \<leftarrow> SUITES. map_of (suites test_all) s = Some ''FAIL'']"

section \<open>Dicts\<close>

text \<open>A dict of suite states: keys once each, all suites.\<close>

definition suite_dict :: "(string \<times> string) list \<Rightarrow> bool" where
  "suite_dict d \<longleftrightarrow> distinct (map fst d) \<and> fst ` set d \<subseteq> set SUITES"

lemma suite_dict_set: "suite_dict d \<Longrightarrow> k \<in> set SUITES \<Longrightarrow> suite_dict (dict_set k v d)"
  by (simp add: suite_dict_def distinct_dict_set keys_dict_set)

lemma suite_dict_states: "suite_dict d \<Longrightarrow> set (map fst r) \<subseteq> set SUITES \<Longrightarrow> suite_dict (set_states r d)"
  by (induction r d rule: set_states.induct) (simp_all add: suite_dict_set)

lemma digest_name_suite: "digest_name cmd \<in> set SUITES"
  by (simp add: digest_name_def SUITES_def)

lemma suite_dict_cmds: "suite_dict d \<Longrightarrow> suite_dict (fst (check_cmds cmds d))"
  by (induction cmds d rule: check_cmds.induct) (simp_all add: Let_def suite_dict_set digest_name_suite case_prod_unfold)

lemma zip_keys: "set (map fst (zip xs ys)) \<subseteq> set xs"
  by (auto dest: set_zip_leftD)

lemma suite_dict_tree: "suite_dict (fst (tree_suites step out))"
proof -
  have n: "suite_dict []" by (simp add: suite_dict_def)
  have r: "set (RUN_TESTS step) \<subseteq> set SUITES" "set DIGEST_RUNS \<subseteq> set SUITES"
    by (cases step) (simp_all add: SUITES_def DIGEST_RUNS_def)
  have s: "suite_dict (set_states (zip (RUN_TESTS step) xs) [])" for xs
    using zip_keys [of "RUN_TESTS step" xs] r by (intro suite_dict_states n) blast
  have d: "suite_dict (set_states (zip DIGEST_RUNS ys) (set_states (zip (RUN_TESTS step) xs) []))" for xs ys
    using zip_keys [of DIGEST_RUNS ys] r by (intro suite_dict_states s) blast
  show ?thesis
    using n s suite_dict_cmds [OF d] by (cases step) (simp_all add: tree_suites_def Let_def case_prod_unfold split: option.split)
qed

lemma suite_dict_fail: "suite_dict d \<Longrightarrow> list_ex (\<lambda>(_, v). v = x) d \<Longrightarrow> \<exists>s \<in> set SUITES. map_of d s = Some x"
  by (fastforce simp: suite_dict_def list_ex_iff)

section \<open>What the results mean\<close>

lemma analyse_simps:
  "suites (analyse step rc out t s) = fst (tree_suites step out)"
  "a_rc (analyse step rc out t s) = rc"
  "a_status (analyse step rc out t s) = (if t then TIMEOUT else if compile_errors (analyse step rc out t s) \<noteq> [] then COMPILE_ERROR
     else if rc = 0 then SURVIVED
     else if list_ex (\<lambda>(_, v). v = ''FAIL'') (fst (tree_suites step out)) \<or> failed_test_count (analyse step rc out t s) \<noteq> 0 then KILLED
     else ERROR)"
  by (simp_all add: analyse_def Let_def split: prod.split)

lemma killed_evidence:
  assumes "a_status (analyse step rc out t s) = KILLED"
  shows "\<not> t \<and> rc \<noteq> 0 \<and> compile_errors (analyse step rc out t s) = []
     \<and> (failed_suites (analyse step rc out t s) \<noteq> [] \<or> failed_test_count (analyse step rc out t s) \<noteq> 0)"
proof -
  from assms have "\<not> t \<and> rc \<noteq> 0 \<and> compile_errors (analyse step rc out t s) = []
     \<and> (list_ex (\<lambda>(_, v). v = ''FAIL'') (fst (tree_suites step out)) \<or> failed_test_count (analyse step rc out t s) \<noteq> 0)"
    by (simp add: analyse_simps(3) split: if_splits)
  moreover have "list_ex (\<lambda>(_, v). v = ''FAIL'') (fst (tree_suites step out)) \<Longrightarrow> failed_suites (analyse step rc out t s) \<noteq> []"
    using suite_dict_fail [OF suite_dict_tree] by (auto simp: failed_suites_def analyse_simps filter_empty_conv)
  ultimately show ?thesis by blast
qed

text \<open>C11. A mutant is recorded as killed only on evidence: one of its two builds ended with a non-zero status in
  time and without a compile error, and that build's output names a suite marked FAIL or a failing test.\<close>

theorem killed_has_evidence:
  assumes "overall_status (a_status (analyse Test rc1 out1 t1 s1)) (a_status (analyse TestAll rc2 out2 t2 s2)) = KILLED"
  shows "\<exists>a rc t. (a = analyse Test rc1 out1 t1 s1 \<and> rc = rc1 \<and> t = t1 \<or> a = analyse TestAll rc2 out2 t2 s2 \<and> rc = rc2 \<and> t = t2)
     \<and> \<not> t \<and> rc \<noteq> 0 \<and> compile_errors a = [] \<and> (failed_suites a \<noteq> [] \<or> failed_test_count a \<noteq> 0)"
proof -
  from assms have "a_status (analyse Test rc1 out1 t1 s1) = KILLED \<or> a_status (analyse TestAll rc2 out2 t2 s2) = KILLED"
    by (auto simp: overall_status_def split: if_splits)
  then show ?thesis using killed_evidence by metis
qed

text \<open>A mutant survives exactly when both builds succeeded: in time, without a compile error in the
  output, with status 0.\<close>

theorem survived_iff:
  "overall_status (a_status (analyse Test rc1 out1 t1 s1)) (a_status (analyse TestAll rc2 out2 t2 s2)) = SURVIVED \<longleftrightarrow>
     \<not> t1 \<and> \<not> t2 \<and> rc1 = 0 \<and> rc2 = 0
     \<and> matches compile_error (text_lines out1) = [] \<and> matches compile_error (text_lines out2) = []"
proof -
  have u: "uniq {} xs = [] \<longleftrightarrow> xs = []" for xs :: "string list" by (cases xs) simp_all
  have e: "compile_errors (analyse step rc out t s) = [] \<longleftrightarrow> matches compile_error (text_lines out) = []" for step rc out t s
    by (simp add: analyse_def Let_def first_unique_def u split: prod.split)
  have "a_status (analyse step rc out t s) = SURVIVED \<longleftrightarrow> \<not> t \<and> rc = 0 \<and> matches compile_error (text_lines out) = []" for step rc out t s
    by (simp add: analyse_simps(3) e)
  moreover have "overall_status a b = SURVIVED \<longleftrightarrow> a = SURVIVED \<and> b = SURVIVED" for a b
    by (auto simp: overall_status_def)
  ultimately show ?thesis by auto
qed

lemma uniq_props: "set (uniq seen xs) = set xs - seen" "distinct (uniq seen xs)"
  by (induction seen xs rule: uniq.induct) auto

lemma check_cmds_fail:
  "cmd \<in> set cmds \<or> map_of d (digest_name cmd) = Some ''FAIL'' \<Longrightarrow> map_of (fst (check_cmds cmds d)) (digest_name cmd) = Some ''FAIL''"
  by (induction cmds d rule: check_cmds.induct) (auto simp: Let_def split: prod.split)

text \<open>C38. An analysis without warnings is consistent: for every failing test the output names, the suite the
  name belongs to is among the failed suites.\<close>

theorem analyse_consistent:
  assumes "warnings (analyse step rc out t s) = []" and "matches failed_test (text_lines out) = failed"
    and "(name, kind) \<in> set failed"
  shows "suite_of_test name \<in> set (failed_suites (analyse step rc out t s))"
proof -
  let ?d = "fst (tree_suites step out)"
  have "name \<in> set (first_unique (map fst failed) (length failed))"
  proof -
    have "length (uniq {} (map fst failed)) \<le> length failed"
      using card_length [of "map fst failed"] uniq_props [of "{}" "map fst failed"] by (metis Diff_empty distinct_card length_map)
    moreover have "name \<in> set (uniq {} (map fst failed))" using assms(3) by (force simp: uniq_props)
    ultimately show ?thesis by (simp add: first_unique_def)
  qed
  moreover have "list_all (\<lambda>n. map_of ?d (suite_of_test n) = Some ''FAIL'') (first_unique (map fst failed) (length failed))"
    using assms(1,2) by (auto simp: analyse_def Let_def case_prod_unfold list_all_iff split: if_splits)
  ultimately have "map_of ?d (suite_of_test name) = Some ''FAIL''" by (simp add: list_all_iff)
  moreover have "suite_of_test name \<in> set SUITES" by (simp add: suite_of_test_def SUITES_def)
  ultimately show ?thesis by (simp add: failed_suites_def analyse_simps)
qed

text \<open>A failed corpus command always shows in the result of \<open>test-all\<close>: its suite is among the failed ones,
  whatever the summary tree says about its step.\<close>

theorem failed_command_counts:
  assumes "parse_tree out \<noteq> None" and "cmd \<in> set (matches digest_cmd (text_lines out))"
  shows "digest_name cmd \<in> set (failed_suites (analyse TestAll rc out t s))"
proof -
  obtain cs ds where p: "parse_tree out = Some (cs, ds)" using assms(1) by auto
  have "map_of (fst (tree_suites TestAll out)) (digest_name cmd) = Some ''FAIL''"
    using assms(2) check_cmds_fail [of cmd "matches digest_cmd (text_lines out)"] by (simp add: tree_suites_def p Let_def case_prod_unfold)
  then show ?thesis using digest_name_suite by (simp add: failed_suites_def analyse_simps)
qed

definition sample_out :: string where
  "sample_out = join nl [''error: '' @ [CHR 0x27] @ ''main.t'' @ [CHR 0x27] @ '' failed'', ''failed command: corpus-digests --no-decode-cache'',
     ''Build Summary:'', ''test'', ''+- run test pass'', ''+- run test 1 fail'']"

lemma sample_out_facts:
  "overall_status (a_status (analyse Test 1 sample_out False 0)) (a_status (analyse TestAll 1 sample_out False 0)) = KILLED"
  "warnings (analyse Test 1 sample_out False 0) = []"
  "matches failed_test (text_lines sample_out) = [(''main.t'', ''failed'')]"
  "parse_tree sample_out \<noteq> None"
  "matches digest_cmd (text_lines sample_out) = [''corpus-digests --no-decode-cache'']"
  "digest_name ''corpus-digests --no-decode-cache'' = ''digests_nocache''" "suite_of_test ''main.t'' = ''cli''"
  by code_simp+

theorem killed_has_evidence_witness:
  "\<exists>a. (a = analyse Test 1 sample_out False 0 \<or> a = analyse TestAll 1 sample_out False 0)
     \<and> compile_errors a = [] \<and> (failed_suites a \<noteq> [] \<or> failed_test_count a \<noteq> 0)"
  using killed_has_evidence [OF sample_out_facts(1)] by blast

theorem analyse_consistent_witness:
  "''cli'' \<in> set (failed_suites (analyse Test 1 sample_out False 0))"
  using analyse_consistent [OF sample_out_facts(2,3), of "''main.t''" "''failed''"] by (simp add: sample_out_facts(7))

theorem failed_command_counts_witness:
  "''digests_nocache'' \<in> set (failed_suites (analyse TestAll 1 sample_out False 0))"
  using failed_command_counts [OF sample_out_facts(4), of "''corpus-digests --no-decode-cache''"]
  by (simp add: sample_out_facts(5,6))

end
