(* ===== verification/Cache.thy ===== *)
theory Cache
  imports PyText
begin

text \<open>
  The build cache of \<^verbatim>\<open>tools/mutation/mutate.py\<close>: \<open>snapshot_cache\<close> before the mutants and
  \<open>restore_cache\<close> after each, so that the next build starts from the pristine tree's cache.
\<close>

section \<open>The cache and its snapshot\<close>

text \<open>
  The entries of a directory: files, directories, and links with the contents of the file
  they lead to, if any.
\<close>

datatype node = Blob bytes | Tree | Link "bytes option"

type_synonym dir = "(string \<times> node) list"
type_synonym cache = "string \<Rightarrow> dir option"

definition CACHE_SUBDIRS :: "string list" where
  "CACHE_SUBDIRS = [''o'', ''h'', ''z'', ''tmp'']"

fun content :: "node \<Rightarrow> bytes option" where
  "content (Blob bs) = Some bs"
| "content Tree = None"
| "content (Link t) = t"

definition listdir :: "cache \<Rightarrow> string \<Rightarrow> string list" where
  "listdir c d = (case c d of None \<Rightarrow> [] | Some es \<Rightarrow> map fst es)"

fun manifests_of :: "dir \<Rightarrow> (string \<times> bytes) list" where
  "manifests_of [] = []"
| "manifests_of ((name, n) # es) = (case content n of None \<Rightarrow> [] | Some bs \<Rightarrow> [(name, bs)]) @ manifests_of es"

type_synonym snapshot = "(string \<Rightarrow> string list) \<times> (string \<times> bytes) list"

definition snapshot_cache :: "cache \<Rightarrow> snapshot" where
  "snapshot_cache c =
     ((\<lambda>d. if d \<in> set CACHE_SUBDIRS then listdir c d else []),
      (case c ''h'' of None \<Rightarrow> [] | Some es \<Rightarrow> manifests_of es))"

section \<open>Restoring it\<close>

definition prune :: "(string \<Rightarrow> string list) \<Rightarrow> cache \<Rightarrow> cache" where
  "prune entries c =
     (\<lambda>d. if d \<in> set CACHE_SUBDIRS then map_option (filter (\<lambda>(e, _). e \<in> set (entries d))) (c d) else c d)"

text \<open>Writing a file: through a link if there is one, in place or as a new entry; not over a directory.\<close>

fun write_file :: "string \<Rightarrow> bytes \<Rightarrow> dir \<Rightarrow> dir option" where
  "write_file name bs [] = Some [(name, Blob bs)]"
| "write_file name bs ((e, n) # es) =
     (if e = name then
        (case n of Blob _ \<Rightarrow> Some ((e, Blob bs) # es) | Link _ \<Rightarrow> Some ((e, Link (Some bs)) # es) | Tree \<Rightarrow> None)
      else map_option ((#) (e, n)) (write_file name bs es))"

fun restore_manifests :: "(string \<times> bytes) list \<Rightarrow> dir \<Rightarrow> dir option" where
  "restore_manifests [] es = Some es"
| "restore_manifests ((name, data) # ms) es =
     (if map_of es name = Some Tree then None
      else if map_option content (map_of es name) = Some (Some data) then restore_manifests ms es
      else Option.bind (write_file name data es) (restore_manifests ms))"

text \<open>\<open>None\<close> is an uncaught OSError: a manifest's name is a directory now, or the directory \<open>h\<close> is gone.\<close>

definition restore_cache :: "cache \<Rightarrow> snapshot \<Rightarrow> cache option" where
  "restore_cache c s =
     (let (entries, manifests) = s; c1 = prune entries c in
      if manifests = [] then Some c1
      else case c1 ''h'' of
        None \<Rightarrow> None
      | Some es \<Rightarrow> map_option (\<lambda>es'. c1(''h'' := Some es')) (restore_manifests manifests es))"

section \<open>What a restored cache has\<close>

lemma write_file_total:
  "map_of es name \<noteq> Some Tree \<Longrightarrow> \<exists>es'. write_file name bs es = Some es'
     \<and> (\<forall>n. map_option content (map_of es' n) = (if n = name then Some (Some bs) else map_option content (map_of es n)))
     \<and> (\<forall>n. map_of es' n = Some Tree \<longleftrightarrow> map_of es n = Some Tree)
     \<and> fst ` set es' = insert name (fst ` set es)"
proof (induction name bs es rule: write_file.induct)
  case (2 name bs e n es)
  show ?case
  proof (cases "e = name")
    case True
    with 2(2) show ?thesis by (cases n) auto
  next
    case False
    with 2 show ?thesis by fastforce
  qed
qed simp

definition restored :: "(string \<times> bytes) list \<Rightarrow> dir \<Rightarrow> dir \<Rightarrow> bool" where
  "restored ms es es' \<longleftrightarrow>
     (\<forall>n. map_option content (map_of es' n) =
        (case map_of (rev ms) n of Some bs \<Rightarrow> Some (Some bs) | None \<Rightarrow> map_option content (map_of es n)))
     \<and> fst ` set es' = fst ` set ms \<union> fst ` set es"

lemma content_dom: "map_option content (map_of es n) = Some (Some bs) \<Longrightarrow> n \<in> fst ` set es"
  by (metis (no_types) domI dom_map_of_conv_image_fst map_option_eq_Some)

lemma map_of_cases: "map_of (rev (x # xs)) n = (case map_of (rev xs) n of Some v \<Rightarrow> Some v | None \<Rightarrow> if n = fst x then Some (snd x) else None)"
  by (cases x) (auto simp: map_add_def split: option.split)

lemma restored_step:
  assumes "restored ms es1 es'" "\<And>n. map_option content (map_of es1 n) = (if n = name then Some (Some bs) else map_option content (map_of es n))"
    and "fst ` set es1 = insert name (fst ` set es)"
  shows "restored ((name, bs) # ms) es es'"
  using assms unfolding restored_def map_of_cases by (auto split: option.split)

lemma restore_manifests_total:
  "(\<And>n. n \<in> fst ` set ms \<Longrightarrow> map_of es n \<noteq> Some Tree) \<Longrightarrow> \<exists>es'. restore_manifests ms es = Some es' \<and> restored ms es es'"
proof (induction ms arbitrary: es)
  case Nil
  then show ?case by (simp add: restored_def)
next
  case (Cons m ms)
  obtain name data where m: "m = (name, data)" by (cases m)
  then have nt: "map_of es name \<noteq> Some Tree" using Cons.prems by simp
  show ?case
  proof (cases "map_option content (map_of es name) = Some (Some data)")
    case True
    obtain es' where es': "restore_manifests ms es = Some es'" "restored ms es es'"
      using Cons.IH [of es] Cons.prems by auto
    moreover have "restored (m # ms) es es'"
      unfolding m by (rule restored_step [OF es'(2)]) (use True content_dom [OF True] in auto)
    ultimately show ?thesis using True nt by (simp add: m)
  next
    case False
    obtain es1 where w: "write_file name data es = Some es1"
        "\<And>n. map_option content (map_of es1 n) = (if n = name then Some (Some data) else map_option content (map_of es n))"
        "\<And>n. map_of es1 n = Some Tree \<longleftrightarrow> map_of es n = Some Tree" "fst ` set es1 = insert name (fst ` set es)"
      using write_file_total [OF nt, of data] by blast
    obtain es' where es': "restore_manifests ms es1 = Some es'" "restored ms es1 es'"
      using Cons.IH [of es1] Cons.prems w(3) by auto
    moreover have "restored (m # ms) es es'" unfolding m by (rule restored_step [OF es'(2) w(2,4)])
    ultimately show ?thesis using False nt w(1) by (auto simp: m)
  qed
qed

lemma manifests_keys: "fst ` set (manifests_of es) \<subseteq> fst ` set es"
proof (induction es rule: manifests_of.induct)
  case (2 name n es)
  then show ?case by (cases "content n") auto
qed simp

lemma manifests_distinct: "distinct (map fst es) \<Longrightarrow> distinct (map fst (manifests_of es))"
proof (induction es rule: manifests_of.induct)
  case (2 name n es)
  then show ?case using manifests_keys [of es] by (cases "content n") auto
qed simp

lemma manifest_lookup:
  "distinct (map fst es) \<Longrightarrow> (name, bs) \<in> set (manifests_of es) \<Longrightarrow> map_of (rev (manifests_of es)) name = Some bs"
  using manifests_distinct [of es] by (intro map_of_is_SomeI) (simp_all add: rev_map [symmetric])

lemma map_of_filter_key: "map_of (filter (\<lambda>(e, _). P e) es) n = (if P n then map_of es n else None)"
  by (induction es) auto

lemma keys_filter: "fst ` set (filter (\<lambda>(e, _). P e) es) = {e \<in> fst ` set es. P e}"
  by force

lemma h_subdir [simp]: "''h'' \<in> set CACHE_SUBDIRS"
  by (simp add: CACHE_SUBDIRS_def)

text \<open>C10. After a mutant, the cache is back to the snapshot, whatever the build did to it (unless it removed the
  directory \<open>h\<close> or put a directory in a manifest's place, which raises): no subdirectory has an entry that was not there, every manifest
  has its old contents, and the entries outside \<open>h\<close> that were there before the mutant are untouched.\<close>

theorem restore_cache_restores:
  assumes "c0 ''h'' = Some es0" and "distinct (map fst es0)" and "c ''h'' = Some es"
    and "\<And>n. n \<in> fst ` set (manifests_of es0) \<Longrightarrow> map_of es n \<noteq> Some Tree"
  shows "\<exists>c'. restore_cache c (snapshot_cache c0) = Some c'
     \<and> (\<forall>d \<in> set CACHE_SUBDIRS. set (listdir c' d) \<subseteq> set (listdir c0 d))
     \<and> (\<exists>es'. c' ''h'' = Some es' \<and> (\<forall>(name, bs) \<in> set (manifests_of es0). map_option content (map_of es' name) = Some (Some bs)))
     \<and> (\<forall>d. d \<noteq> ''h'' \<longrightarrow> c' d = (if d \<in> set CACHE_SUBDIRS then map_option (filter (\<lambda>(e, _). e \<in> set (listdir c0 d))) (c d) else c d))"
proof -
  let ?ms = "manifests_of es0" and ?es = "filter (\<lambda>(e, _). e \<in> set (map fst es0)) es"
  let ?c1 = "prune (fst (snapshot_cache c0)) c"
  have h: "?c1 ''h'' = Some ?es" using assms(1,3) by (simp add: prune_def snapshot_cache_def listdir_def)
  have "map_of ?es n \<noteq> Some Tree" if "n \<in> fst ` set ?ms" for n
    using assms(4) [OF that] unfolding map_of_filter_key by simp
  then obtain es' where es': "restore_manifests ?ms ?es = Some es'" "restored ?ms ?es es'"
    using restore_manifests_total [of ?ms ?es] by blast
  define c' where "c' = ?c1(''h'' := Some es')"
  have "restore_cache c (snapshot_cache c0) = Some c'"
  proof (cases "?ms = []")
    case True
    with es' h have "es' = ?es" by simp
    then have "c' = ?c1" using h by (auto simp: c'_def)
    then show ?thesis using True assms(1) by (simp add: restore_cache_def snapshot_cache_def)
  next
    case False
    then show ?thesis using assms(1) h es'(1) by (simp add: restore_cache_def snapshot_cache_def Let_def c'_def)
  qed
  moreover have "set (listdir c' d) \<subseteq> set (listdir c0 d)" if d: "d \<in> set CACHE_SUBDIRS" for d
  proof (cases "d = ''h''")
    case True
    have "fst ` set es' = fst ` set ?ms \<union> fst ` set ?es" using es'(2) by (simp only: restored_def)
    then have "fst ` set es' \<subseteq> fst ` set es0" using manifests_keys [of es0] unfolding keys_filter by auto
    then show ?thesis using True assms(1) by (simp add: c'_def listdir_def)
  next
    case False
    then have "c' d = map_option (filter (\<lambda>(e, _). e \<in> set (listdir c0 d))) (c d)"
      using d by (simp add: c'_def prune_def snapshot_cache_def)
    then have "listdir c' d = (case c d of None \<Rightarrow> [] | Some es \<Rightarrow> map fst (filter (\<lambda>(e, _). e \<in> set (listdir c0 d)) es))"
      by (cases "c d") (simp_all add: listdir_def [of c'])
    then show ?thesis by (cases "c d") auto
  qed
  moreover have "map_option content (map_of es' name) = Some (Some bs)" if "(name, bs) \<in> set ?ms" for name bs
    using es'(2) manifest_lookup [OF assms(2) that] by (simp add: restored_def)
  ultimately show ?thesis
    by (intro exI [of _ c']) (auto simp: c'_def prune_def snapshot_cache_def)
qed

text \<open>The snapshot of a cache restores it to itself.\<close>

lemma restore_manifests_same:
  "(\<And>name bs. (name, bs) \<in> set ms \<Longrightarrow> map_option content (map_of es name) = Some (Some bs)) \<Longrightarrow> restore_manifests ms es = Some es"
proof (induction ms)
  case (Cons m ms)
  obtain name bs where m: "m = (name, bs)" by (cases m)
  then have "map_option content (map_of es name) = Some (Some bs)" using Cons.prems by simp
  moreover from this have "map_of es name \<noteq> Some Tree" by auto
  ultimately show ?case using Cons m by simp
qed simp

lemma manifests_content:
  "distinct (map fst es) \<Longrightarrow> (name, bs) \<in> set (manifests_of es) \<Longrightarrow> map_option content (map_of es name) = Some (Some bs)"
proof (induction es rule: manifests_of.induct)
  case (2 e n es)
  then show ?case using manifests_keys [of es] by (cases "content n") (auto simp: image_iff, force+)
qed simp

text \<open>Restoring an untouched cache changes nothing: \<open>restore_cache\<close> after \<open>snapshot_cache\<close> is the identity.\<close>

theorem restore_cache_same:
  assumes "\<And>es. c ''h'' = Some es \<Longrightarrow> distinct (map fst es)"
  shows "restore_cache c (snapshot_cache c) = Some c"
proof -
  have all: "filter (\<lambda>(e, _). e \<in> fst ` set es) es = es" for es :: dir by (rule filter_True) force
  have p: "prune (fst (snapshot_cache c)) c = c"
  proof (rule ext)
    fix d
    show "prune (fst (snapshot_cache c)) c d = c d" by (cases "c d") (simp_all add: prune_def snapshot_cache_def listdir_def all)
  qed
  show ?thesis
  proof (cases "c ''h''")
    case (Some es)
    then have "restore_manifests (manifests_of es) es = Some es"
      using assms manifests_content by (intro restore_manifests_same) blast
    then show ?thesis using p Some by (auto simp: restore_cache_def snapshot_cache_def Let_def)
  qed (use p in \<open>simp add: restore_cache_def snapshot_cache_def\<close>)
qed

definition sample_cache :: cache where
  "sample_cache = [''h'' \<mapsto> [(''m'', Blob [1])], ''o'' \<mapsto> [(''a'', Tree)]]"

definition sample_built :: cache where
  "sample_built = [''h'' \<mapsto> [(''n'', Blob [3]), (''m'', Blob [2])], ''o'' \<mapsto> [(''a'', Tree), (''b'', Tree)]]"

theorem restore_cache_restores_witness:
  "\<exists>c'. restore_cache sample_built (snapshot_cache sample_cache) = Some c'
     \<and> set (listdir c' ''o'') \<subseteq> {''a''} \<and> set (listdir c' ''h'') \<subseteq> {''m''}"
proof -
  have "\<exists>c'. restore_cache sample_built (snapshot_cache sample_cache) = Some c'
     \<and> (\<forall>d \<in> set CACHE_SUBDIRS. set (listdir c' d) \<subseteq> set (listdir sample_cache d))"
    using restore_cache_restores [of sample_cache "[(''m'', Blob [1])]" sample_built "[(''n'', Blob [3]), (''m'', Blob [2])]"]
    by (auto simp: sample_cache_def sample_built_def)
  then show ?thesis by (auto simp: CACHE_SUBDIRS_def sample_cache_def listdir_def)
qed

theorem restore_cache_same_witness: "restore_cache sample_cache (snapshot_cache sample_cache) = Some sample_cache"
  by (rule restore_cache_same) (simp add: sample_cache_def)

end
