(* ===== verification/Mutate.thy ===== *)
theory Mutate
  imports Edits Analysis Cache
begin

text \<open>
  \<^verbatim>\<open>tools/mutation/mutate.py\<close>, running mutants: \<open>run_mutant\<close> writes a marker with the original
  bytes, mutates one file, builds, and restores the file; \<open>recover_in_progress\<close> repairs a tree a killed run left
  behind; \<open>cmd_run\<close> runs the mutants one by one and \<open>--resume\<close> skips the finished ones. The builds are a
  parameter. The function models a run that ends (with a result or an exception); the step relation
  models every moment at which the process can be killed, a file being written included.
\<close>

section \<open>Files and the marker\<close>

type_synonym fsys = "string \<rightharpoonup> bytes"

definition IN_PROGRESS :: string where "IN_PROGRESS = ''.mutation-in-progress.json''"

definition marker_path :: "string \<Rightarrow> string" where "marker_path tree = path_join tree IN_PROGRESS"

definition to_bytes :: "string \<Rightarrow> bytes" where "to_bytes s = map (\<lambda>c. word_of_nat (of_char c)) s"

definition of_bytes :: "bytes \<Rightarrow> string" where "of_bytes bs = map (\<lambda>b. char_of (unat b)) bs"

definition marker_bytes :: "string \<times> string \<times> bytes \<Rightarrow> bytes" where
  "marker_bytes s =
     (case s of (i, file, original) \<Rightarrow>
        to_bytes (dumps [(''id'', i), (''file'', file), (''original'', b64encode original)]))"

text \<open>The files afterwards, and whether it returned (or raised).\<close>

definition recover_in_progress :: "string \<Rightarrow> fsys \<Rightarrow> fsys \<times> bool" where
  "recover_in_progress tree fs =
     (case fs (marker_path tree) of
        None \<Rightarrow> (fs, True)
      | Some bs \<Rightarrow>
          (case loads (of_bytes bs) of
             None \<Rightarrow> (fs, False)
           | Some state \<Rightarrow>
               (case state ''file'' of
                  None \<Rightarrow> (fs, False)
                | Some file \<Rightarrow>
                    (case Option.bind (state ''original'') b64decode of
                       None \<Rightarrow> (fs(path_join tree file \<mapsto> []), False)
                     | Some data \<Rightarrow> (fs(path_join tree file \<mapsto> data, marker_path tree := None), state ''id'' \<noteq> None)))))"

section \<open>One mutant\<close>

record world =
  files :: fsys
  cache :: cache

record run_args =
  zig :: string
  test_timeout :: string
  fresh_cache :: bool
  timeout_test :: nat
  timeout_all :: nat
  timeout_all_killed :: nat

definition build_cmd :: "run_args \<Rightarrow> build_step \<Rightarrow> string option \<Rightarrow> string list" where
  "build_cmd a step cache_dir =
     [zig a, ''build'', step_name step, ''--summary'', ''all'', ''--color'', ''off'',
      ''--error-style'', ''verbose'', ''--multiline-errors'', ''indent'']
     @ (if test_timeout a \<noteq> [] then [''--test-timeout'', test_timeout a] else [])
     @ (case cache_dir of None \<Rightarrow> [] | Some d \<Rightarrow> [''--cache-dir'', d])"

text \<open>A build changes the world and ends (return code, output, timed out, time) or is interrupted.\<close>

type_synonym builder = "string list \<Rightarrow> nat \<Rightarrow> world \<Rightarrow> world \<times> (int \<times> string \<times> bool \<times> nat) option"

datatype run_error = NotFound | NotText | NotApplied edit_error | Interrupted | CacheError | KeyError

record mutant_rec =
  r_id :: string
  r_status :: status
  r_test :: analysis
  r_test_all :: analysis
  killed_by_test :: bool

definition set_file :: "string \<Rightarrow> bytes option \<Rightarrow> world \<Rightarrow> world" where
  "set_file p v w = w\<lparr>files := (files w)(p := v)\<rparr>"

text \<open>The \<open>finally\<close>: the original bytes, then the marker, then the cache.\<close>

definition put_back :: "string \<Rightarrow> string \<Rightarrow> bytes \<Rightarrow> string option \<Rightarrow> snapshot option \<Rightarrow> world \<Rightarrow> world \<times> bool" where
  "put_back tree path original cache_dir snap w =
     (let w1 = set_file (marker_path tree) None (set_file path (Some original) w) in
      case (cache_dir, snap) of
        (None, Some s) \<Rightarrow> (case restore_cache (cache w1) s of None \<Rightarrow> (w1, False) | Some c \<Rightarrow> (w1\<lparr>cache := c\<rparr>, True))
      | _ \<Rightarrow> (w1, True))"

text \<open>The body of the \<open>try\<close> behind the two writes: both builds, with what they say.\<close>

definition builds :: "builder \<Rightarrow> run_args \<Rightarrow> string option \<Rightarrow> world \<Rightarrow> world \<times> (analysis \<times> analysis) option" where
  "builds b a cache_dir w =
     (case b (build_cmd a Test cache_dir) (timeout_test a) w of
        (w1, None) \<Rightarrow> (w1, None)
      | (w1, Some (rc, out, late, secs)) \<Rightarrow>
          (let t = analyse Test rc out late secs;
               timeout = (if a_status t = KILLED then timeout_all_killed a else timeout_all a)
           in case b (build_cmd a TestAll cache_dir) timeout w1 of
                (w2, None) \<Rightarrow> (w2, None)
              | (w2, Some (rc2, out2, late2, secs2)) \<Rightarrow> (w2, Some (t, analyse TestAll rc2 out2 late2 secs2))))"

definition mutated_bytes :: "bytes \<Rightarrow> edit list \<Rightarrow> run_error + bytes" where
  "mutated_bytes original es =
     (case utf8_decode original of
        None \<Rightarrow> Inl NotText
      | Some text \<Rightarrow>
          (case apply_edits text es of
             Inl e \<Rightarrow> Inl (NotApplied e)
           | Inr t \<Rightarrow> (case utf8_encode t of None \<Rightarrow> Inl NotText | Some bs \<Rightarrow> Inr bs)))"

definition run_mutant :: "builder \<Rightarrow> string \<Rightarrow> run_args \<Rightarrow> string \<Rightarrow> mutant \<Rightarrow> snapshot option \<Rightarrow> world \<Rightarrow> world \<times> (run_error + mutant_rec)" where
  "run_mutant b tmpdir a tree m snap w =
     (case (m_id m, m_file m, m_desc m, m_edits m) of
        (Some i, Some file, Some desc, Some es) \<Rightarrow>
          (let path = path_join tree file in
           case files w path of
             None \<Rightarrow> (w, Inl NotFound)
           | Some original \<Rightarrow>
               (case mutated_bytes original es of
                  Inl e \<Rightarrow> (w, Inl e)
                | Inr mutated \<Rightarrow>
                    (let cache_dir = (if fresh_cache a then Some tmpdir else None);
                         w1 = set_file path (Some mutated) (set_file (marker_path tree) (Some (marker_bytes (i, file, original))) w);
                         (w2, r) = builds b a cache_dir w1;
                         (w3, good) = put_back tree path original cache_dir snap w2
                     in if \<not> good then (w3, Inl CacheError)
                        else case r of
                          None \<Rightarrow> (w3, Inl Interrupted)
                        | Some (t, ta) \<Rightarrow>
                            (w3, Inr \<lparr>r_id = i, r_status = overall_status (a_status t) (a_status ta), r_test = t, r_test_all = ta,
                                      killed_by_test = (a_status t = KILLED)\<rparr>))))
      | _ \<Rightarrow> (w, Inl KeyError))"

section \<open>The marker is a journal\<close>

text \<open>
  What a saved state promises: it reads back, and a part of its text does not read as anything.
\<close>

locale journal =
  fixes save :: "'s \<Rightarrow> 'b list"
    and load :: "'b list \<Rightarrow> 't option"
    and view :: "'s \<Rightarrow> 't"
  assumes load_save: "load (save s) = Some (view s)"
    and load_partial: "save s = a @ b \<Longrightarrow> b \<noteq> [] \<Longrightarrow> load a = None"
begin

lemma load_take: "load (take k (save s)) = (if length (save s) \<le> k then Some (view s) else None)"
  using load_save load_partial [of s "take k (save s)" "drop k (save s)"] by (cases "length (save s) \<le> k") auto

end

lemma of_to_bytes: "of_bytes (to_bytes s) = s"
  by (simp add: of_bytes_def to_bytes_def o_def unat_of_nat map_idI)

definition marker_view :: "string \<times> string \<times> bytes \<Rightarrow> string \<rightharpoonup> string" where
  "marker_view s = (case s of (i, file, original) \<Rightarrow>
     map_of (rev [(''id'', i), (''file'', file), (''original'', b64encode original)]))"

interpretation marker: journal marker_bytes "\<lambda>bs. loads (of_bytes bs)" marker_view
proof unfold_locales
  fix s :: "string \<times> string \<times> bytes"
  obtain i fl original where s: "s = (i, fl, original)" by (cases s)
  let ?kvs = "[(''id'', i), (''file'', fl), (''original'', b64encode original)]"
  have m: "marker_bytes s = to_bytes (dumps ?kvs)" by (simp add: marker_bytes_def s)
  show "loads (of_bytes (marker_bytes s)) = Some (marker_view s)"
    unfolding m of_to_bytes using loads_dumps [of ?kvs] by (simp only: marker_view_def s prod.case) simp
  fix a b
  assume ab: "marker_bytes s = a @ b" "b \<noteq> []"
  then have "dumps ?kvs = of_bytes a @ of_bytes b"
    using m of_to_bytes [of "dumps ?kvs"] by (simp add: of_bytes_def)
  moreover have "of_bytes b \<noteq> []" using ab by (simp add: of_bytes_def)
  ultimately show "loads (of_bytes a) = None" using loads_truncated [of ?kvs] by simp
qed

lemma recover_complete:
  assumes "fs (marker_path tree) = Some (marker_bytes (i, file, original))"
  shows "recover_in_progress tree fs = (fs(path_join tree file \<mapsto> original, marker_path tree := None), True)"
  using assms marker.load_save [of "(i, file, original)"]
  by (simp add: recover_in_progress_def marker_view_def b64decode_encode)

lemma recover_partial:
  assumes "fs (marker_path tree) = Some (take k (marker_bytes s))" "k < length (marker_bytes s)"
  shows "recover_in_progress tree fs = (fs, False)"
  using assms marker.load_take [of k s] by (simp add: recover_in_progress_def)

lemma recover_none: "fs (marker_path tree) = None \<Longrightarrow> recover_in_progress tree fs = (fs, True)"
  by (simp add: recover_in_progress_def)

section \<open>A run that ends restores the tree\<close>

lemma put_back_files:
  "files (fst (put_back tree path original cd snap w)) = (files w)(path \<mapsto> original, marker_path tree := None)"
  by (simp add: put_back_def set_file_def Let_def split: option.split)

lemma builds_files:
  assumes "\<And>cmd t w. files (fst (b cmd t w)) p = files w p"
  shows "files (fst (builds b a cd w)) p = files w p"
proof -
  have "files w' p = files w0 p" if "b cmd t w0 = (w', r)" for cmd t w0 w' r
    using assms [of cmd t w0] that by simp
  then show ?thesis by (simp add: builds_def Let_def split: prod.split option.split)
qed

definition unfinished :: "string \<Rightarrow> mutant \<Rightarrow> world \<Rightarrow> bytes \<Rightarrow> bytes \<Rightarrow> world" where
  "unfinished tree m w original mutated =
     set_file (path_join tree (the (m_file m))) (Some mutated)
       (set_file (marker_path tree) (Some (marker_bytes (the (m_id m), the (m_file m), original))) w)"

lemma run_mutant_cases:
  "fst (run_mutant b tmp a tree m snap w) = w
   \<or> (\<exists>original mutated cd. files w (path_join tree (the (m_file m))) = Some original
        \<and> fst (run_mutant b tmp a tree m snap w)
            = fst (put_back tree (path_join tree (the (m_file m))) original cd snap (fst (builds b a cd (unfinished tree m w original mutated)))))"
proof (cases "m_id m = None \<or> m_file m = None \<or> m_desc m = None \<or> m_edits m = None")
  case True
  then show ?thesis by (auto simp: run_mutant_def split: option.split)
next
  case False
  then obtain i fl d es where m: "m_id m = Some i" "m_file m = Some fl" "m_desc m = Some d" "m_edits m = Some es" by auto
  show ?thesis
  proof (cases "files w (path_join tree fl)")
    case (Some original)
    then show ?thesis
      by (cases "mutated_bytes original es") (auto simp: run_mutant_def m unfinished_def Let_def case_prod_unfold split: option.split)
  qed (simp add: run_mutant_def m)
qed

lemma run_mutant_tree:
  assumes "files w (marker_path tree) = None" and "w' = fst (run_mutant b tmp a tree m snap w)"
  shows "files w' (path_join tree (the (m_file m))) = files w (path_join tree (the (m_file m))) \<and> files w' (marker_path tree) = None
     \<and> ((\<forall>cmd t w p. p \<noteq> path_join tree (the (m_file m)) \<longrightarrow> p \<noteq> marker_path tree \<longrightarrow> files (fst (b cmd t w)) p = files w p)
         \<longrightarrow> files w' = files w)"
  using run_mutant_cases [of b tmp a tree m snap w]
proof (elim disjE exE conjE)
  fix original mutated cd
  let ?p = "path_join tree (the (m_file m))" and ?w2 = "fst (builds b a cd (unfinished tree m w original mutated))"
  assume o: "files w ?p = Some original"
    and r: "fst (run_mutant b tmp a tree m snap w) = fst (put_back tree ?p original cd snap ?w2)"
  have f: "files w' = (files ?w2)(?p \<mapsto> original, marker_path tree := None)" using assms(2) r by (simp add: put_back_files)
  have ne: "?p \<noteq> marker_path tree" using o assms(1) by auto
  have "files w' q = files w q"
    if "\<forall>cmd t w p. p \<noteq> ?p \<longrightarrow> p \<noteq> marker_path tree \<longrightarrow> files (fst (b cmd t w)) p = files w p" for q
  proof (cases "q = ?p \<or> q = marker_path tree")
    case False
    with that have "files ?w2 q = files (unfinished tree m w original mutated) q" by (intro builds_files) blast
    with False f show ?thesis by (simp add: unfinished_def set_file_def)
  qed (use f o ne assms(1) in auto)
  then show ?thesis using f o ne by auto
qed (use assms in auto)

text \<open>C5. However a mutant's run ends (a result, a failing edit, an interrupted build, a cache that
  cannot be restored) and whatever the builds do, the mutated file has its original bytes again and
  no marker is left; and when the builds touch no other file, every file is as it was.\<close>

theorem run_mutant_restores:
  assumes "files w (marker_path tree) = None" and "w' = fst (run_mutant b tmp a tree m snap w)"
  shows "files w' (path_join tree (the (m_file m))) = files w (path_join tree (the (m_file m))) \<and> files w' (marker_path tree) = None
     \<and> ((\<forall>cmd t w p. p \<noteq> path_join tree (the (m_file m)) \<longrightarrow> p \<noteq> marker_path tree \<longrightarrow> files (fst (b cmd t w)) p = files w p)
         \<longrightarrow> files w' = files w)"
  by (rule run_mutant_tree [OF assms])

section \<open>A run that is killed\<close>

text \<open>
  The moments of \<open>run_mutant\<close> between its writes. Opening a file for writing empties it, and any
  part of the data may have arrived when the process dies. An interrupt or a failing write enters the
  \<open>finally\<close> from any moment of the \<open>try\<close>. The builds change files of a set \<open>outs\<close> only.
\<close>

datatype phase = Start | Marking | Marked | Mutating | Mutated | Restoring | Restored | Finished

inductive mstep :: "string \<Rightarrow> string \<times> string \<times> bytes \<Rightarrow> bytes \<Rightarrow> string set \<Rightarrow> phase \<times> fsys \<Rightarrow> phase \<times> fsys \<Rightarrow> bool"
  for tree :: string and s :: "string \<times> string \<times> bytes" and mutated :: bytes and outs :: "string set" where
  open_marker: "mstep tree s mutated outs (Start, fs) (Marking, fs(marker_path tree \<mapsto> []))"
| write_marker: "mstep tree s mutated outs (Marking, fs) (Marking, fs(marker_path tree \<mapsto> take k (marker_bytes s)))"
| close_marker: "mstep tree s mutated outs (Marking, fs) (Marked, fs(marker_path tree \<mapsto> marker_bytes s))"
| open_file: "mstep tree s mutated outs (Marked, fs) (Mutating, fs(path_join tree (fst (snd s)) \<mapsto> []))"
| write_mutant: "mstep tree s mutated outs (Mutating, fs) (Mutating, fs(path_join tree (fst (snd s)) \<mapsto> take k mutated))"
| close_file: "mstep tree s mutated outs (Mutating, fs) (Mutated, fs(path_join tree (fst (snd s)) \<mapsto> mutated))"
| run_build: "(\<And>p. p \<notin> outs \<Longrightarrow> fs' p = fs p) \<Longrightarrow> mstep tree s mutated outs (Mutated, fs) (Mutated, fs')"
| enter_finally: "ph \<in> {Marking, Marked, Mutating, Mutated} \<Longrightarrow>
    mstep tree s mutated outs (ph, fs) (Restoring, fs(path_join tree (fst (snd s)) \<mapsto> []))"
| write_original: "mstep tree s mutated outs (Restoring, fs) (Restoring, fs(path_join tree (fst (snd s)) \<mapsto> take k (snd (snd s))))"
| close_original: "mstep tree s mutated outs (Restoring, fs) (Restored, fs(path_join tree (fst (snd s)) \<mapsto> snd (snd s)))"
| remove_marker: "mstep tree s mutated outs (Restored, fs) (Finished, fs(marker_path tree := None))"

definition reachable :: "string \<Rightarrow> string \<times> string \<times> bytes \<Rightarrow> bytes \<Rightarrow> string set \<Rightarrow> fsys \<Rightarrow> phase \<times> fsys \<Rightarrow> bool" where
  "reachable tree s mutated outs fs0 = rtranclp (mstep tree s mutated outs) (Start, fs0)"

text \<open>The invariant: what is on disk in each phase.\<close>

definition partial_marker :: "string \<Rightarrow> string \<times> string \<times> bytes \<Rightarrow> fsys \<Rightarrow> bool" where
  "partial_marker tree s fs \<longleftrightarrow> (\<exists>k < length (marker_bytes s). fs (marker_path tree) = Some (take k (marker_bytes s)))"

fun disk_ok :: "string \<Rightarrow> string \<times> string \<times> bytes \<Rightarrow> phase \<Rightarrow> fsys \<Rightarrow> bool" where
  "disk_ok tree s ph fs \<longleftrightarrow>
     (let path = path_join tree (fst (snd s)); mk = fs (marker_path tree); full = Some (marker_bytes s) in
      case ph of
        Start \<Rightarrow> fs path = Some (snd (snd s)) \<and> mk = None
      | Marking \<Rightarrow> fs path = Some (snd (snd s)) \<and> (mk = full \<or> partial_marker tree s fs)
      | Restoring \<Rightarrow> mk = full \<or> partial_marker tree s fs
      | Restored \<Rightarrow> fs path = Some (snd (snd s)) \<and> (mk = full \<or> partial_marker tree s fs)
      | Finished \<Rightarrow> fs path = Some (snd (snd s)) \<and> mk = None
      | _ \<Rightarrow> mk = full)"

declare disk_ok.simps [simp del]

lemma marker_bytes_nonempty [simp]: "marker_bytes s \<noteq> []"
proof -
  have "loads [] = None" by (simp add: loads_def token_def)
  then show ?thesis using marker.load_save [of s] by (auto simp: of_bytes_def)
qed

lemma written_marker:
  "fs (marker_path tree) = Some (take k (marker_bytes s)) \<Longrightarrow> fs (marker_path tree) = Some (marker_bytes s) \<or> partial_marker tree s fs"
  by (cases "k < length (marker_bytes s)") (auto simp: partial_marker_def)

lemma full_marker: "fs (marker_path tree) = Some (marker_bytes s) \<Longrightarrow> \<not> partial_marker tree s fs"
proof
  assume "fs (marker_path tree) = Some (marker_bytes s)" "partial_marker tree s fs"
  then obtain k where "k < length (marker_bytes s)" "marker_bytes s = take k (marker_bytes s)" by (auto simp: partial_marker_def)
  then show False by (metis length_take min.absorb4 nat_neq_iff)
qed

lemma partial_marker_cong: "fs' (marker_path tree) = fs (marker_path tree) \<Longrightarrow> partial_marker tree s fs' = partial_marker tree s fs"
  by (simp add: partial_marker_def)

definition kept :: "string \<Rightarrow> string \<times> string \<times> bytes \<Rightarrow> string set \<Rightarrow> fsys \<Rightarrow> fsys \<Rightarrow> bool" where
  "kept tree s outs fs0 fs \<longleftrightarrow> (\<forall>p. p \<notin> outs \<longrightarrow> p \<noteq> marker_path tree \<longrightarrow> p \<noteq> path_join tree (fst (snd s)) \<longrightarrow> fs p = fs0 p)"

lemma mstep_ok:
  assumes "mstep tree s mutated outs (ph, fs) (ph', fs')" "disk_ok tree s ph fs" "kept tree s outs fs0 fs"
    and "path_join tree (fst (snd s)) \<noteq> marker_path tree" "marker_path tree \<notin> outs"
  shows "disk_ok tree s ph' fs' \<and> kept tree s outs fs0 fs'"
  using assms
proof (cases rule: mstep.cases)
  case (write_marker k)
  then show ?thesis using assms(2-) written_marker [of fs' tree k s] by (auto simp: disk_ok.simps kept_def)
next
  case open_marker
  then show ?thesis using assms(2-) written_marker [of fs' tree 0 s] by (auto simp: disk_ok.simps kept_def)
next
  case enter_finally
  then show ?thesis using assms(2-) by (auto simp: disk_ok.simps kept_def partial_marker_def)
qed (auto simp: disk_ok.simps kept_def partial_marker_def)

lemma reachable_ok:
  assumes "reachable tree s mutated outs fs0 (ph, fs)" "fs0 (path_join tree (fst (snd s))) = Some (snd (snd s))"
    and "fs0 (marker_path tree) = None" "marker_path tree \<notin> outs"
  shows "disk_ok tree s ph fs \<and> kept tree s outs fs0 fs"
proof -
  have ne: "path_join tree (fst (snd s)) \<noteq> marker_path tree" using assms(2,3) by auto
  have "rtranclp (mstep tree s mutated outs) (Start, fs0) (ph, fs)" using assms(1) by (simp add: reachable_def)
  then show ?thesis
  proof (induction rule: rtranclp_induct2)
    case refl
    then show ?case using assms(2,3) by (simp add: disk_ok.simps kept_def)
  next
    case (step ph fs ph' fs')
    then show ?case using mstep_ok [OF step(2)] ne assms(4) by blast
  qed
qed

lemma recover_reachable:
  assumes "reachable tree (i, file, original) mutated outs fs0 (ph, fs)" and "fs0 (path_join tree file) = Some original"
    and "fs0 (marker_path tree) = None" and "marker_path tree \<notin> outs" and "path_join tree file \<notin> outs"
    and "ph \<noteq> Restoring \<or> \<not> partial_marker tree (i, file, original) fs"
  shows "(\<forall>p. p \<notin> outs \<longrightarrow> p \<noteq> marker_path tree \<longrightarrow> fst (recover_in_progress tree fs) p = fs0 p)
     \<and> (snd (recover_in_progress tree fs) \<longleftrightarrow> \<not> partial_marker tree (i, file, original) fs)
     \<and> (snd (recover_in_progress tree fs) \<longrightarrow> fst (recover_in_progress tree fs) (marker_path tree) = None)"
proof -
  let ?s = "(i, file, original)"
  have d: "disk_ok tree ?s ph fs" and k: "kept tree ?s outs fs0 fs"
    using reachable_ok [of tree ?s mutated outs fs0 ph fs] assms by auto
  have ne: "path_join tree file \<noteq> marker_path tree" using assms(2,3) by auto
  note full = full_marker [of fs tree ?s]
  consider "fs (marker_path tree) = Some (marker_bytes ?s)"
    | "fs (marker_path tree) = None" "fs (path_join tree file) = Some original"
    | "partial_marker tree ?s fs" "fs (path_join tree file) = Some original"
    using d assms(6) by (cases ph) (auto simp: disk_ok.simps Let_def)
  then show ?thesis
  proof cases
    case 1
    then show ?thesis using recover_complete [of fs tree i "file" original] full k assms(2) ne by (auto simp: kept_def)
  next
    case 2
    then have "\<not> partial_marker tree ?s fs" by (simp add: partial_marker_def)
    then show ?thesis using recover_none [of fs tree] 2 k assms(2) ne by (auto simp: kept_def)
  next
    case 3
    then obtain n where "fs (marker_path tree) = Some (take n (marker_bytes ?s))" "n < length (marker_bytes ?s)"
      by (auto simp: partial_marker_def)
    then show ?thesis using recover_partial [of fs tree n ?s] 3 k assms(2) ne by (auto simp: kept_def)
  qed
qed


text \<open>C39. The exception is real: the \<open>finally\<close> empties the file before it writes it even when the file was never
  mutated, and an interrupt or a full disk while the marker is written leads there with a useless marker.
  Killed at that moment, the run has lost the file: nothing of it is on disk and the recovery raises.\<close>

theorem killed_restore_loses_file:
  assumes "fs0 (path_join tree file) = Some original" and "fs0 (marker_path tree) = None"
  shows "\<exists>fs. reachable tree (i, file, original) mutated outs fs0 (Restoring, fs)
     \<and> recover_in_progress tree fs = (fs, False) \<and> fs (path_join tree file) = Some [] \<and> fs (marker_path tree) = Some []"
proof -
  let ?s = "(i, file, original)" and ?f1 = "fs0(marker_path tree \<mapsto> [])"
  let ?f2 = "?f1(path_join tree file \<mapsto> [])"
  have ne: "path_join tree file \<noteq> marker_path tree" using assms by auto
  have "mstep tree ?s mutated outs (Start, fs0) (Marking, ?f1)" by (rule mstep.open_marker)
  moreover have "mstep tree ?s mutated outs (Marking, ?f1) (Restoring, ?f2)"
    using mstep.enter_finally [of Marking tree ?s mutated outs ?f1] by simp
  ultimately have "reachable tree ?s mutated outs fs0 (Restoring, ?f2)" by (auto simp: reachable_def)
  moreover have "recover_in_progress tree ?f2 = (?f2, False)"
    using recover_partial [of ?f2 tree 0 ?s] ne by simp
  ultimately show ?thesis using ne by (intro exI [of _ ?f2]) simp
qed

definition sample_fs :: fsys where
  "sample_fs = [''/t/a.zig'' \<mapsto> [65, 66]]"

lemma sample_paths: "path_join ''/t'' ''a.zig'' = ''/t/a.zig''" "marker_path ''/t'' = ''/t/.mutation-in-progress.json''"
  by (simp_all add: path_join_def marker_path_def IN_PROGRESS_def endswith_def)


theorem killed_restore_loses_file_witness:
  "\<exists>fs. reachable ''/t'' (''C1'', ''a.zig'', [65, 66]) [67] {} sample_fs (Restoring, fs)
     \<and> recover_in_progress ''/t'' fs = (fs, False) \<and> fs ''/t/a.zig'' = Some []"
  using killed_restore_loses_file [of sample_fs "''/t''" "''a.zig''" "[65, 66]" "''C1''" "[67]" "{}"]
  by (auto simp: sample_paths sample_fs_def)

definition sample_builder :: builder where
  "sample_builder cmd t w = (w, Some (0, [], False, 1))"

definition sample_run_args :: run_args where
  "sample_run_args = \<lparr>zig = ''zig'', test_timeout = ''60s'', fresh_cache = False, timeout_test = 300, timeout_all = 900, timeout_all_killed = 240\<rparr>"

definition sample_world :: world where
  "sample_world = \<lparr>files = [''/t/a.zig'' \<mapsto> map word_of_nat sample_text], cache = Map.empty\<rparr>"

theorem run_mutant_restores_witness:
  "files (fst (run_mutant sample_builder [] sample_run_args ''/t'' sample_mutant None sample_world)) = files sample_world
   \<and> map_sum id r_status (snd (run_mutant sample_builder [] sample_run_args ''/t'' sample_mutant None sample_world)) = Inr SURVIVED"
proof
  show "files (fst (run_mutant sample_builder [] sample_run_args ''/t'' sample_mutant None sample_world)) = files sample_world"
    using run_mutant_restores [of sample_world "''/t''" _ sample_builder "[]" sample_run_args sample_mutant None]
    by (simp add: sample_paths sample_world_def sample_builder_def)
  show "map_sum id r_status (snd (run_mutant sample_builder [] sample_run_args ''/t'' sample_mutant None sample_world)) = Inr SURVIVED"
    by code_simp
qed

section \<open>The whole run\<close>

text \<open>
  \<open>select\<close>: \<open>by_id\<close> needs every mutant's id (a missing one raises); unknown ids end the run;
  no ids select all. The last mutant with an id counts.
\<close>

datatype stop = Raises | LeftMutated | UnknownIds "string list" | NoBuildFile | GitCheckout | Problems "problem list" | BadCache | BaselineFailed
  | Stopped run_error

definition by_id :: "mutant list \<Rightarrow> (string \<times> mutant) list" where
  "by_id ms = rev (map (\<lambda>m. (the (m_id m), m)) ms)"

definition select :: "catalogue \<Rightarrow> string list \<Rightarrow> stop + mutant list" where
  "select c ids =
     (if list_ex (\<lambda>m. m_id m = None) (MUTANTS c) then Inl Raises
      else let unknown = [i \<leftarrow> ids. map_of (by_id (MUTANTS c)) i = None] in
        if unknown \<noteq> [] then Inl (UnknownIds unknown)
        else Inr (if ids = [] then MUTANTS c else map (\<lambda>i. the (map_of (by_id (MUTANTS c)) i)) ids))"

text \<open>A line of the results file: of a mutant, of the baseline, or blank.\<close>

datatype result_line = MutantLine string status | BaselineLine | BlankLine

fun done_ids :: "result_line list \<Rightarrow> string set" where
  "done_ids [] = {}"
| "done_ids (MutantLine i st # ls) = (if st \<noteq> ERROR then insert i (done_ids ls) else done_ids ls)"
| "done_ids (_ # ls) = done_ids ls"

definition to_run :: "bool \<Rightarrow> result_line list \<Rightarrow> mutant list \<Rightarrow> mutant list" where
  "to_run resume results ms = (if resume then [m \<leftarrow> ms. the (m_id m) \<notin> done_ids results] else ms)"

definition check_cache :: "bool \<Rightarrow> bool \<Rightarrow> 'i option \<Rightarrow> 'i \<Rightarrow> bool" where
  "check_cache isdir trust mark identity \<longleftrightarrow> \<not> isdir \<or> trust \<or> mark = Some identity"

text \<open>The loop: each result is appended as soon as it is there; an exception ends the run.\<close>

fun run_all :: "builder \<Rightarrow> string \<Rightarrow> run_args \<Rightarrow> string \<Rightarrow> snapshot option \<Rightarrow> mutant list \<Rightarrow> world \<Rightarrow> result_line list
    \<Rightarrow> world \<times> result_line list \<times> run_error option" where
  "run_all b tmp a tree snap [] w results = (w, results, None)"
| "run_all b tmp a tree snap (m # ms) w results =
     (case run_mutant b tmp a tree m snap w of
        (w1, Inl e) \<Rightarrow> (w1, results, Some e)
      | (w1, Inr r) \<Rightarrow> run_all b tmp a tree snap ms w1 (results @ [MutantLine (r_id r) (r_status r)]))"

definition read_tree :: "fsys \<Rightarrow> string \<Rightarrow> string + bytes" where
  "read_tree fs p = (case fs p of None \<Rightarrow> Inl ''No such file or directory'' | Some bs \<Rightarrow> Inr bs)"

definition check_tree :: "fsys \<Rightarrow> bool \<Rightarrow> bool \<Rightarrow> string \<Rightarrow> stop option" where
  "check_tree fs git allow_git tree =
     (if fs (path_join tree ''build.zig'') = None then Some NoBuildFile else if git \<and> \<not> allow_git then Some GitCheckout else None)"

text \<open>
  \<open>cmd_run\<close> up to the loop, with the mutants it is going to run: the files after the recovery. What ends the
  script is the left result.
\<close>

definition prepare_run :: "catalogue \<Rightarrow> string list \<Rightarrow> bool \<Rightarrow> bool \<Rightarrow> bool \<Rightarrow> string \<Rightarrow> result_line list \<Rightarrow> fsys \<Rightarrow> fsys \<times> (stop + mutant list)" where
  "prepare_run c ids git allow_git resume tree results fs =
     (case check_tree fs git allow_git tree of
        Some e \<Rightarrow> (fs, Inl e)
      | None \<Rightarrow>
          (case recover_in_progress tree fs of
             (fs1, False) \<Rightarrow> (fs1, Inl Raises)
           | (fs1, True) \<Rightarrow>
               (case select c ids of
                  Inl e \<Rightarrow> (fs1, Inl e)
                | Inr ms \<Rightarrow>
                    (case validate (read_tree fs1) tree ms of
                       None \<Rightarrow> (fs1, Inl Raises)
                     | Some ps \<Rightarrow>
                         (let problems = catalogue_problems c @ ps in
                          if problems \<noteq> [] then (fs1, Inl (Problems problems)) else (fs1, Inr (to_run resume results ms)))))))"

definition cmd_check :: "catalogue \<Rightarrow> string list \<Rightarrow> string \<Rightarrow> fsys \<Rightarrow> stop + mutant list" where
  "cmd_check c ids tree fs =
     (if fs (marker_path tree) \<noteq> None then Inl LeftMutated
      else case select c ids of
        Inl e \<Rightarrow> Inl e
      | Inr ms \<Rightarrow>
          (case validate (read_tree fs) tree ms of
             None \<Rightarrow> Inl Raises
           | Some ps \<Rightarrow> if catalogue_problems c @ ps \<noteq> [] then Inl (Problems (catalogue_problems c @ ps)) else Inr ms))"

definition run_baseline :: "builder \<Rightarrow> run_args \<Rightarrow> world \<Rightarrow> world \<times> (stop + unit)" where
  "run_baseline b a w =
     (case b (build_cmd a TestAll None) (timeout_all a) w of
        (w1, None) \<Rightarrow> (w1, Inl (Stopped Interrupted))
      | (w1, Some (rc, out, late, secs)) \<Rightarrow>
          if a_status (analyse TestAll rc out late secs) \<noteq> SURVIVED then (w1, Inl BaselineFailed)
          else (case b (build_cmd a Test None) (timeout_test a) w1 of
                  (w2, None) \<Rightarrow> (w2, Inl (Stopped Interrupted))
                | (w2, Some (rc2, out2, late2, secs2)) \<Rightarrow>
                    (w2, if a_status (analyse Test rc2 out2 late2 secs2) \<noteq> SURVIVED then Inl BaselineFailed else Inr ())))"

text \<open>The loop with its outcome as the script's.\<close>

definition run_loop :: "builder \<Rightarrow> string \<Rightarrow> run_args \<Rightarrow> string \<Rightarrow> snapshot option \<Rightarrow> mutant list \<Rightarrow> world \<Rightarrow> result_line list
    \<Rightarrow> world \<times> result_line list \<times> stop option" where
  "run_loop b tmp a tree snap ms w results =
     (case run_all b tmp a tree snap ms w results of (w', results', e) \<Rightarrow> (w', results', map_option Stopped e))"

text \<open>
  \<open>cmd_run\<close>. Whether the tree is a checkout, whether it has a \<open>.zig-cache\<close>, and that cache's mark and identity are
  arguments.
\<close>

record run_options =
  ids :: "string list"
  allow_git :: bool
  resume :: bool
  no_baseline :: bool
  trust_cache :: bool

definition cmd_run :: "catalogue \<Rightarrow> run_options \<Rightarrow> bool \<Rightarrow> bool \<Rightarrow> 'i option \<Rightarrow> 'i \<Rightarrow> builder \<Rightarrow> string \<Rightarrow> run_args \<Rightarrow> string
    \<Rightarrow> world \<Rightarrow> result_line list \<Rightarrow> world \<times> result_line list \<times> stop option" where
  "cmd_run c opt git isdir mark identity b tmp a tree w results =
     (case prepare_run c (ids opt) git (allow_git opt) (resume opt) tree results (files w) of
        (fs, Inl e) \<Rightarrow> (w\<lparr>files := fs\<rparr>, results, Some e)
      | (fs, Inr ms) \<Rightarrow>
          (let w1 = w\<lparr>files := fs\<rparr> in
           if fresh_cache a then run_loop b tmp a tree None ms w1 results
           else if \<not> check_cache isdir (trust_cache opt) mark identity then (w1, results, Some BadCache)
           else if \<not> no_baseline opt \<and> \<not> isdir then
             (case run_baseline b a w1 of
                (w2, Inl e) \<Rightarrow> (w2, results, Some e)
              | (w2, Inr _) \<Rightarrow> run_loop b tmp a tree (Some (snapshot_cache (cache w2))) ms w2 (results @ [BaselineLine]))
           else run_loop b tmp a tree (Some (snapshot_cache (cache w1))) ms w1 results))"

section \<open>What the run guarantees\<close>

text \<open>A builder that leaves the files alone, the cache apart.\<close>

definition keeps_files :: "builder \<Rightarrow> bool" where
  "keeps_files b \<longleftrightarrow> (\<forall>cmd t w. files (fst (b cmd t w)) = files w)"

lemma run_mutant_keeps:
  "keeps_files b \<Longrightarrow> files w (marker_path tree) = None \<Longrightarrow> files (fst (run_mutant b tmp a tree m snap w)) = files w"
  using run_mutant_tree [of w tree "fst (run_mutant b tmp a tree m snap w)" b tmp a m snap] by (simp add: keeps_files_def)

lemma run_all_keeps:
  "keeps_files b \<Longrightarrow> files w (marker_path tree) = None \<Longrightarrow> files (fst (run_all b tmp a tree snap ms w results)) = files w"
proof (induction b tmp a tree snap ms w results rule: run_all.induct)
  case (2 b tmp a tree snap m ms w results)
  obtain w1 r where r: "run_mutant b tmp a tree m snap w = (w1, r)" by fastforce
  then have "files w1 = files w" using run_mutant_keeps [OF 2(2,3), of tmp a m snap] by simp
  with 2 r show ?case by (auto split: sum.split)
qed simp

lemma recover_marker: "recover_in_progress tree fs = (fs1, True) \<Longrightarrow> fs1 (marker_path tree) = None"
  by (auto simp: recover_in_progress_def split: option.splits)

lemma problems_complete: "catalogue_problems c = [] \<Longrightarrow> list_all complete (MUTANTS c)"
  using mutant_problems_nil [of "{}" "MUTANTS c"] by (auto simp: catalogue_problems_def split: prod.splits)

lemma select_subset: "select c is = Inr sel \<Longrightarrow> set sel \<subseteq> set (MUTANTS c)"
proof -
  have "map_of (by_id ms) i = Some m \<Longrightarrow> m \<in> set ms" for ms i m
    by (auto simp: by_id_def dest!: map_of_SomeD)
  then show "select c is = Inr sel \<Longrightarrow> set sel \<subseteq> set (MUTANTS c)"
    by (fastforce simp: select_def Let_def filter_empty_conv split: if_splits)
qed

lemma prepare_run_ok:
  assumes "prepare_run c is git allow rsm tree results fs = (fs1, Inr ms)"
  shows "fs1 = fst (recover_in_progress tree fs) \<and> snd (recover_in_progress tree fs) \<and> fs1 (marker_path tree) = None
     \<and> list_all (\<lambda>m. complete m \<and> applies (read_tree fs1) tree m) ms"
proof -
  obtain sel where p: "recover_in_progress tree fs = (fs1, True)" "select c is = Inr sel"
      "validate (read_tree fs1) tree sel = Some []" "catalogue_problems c = []" "ms = to_run rsm results sel"
    using assms by (auto simp: prepare_run_def Let_def split: option.splits prod.splits bool.splits sum.splits if_splits)
  then have "list_all (applies (read_tree fs1) tree) sel" by (simp add: validate_applies)
  moreover have "list_all complete sel"
    using select_subset [OF p(2)] problems_complete [OF p(4)] by (auto simp: list_all_iff)
  ultimately show ?thesis using p recover_marker by (auto simp: to_run_def list_all_iff)
qed

lemma prepare_run_files:
  "check_tree fs git allow tree = None \<Longrightarrow> fst (prepare_run c is git allow rsm tree results fs) = fst (recover_in_progress tree fs)"
  by (simp add: prepare_run_def Let_def split: option.split prod.split bool.split sum.split)

lemma run_loop_keeps:
  "keeps_files b \<Longrightarrow> files w (marker_path tree) = None \<Longrightarrow> files (fst (run_loop b tmp a tree snap ms w results)) = files w"
  using run_all_keeps [of b w tree tmp a snap ms results] by (simp add: run_loop_def case_prod_unfold)

lemma run_baseline_keeps: "keeps_files b \<Longrightarrow> files (fst (run_baseline b a w)) = files w"
proof -
  assume k: "keeps_files b"
  have "files w' = files w0" if "b cmd t w0 = (w', r)" for cmd t w0 w' r
    using k that unfolding keeps_files_def by (metis fst_conv)
  then show ?thesis by (auto simp: run_baseline_def split: prod.split option.split)
qed

lemma run_mutant_errors:
  assumes "complete m" "applies (read_tree (files w)) tree m" "run_mutant b tmp a tree m snap w = (w1, Inl e)"
  shows "e \<in> {Interrupted, CacheError, NotText}"
proof -
  obtain i fl es bs t t' where m: "m_id m = Some i" "m_file m = Some fl" "m_edits m = Some es" "files w (path_join tree fl) = Some bs"
      "utf8_decode bs = Some t" "apply_edits t es = Inr t'"
    using assms(2) by (auto simp: applies_def read_tree_def split: option.splits)
  obtain d where "m_desc m = Some d" using assms(1) by (auto simp: complete_def)
  then show ?thesis
    using assms(3) m by (cases "utf8_encode t'") (auto simp: run_mutant_def mutated_bytes_def Let_def case_prod_unfold split: option.splits if_splits)
qed

lemma run_all_errors:
  "keeps_files b \<Longrightarrow> files w (marker_path tree) = None \<Longrightarrow> list_all (\<lambda>m. complete m \<and> applies (read_tree (files w)) tree m) ms \<Longrightarrow>
   run_all b tmp a tree snap ms w results = (w', results', Some e) \<Longrightarrow> e \<in> {Interrupted, CacheError, NotText}"
proof (induction b tmp a tree snap ms w results rule: run_all.induct)
  case (2 b tmp a tree snap m ms w results)
  obtain w1 r where r: "run_mutant b tmp a tree m snap w = (w1, r)" by fastforce
  then have f: "files w1 = files w" using run_mutant_keeps [OF 2(2,3), of tmp a m snap] by simp
  show ?case
  proof (cases r)
    case (Inl e')
    with 2(5) r have "e' = e" by simp
    with 2(4) r Inl run_mutant_errors [of m w tree b tmp a snap w1 e] show ?thesis by simp
  next
    case (Inr rec)
    with 2 r f show ?thesis by simp
  qed
qed simp

lemma run_loop_errors:
  "keeps_files b \<Longrightarrow> files w (marker_path tree) = None \<Longrightarrow> list_all (\<lambda>m. complete m \<and> applies (read_tree (files w)) tree m) ms \<Longrightarrow>
   run_loop b tmp a tree snap ms w results = (w', results', Some (Stopped e)) \<Longrightarrow> e \<in> {Interrupted, CacheError, NotText}"
  by (auto simp: run_loop_def split: prod.splits dest: run_all_errors)


lemma run_all_records:
  "run_all b tmp a tree snap ms w results = (w', results', e) \<Longrightarrow>
   \<exists>sts. length sts \<le> length ms \<and> (e = None \<longleftrightarrow> length sts = length ms)
     \<and> results' = results @ map2 (\<lambda>m st. MutantLine (the (m_id m)) st) (take (length sts) ms) sts"
proof (induction b tmp a tree snap ms w results rule: run_all.induct)
  case (2 b tmp a tree snap m ms w results)
  obtain w1 r where r: "run_mutant b tmp a tree m snap w = (w1, r)" by fastforce
  show ?case
  proof (cases r)
    case (Inl e')
    with 2 r show ?thesis by (intro exI [of _ "[]"]) auto
  next
    case (Inr rec)
    have i: "r_id rec = the (m_id m)"
      using r Inr by (auto simp: run_mutant_def Let_def split: option.splits sum.splits prod.splits if_splits)
    obtain sts where "length sts \<le> length ms" "e = None \<longleftrightarrow> length sts = length ms"
        "results' = (results @ [MutantLine (r_id rec) (r_status rec)]) @ map2 (\<lambda>m st. MutantLine (the (m_id m)) st) (take (length sts) ms) sts"
      using 2(1) [OF r [symmetric] Inr] 2(2) r Inr by auto
    then show ?thesis by (intro exI [of _ "r_status rec # sts"]) (simp add: i)
  qed
qed simp

lemma done_ids_append [simp]: "done_ids (xs @ ys) = done_ids xs \<union> done_ids ys"
  by (induction xs rule: done_ids.induct) auto

lemma done_ids_map2:
  "done_ids (map2 (\<lambda>m st. MutantLine (the (m_id m)) st) ms sts) = {the (m_id m) |m st. (m, st) \<in> set (zip ms sts) \<and> st \<noteq> ERROR}"
proof (induction ms arbitrary: sts)
  case (Cons m ms)
  then show ?case by (cases sts) auto
qed simp

lemma distinct_drop_take: "distinct (map f xs) \<Longrightarrow> m \<in> set (drop k xs) \<Longrightarrow> m' \<in> set (take k xs) \<Longrightarrow> f m \<noteq> f m'"
proof -
  assume d: "distinct (map f xs)" and m: "m \<in> set (drop k xs)" "m' \<in> set (take k xs)"
  have "map f (take k xs) @ map f (drop k xs) = map f xs" by (simp flip: map_append)
  with d have "set (map f (take k xs)) \<inter> set (map f (drop k xs)) = {}" by (metis distinct_append)
  with m show ?thesis by auto
qed

lemma filter_zip_fst: "length xs = length ys \<Longrightarrow> filter P xs = map fst (filter (\<lambda>(x, y). P x) (zip xs ys))"
  by (induction xs ys rule: list_induct2) auto



definition stopping_builder :: builder where
  "stopping_builder cmd t w = (w, None)"

definition sample_options :: run_options where
  "sample_options = \<lparr>ids = [], allow_git = False, resume = False, no_baseline = True, trust_cache = False\<rparr>"

definition sample_tree :: world where
  "sample_tree = \<lparr>files = [''/t/a.zig'' \<mapsto> map word_of_nat sample_text, ''/t/build.zig'' \<mapsto> []], cache = Map.empty\<rparr>"




end
