(* ===== verification/Report.thy ===== *)
theory Report
  imports Mutate "HOL-Library.List_Lexorder" "HOL-Library.Char_ord"
begin

text \<open>
  \<open>cmd_report\<close> of \<^verbatim>\<open>tools/mutation/mutate.py\<close>: which results of a results file count, how they are added up to a
  score, and which mutants are listed. The report is a value instead of its text; the results are the objects
  that \<open>run_mutant\<close> writes.
\<close>

section \<open>The results file and the catalogue\<close>

record result = mutant_rec +
  r_desc :: string
  r_edits :: "edit list"

record baseline =
  b_commit :: "string option"
  b_time :: "string option"
  b_run_tests :: "(string list) option"

datatype report_line = ResultLine result | BaseLine baseline | OtherLine

type_synonym recs = "(string \<times> result) list"

fun read_results :: "report_line list \<Rightarrow> recs \<Rightarrow> recs" where
  "read_results [] d = d"
| "read_results (ResultLine r # ls) d = read_results ls (dict_set (r_id r) r d)"
| "read_results (_ # ls) d = read_results ls d"

fun read_baselines :: "report_line list \<Rightarrow> baseline list" where
  "read_baselines [] = []"
| "read_baselines (BaseLine b # ls) = b # read_baselines ls"
| "read_baselines (_ # ls) = read_baselines ls"

text \<open>The module: its mutants, which of them are new, and the equivalent ones with the reason.\<close>

record report_mod =
  RMUTANTS :: "mutant list"
  RNEW :: "mutant list"
  REASONS :: "(string \<times> string) list"

text \<open>The dict of the mutants; \<open>None\<close> when one has no id.\<close>

fun catalogue_dict :: "mutant list \<Rightarrow> (string \<times> mutant) list \<Rightarrow> (string \<times> mutant) list option" where
  "catalogue_dict [] d = Some d"
| "catalogue_dict (m # ms) d = (case m_id m of None \<Rightarrow> None | Some i \<Rightarrow> catalogue_dict ms (dict_set i m d))"

definition ids_of :: "mutant list \<Rightarrow> string list option" where
  "ids_of ms = those (map m_id ms)"

definition has :: "('k \<times> 'v) list \<Rightarrow> 'k \<Rightarrow> bool" where
  "has d k \<longleftrightarrow> map_of d k \<noteq> None"

text \<open>The results in the order of the catalogue, then those of other mutants by id.\<close>

definition report_order :: "string list \<Rightarrow> recs \<Rightarrow> string list" where
  "report_order xs d = filter (has d) xs @ sort (filter (\<lambda>i. i \<notin> set xs) (map fst d))"

definition stale :: "(string \<times> mutant) list \<Rightarrow> recs \<Rightarrow> string \<Rightarrow> bool option" where
  "stale cat d i =
     (case map_of cat i of
        None \<Rightarrow> Some False
      | Some m \<Rightarrow> (case m_edits m of None \<Rightarrow> None | Some es \<Rightarrow> Some (r_edits (the (map_of d i)) \<noteq> es)))"

section \<open>The score\<close>

record summary =
  s_total :: nat
  s_counts :: "(status \<times> nat) list"
  s_equivalent :: nat
  s_killed :: nat
  s_timeouts :: nat
  s_denom :: int

definition status_of :: "recs \<Rightarrow> string \<Rightarrow> status" where
  "status_of d i = r_status (the (map_of d i))"

definition by_status :: "recs \<Rightarrow> string list \<Rightarrow> status \<Rightarrow> string list" where
  "by_status d xs st = filter (\<lambda>i. status_of d i = st) xs"

text \<open>The statuses in the order of their names.\<close>

definition STATUSES :: "status list" where
  "STATUSES = [COMPILE_ERROR, ERROR, KILLED, SURVIVED, TIMEOUT]"

definition status_counts :: "recs \<Rightarrow> string list \<Rightarrow> (status \<times> nat) list" where
  "status_counts d xs =
     filter (\<lambda>(st, n). n \<noteq> 0) (map (\<lambda>st. (st, length (by_status d xs st))) STATUSES)"

definition summarize :: "recs \<Rightarrow> (string \<times> string) list \<Rightarrow> string list \<Rightarrow> summary option" where
  "summarize d equivalent xs =
     (if xs = [] then None
      else
        (let eq = filter (has equivalent) (by_status d xs SURVIVED)
         in Some \<lparr>s_total = length xs, s_counts = status_counts d xs, s_equivalent = length eq,
              s_killed = length (by_status d xs KILLED), s_timeouts = length (by_status d xs TIMEOUT),
              s_denom = int (length xs) - int (length eq) - int (length (by_status d xs COMPILE_ERROR))\<rparr>))"

text \<open>The score is printed as killed/denom when the denominator is not 0, with the time-outs when there are any.\<close>

definition score_line :: "summary \<Rightarrow> (nat \<times> int \<times> nat option) option" where
  "score_line s =
     (if s_denom s \<noteq> 0 then Some (s_killed s, s_denom s, if s_timeouts s \<noteq> 0 then Some (s_killed s + s_timeouts s) else None)
      else None)"

section \<open>The lists\<close>

definition suites_of :: "recs \<Rightarrow> string \<Rightarrow> string list" where
  "suites_of d i = failed_suites (r_test_all (the (map_of d i)))"

definition per_suite :: "recs \<Rightarrow> string list \<Rightarrow> (string \<times> nat) list" where
  "per_suite d killed = map (\<lambda>s. (s, length (filter (\<lambda>i. s \<in> set (suites_of d i)) killed))) SUITES"

definition late :: "recs \<Rightarrow> string list \<Rightarrow> string list" where
  "late d killed = filter (\<lambda>i. a_status (r_test (the (map_of d i))) = SURVIVED) killed"

datatype remark = EquivalentTo string | Gap | FirstError "string option" | NoRemark

definition remark_of :: "recs \<Rightarrow> (string \<times> string) list \<Rightarrow> status \<Rightarrow> string \<Rightarrow> remark" where
  "remark_of d equivalent st i =
     (if st = SURVIVED then (case map_of equivalent i of Some why \<Rightarrow> EquivalentTo why | None \<Rightarrow> Gap)
      else if st = COMPILE_ERROR then
        (let r = the (map_of d i);
             errs = (if compile_errors (r_test_all r) \<noteq> [] then compile_errors (r_test_all r) else compile_errors (r_test r))
         in FirstError (case errs of [] \<Rightarrow> None | e # _ \<Rightarrow> Some e))
      else NoRemark)"

definition listed :: "recs \<Rightarrow> (string \<times> string) list \<Rightarrow> string list \<Rightarrow> (status \<times> (string \<times> string \<times> remark) list) list" where
  "listed d equivalent xs =
     filter (\<lambda>(st, es). es \<noteq> [])
       (map (\<lambda>st. (st, map (\<lambda>i. (i, r_desc (the (map_of d i)), remark_of d equivalent st i)) (by_status d xs st)))
          [SURVIVED, TIMEOUT, COMPILE_ERROR, ERROR])"

definition contradictions :: "recs \<Rightarrow> (string \<times> string) list \<Rightarrow> string list" where
  "contradictions d equivalent = filter (\<lambda>i. has d i \<and> status_of d i \<noteq> SURVIVED) (map fst equivalent)"

section \<open>The report\<close>

record report =
  rp_baseline :: "baseline option"
  rp_missing :: "string list"
  rp_stale :: "string list"
  rp_all :: "summary option"
  rp_new :: "summary option"
  rp_ported :: "summary option"
  rp_suites :: "(string \<times> nat) list"
  rp_late :: "(string \<times> string list \<times> string) list"
  rp_listed :: "(status \<times> (string \<times> string \<times> remark) list) list"
  rp_contradictions :: "string list"

definition killed_ids :: "recs \<Rightarrow> string list \<Rightarrow> string list" where
  "killed_ids d xs = by_status d xs KILLED"

definition cmd_report :: "report_mod \<Rightarrow> report_line list \<Rightarrow> report option" where
  "cmd_report m ls = do {
     let d = read_results ls [];
     let baselines = read_baselines ls;
     cat \<leftarrow> catalogue_dict (RMUTANTS m) [];
     new_ids \<leftarrow> ids_of (RNEW m);
     xs \<leftarrow> ids_of (RMUTANTS m);
     let order = report_order xs d;
     st \<leftarrow> those (map (\<lambda>i. map_option (Pair i) (stale cat d i)) order);
     let killed = killed_ids d order;
     Some \<lparr>rp_baseline = (if baselines = [] then None else Some (last baselines)),
       rp_missing = filter (\<lambda>i. \<not> has d i) (map fst cat),
       rp_stale = map fst (filter snd st),
       rp_all = summarize d (REASONS m) order,
       rp_new = summarize d (REASONS m) (filter (\<lambda>i. i \<in> set new_ids) order),
       rp_ported = summarize d (REASONS m) (filter (\<lambda>i. i \<notin> set new_ids) order),
       rp_suites = per_suite d killed,
       rp_late = map (\<lambda>i. (i, suites_of d i, r_desc (the (map_of d i)))) (late d killed),
       rp_listed = listed d (REASONS m) order,
       rp_contradictions = contradictions d (REASONS m)\<rparr> }"

section \<open>What the report counts\<close>

text \<open>The last result of a mutant in the file.\<close>

definition results_in :: "report_line list \<Rightarrow> result list" where
  "results_in ls = concat (map (\<lambda>l. case l of ResultLine r \<Rightarrow> [r] | _ \<Rightarrow> []) ls)"

definition last_result :: "report_line list \<Rightarrow> string \<Rightarrow> result option" where
  "last_result ls i = find (\<lambda>r. r_id r = i) (rev (results_in ls))"

lemma results_in_simps [simp]: "results_in [] = []" "results_in (ResultLine r # ls) = r # results_in ls"
  "results_in (BaseLine b # ls) = results_in ls" "results_in (OtherLine # ls) = results_in ls"
  by (simp_all add: results_in_def)

lemma find_append: "find P (xs @ ys) = (case find P xs of None \<Rightarrow> find P ys | Some x \<Rightarrow> Some x)"
  by (induction xs) simp_all

lemma read_results_last:
  "map_of (read_results ls d) i = (case last_result ls i of None \<Rightarrow> map_of d i | Some r \<Rightarrow> Some r)"
proof (induction ls d rule: read_results.induct)
  case (2 r ls d)
  then show ?case by (simp add: last_result_def find_append split: option.split)
qed (simp_all add: last_result_def)

lemma read_results_distinct: "distinct (map fst d) \<Longrightarrow> distinct (map fst (read_results ls d))"
  by (induction ls d rule: read_results.induct) (simp_all add: distinct_dict_set)

lemma report_order_props:
  assumes "distinct xs" "distinct (map fst d)"
  shows "distinct (report_order xs d)" "i \<in> set (report_order xs d) \<longleftrightarrow> map_of d i \<noteq> None"
  using assms by (auto simp: report_order_def has_def distinct_map_filter map_of_eq_None_iff)

text \<open>The results, looked up; the order of the report has them all.\<close>

definition has_status :: "report_line list \<Rightarrow> status \<Rightarrow> string \<Rightarrow> bool" where
  "has_status ls st i \<longleftrightarrow> map_option r_status (last_result ls i) = Some st"

lemma final_result: "map_of (read_results ls []) i = last_result ls i"
  by (simp add: read_results_last split: option.split)

lemma by_status_last:
  assumes "list_all (\<lambda>i. last_result ls i \<noteq> None) xs"
  shows "by_status (read_results ls []) xs st = filter (has_status ls st) xs"
  using assms by (auto simp: by_status_def status_of_def final_result has_status_def list_all_iff intro!: filter_cong)

lemma status_counts_last:
  assumes "list_all (\<lambda>i. last_result ls i \<noteq> None) xs"
  shows "list_all (\<lambda>(st, n). n = length (filter (has_status ls st) xs)) (status_counts (read_results ls []) xs)"
  by (auto simp: status_counts_def list_all_iff by_status_last [OF assms])

lemma split_length: "length (filter P xs) + length (filter (\<lambda>x. \<not> P x) xs) = length xs"
  by (induction xs) simp_all

definition total_of :: "summary option \<Rightarrow> nat" where
  "total_of s = (case s of None \<Rightarrow> 0 | Some s \<Rightarrow> s_total s)"

lemma total_summarize: "total_of (summarize d eq xs) = length xs"
  by (simp add: total_of_def summarize_def Let_def)

lemma cmd_report_Some:
  assumes "cmd_report m ls = Some rp"
  obtains xs new_ids where "ids_of (RMUTANTS m) = Some xs" "ids_of (RNEW m) = Some new_ids"
    "rp_all rp = summarize (read_results ls []) (REASONS m) (report_order xs (read_results ls []))"
    "rp_new rp = summarize (read_results ls []) (REASONS m) (filter (\<lambda>i. i \<in> set new_ids) (report_order xs (read_results ls [])))"
    "rp_ported rp = summarize (read_results ls []) (REASONS m) (filter (\<lambda>i. i \<notin> set new_ids) (report_order xs (read_results ls [])))"
    "rp_missing rp = filter (\<lambda>i. \<not> has (read_results ls []) i) (map fst (the (catalogue_dict (RMUTANTS m) [])))"
  using assms unfolding cmd_report_def Let_def
  by (auto simp: bind_eq_Some_conv)

lemma those_ids: "those (map f xs) = Some ys \<Longrightarrow> map Some ys = map f xs"
  by (induction xs arbitrary: ys) (auto split: option.splits)

lemma ids_distinct: "ids_of ms = Some xs \<Longrightarrow> distinct (map m_id ms) \<Longrightarrow> distinct xs"
  using those_ids [of m_id ms xs] by (metis distinct_map ids_of_def)

lemma report_order_all:
  assumes "ids_of (RMUTANTS m) = Some xs" "distinct (map m_id (RMUTANTS m))"
  shows "distinct (report_order xs (read_results ls []))" "set (report_order xs (read_results ls [])) = {i. last_result ls i \<noteq> None}"
  using report_order_props [OF ids_distinct [OF assms] read_results_distinct [of "[]" ls]] final_result by auto

lemma counts_parts:
  assumes "cmd_report m ls = Some rp" and "distinct (map m_id (RMUTANTS m))"
  shows "\<exists>order. distinct order \<and> set order = {i. last_result ls i \<noteq> None}
    \<and> total_of (rp_all rp) = length order \<and> total_of (rp_new rp) + total_of (rp_ported rp) = length order
    \<and> list_all (\<lambda>(st, n). n = length (filter (has_status ls st) order)) (case rp_all rp of None \<Rightarrow> [] | Some s \<Rightarrow> s_counts s)"
proof -
  let ?d = "read_results ls []"
  obtain xs new_ids where r: "ids_of (RMUTANTS m) = Some xs" "rp_all rp = summarize ?d (REASONS m) (report_order xs ?d)"
    "rp_new rp = summarize ?d (REASONS m) (filter (\<lambda>i. i \<in> set new_ids) (report_order xs ?d))"
    "rp_ported rp = summarize ?d (REASONS m) (filter (\<lambda>i. i \<notin> set new_ids) (report_order xs ?d))"
    by (rule cmd_report_Some [OF assms(1)])
  note order = report_order_all [OF r(1) assms(2), of ls]
  have "list_all (\<lambda>i. last_result ls i \<noteq> None) (report_order xs ?d)" unfolding list_all_iff order(2) by simp
  from status_counts_last [OF this]
  have "list_all (\<lambda>(st, n). n = length (filter (has_status ls st) (report_order xs ?d))) (case rp_all rp of None \<Rightarrow> [] | Some s \<Rightarrow> s_counts s)"
    unfolding r(2) summarize_def Let_def by simp
  moreover have "total_of (rp_all rp) = length (report_order xs ?d)" "total_of (rp_new rp) + total_of (rp_ported rp) = length (report_order xs ?d)"
    unfolding r(2-4) total_summarize by (rule refl, rule split_length)
  ultimately show ?thesis using order by blast
qed


text \<open>A mutant whose last result lowers the score: neither killed, nor without result by a compile error, nor a
  survivor listed as equivalent.\<close>

definition lowers_score :: "report_mod \<Rightarrow> report_line list \<Rightarrow> string \<Rightarrow> bool" where
  "lowers_score m ls i \<longleftrightarrow>
     last_result ls i \<noteq> None \<and> \<not> has_status ls KILLED i \<and> \<not> has_status ls COMPILE_ERROR i \<and> \<not> (has_status ls SURVIVED i \<and> has (REASONS m) i)"

lemma count_parts:
  assumes "list_all (\<lambda>i. last_result ls i \<noteq> None) xs"
  shows "length xs = length (filter (has_status ls KILLED) xs) + length (filter (has_status ls COMPILE_ERROR) xs)
    + length (filter (\<lambda>i. has_status ls SURVIVED i \<and> has (REASONS m) i) xs) + length (filter (lowers_score m ls) xs)"
  using assms by (induction xs) (auto simp: lowers_score_def has_status_def)

lemma score_parts:
  assumes "cmd_report m ls = Some rp" and "distinct (map m_id (RMUTANTS m))" and "rp_all rp = Some s"
  shows "s_denom s = int (s_killed s) + int (card {i. lowers_score m ls i})
    \<and> (s_denom s = int (s_killed s) \<longleftrightarrow> \<not> (\<exists>i. lowers_score m ls i))"
proof -
  let ?d = "read_results ls []"
  obtain xs new_ids where r: "ids_of (RMUTANTS m) = Some xs" "rp_all rp = summarize ?d (REASONS m) (report_order xs ?d)"
    by (rule cmd_report_Some [OF assms(1)])
  let ?order = "report_order xs ?d"
  note order = report_order_all [OF r(1) assms(2), of ls]
  have all: "list_all (\<lambda>i. last_result ls i \<noteq> None) ?order" unfolding list_all_iff order(2) by simp
  have s: "s_killed s = length (filter (has_status ls KILLED) ?order)"
    "s_denom s = int (length ?order) - int (length (filter (\<lambda>i. has_status ls SURVIVED i \<and> has (REASONS m) i) ?order))
       - int (length (filter (has_status ls COMPILE_ERROR) ?order))"
    using assms(3) r(2) by (auto simp: summarize_def Let_def by_status_last [OF all] conj_commute split: if_splits)
  have "lowers_score m ls i \<Longrightarrow> i \<in> set ?order" for i unfolding order(2) lowers_score_def by blast
  then have "filter (lowers_score m ls) ?order = [] \<longleftrightarrow> \<not> (\<exists>i. lowers_score m ls i)"
    unfolding filter_empty_conv by blast
  moreover have "{i. lowers_score m ls i} = set (filter (lowers_score m ls) ?order)"
    using order(2) by (auto simp: lowers_score_def)
  then have "card {i. lowers_score m ls i} = length (filter (lowers_score m ls) ?order)"
    using distinct_card [OF distinct_filter [OF order(1)], of "lowers_score m ls"] by (simp only:)
  ultimately show ?thesis using s count_parts [OF all, of m] by simp
qed

text \<open>C21. The score is right: the denominator minus the killed mutants is the number of the mutants whose last result lowers
  the score, so that the score is full exactly when there is none.\<close>

theorem report_score:
  assumes "cmd_report m ls = Some rp" and "distinct (map m_id (RMUTANTS m))" and "rp_all rp = Some s"
  shows "s_denom s = int (s_killed s) + int (card {i. lowers_score m ls i})
    \<and> (s_denom s = int (s_killed s) \<longleftrightarrow> \<not> (\<exists>i. lowers_score m ls i))"
  by (rule score_parts [OF assms])

text \<open>With a complete catalogue, the report is always written.\<close>

lemma ids_total: "list_all complete ms \<Longrightarrow> \<exists>xs. ids_of ms = Some xs"
  by (induction ms) (auto simp: ids_of_def complete_def)

lemma catalogue_dict_total:
  "list_all complete ms \<Longrightarrow> list_all (\<lambda>(i, m). m_edits m \<noteq> None) d \<Longrightarrow>
   \<exists>d'. catalogue_dict ms d = Some d' \<and> list_all (\<lambda>(i, m). m_edits m \<noteq> None) d'"
proof (induction ms d rule: catalogue_dict.induct)
  case (2 m ms d)
  obtain i where i: "m_id m = Some i" using 2(2) by (auto simp: complete_def)
  have "m_edits m \<noteq> None" using 2(2) by (cases "m_edits m") (auto simp: complete_def edits_of_def)
  then have "list_all (\<lambda>(i, m). m_edits m \<noteq> None) (dict_set i m d)"
    using 2(3) by (induction i m d rule: dict_set.induct) auto
  then show ?case using 2(1) [OF i] 2(2) by (simp add: i)
qed auto

lemma stale_total:
  assumes "list_all (\<lambda>(i, m). m_edits m \<noteq> None) cat"
  shows "\<exists>b. stale cat d i = Some b"
proof (cases "map_of cat i")
  case (Some m)
  then have "m_edits m \<noteq> None" using assms by (auto simp: list_all_iff dest!: map_of_SomeD)
  with Some show ?thesis by (auto simp: stale_def)
next
  case None
  then have "stale cat d i = Some False" by (simp add: stale_def)
  then show ?thesis by blast
qed

lemma those_total: "(\<And>x. f x \<noteq> None) \<Longrightarrow> \<exists>ys. those (map f xs) = Some ys"
proof (induction xs)
  case (Cons x xs)
  then show ?case using Cons.prems [of x] by fastforce
qed simp

lemma bind_total: "x = Some y \<Longrightarrow> \<exists>z. Option.bind x (\<lambda>y. Some (g y)) = Some z"
  by simp

lemma cmd_report_total:
  assumes "list_all complete (RMUTANTS m)" "list_all complete (RNEW m)"
  shows "\<exists>rp. cmd_report m ls = Some rp"
proof -
  obtain cat where c: "catalogue_dict (RMUTANTS m) [] = Some cat" "list_all (\<lambda>(i, m). m_edits m \<noteq> None) cat"
    using catalogue_dict_total [OF assms(1), of "[]"] by auto
  obtain xs ys where i: "ids_of (RMUTANTS m) = Some xs" "ids_of (RNEW m) = Some ys" using ids_total assms by blast
  have "map_option (Pair i) (stale cat (read_results ls []) i) \<noteq> None" for i
    using stale_total [OF c(2), of "read_results ls []" i] by auto
  from those_total [OF this] obtain st where "those (map (\<lambda>i. map_option (Pair i) (stale cat (read_results ls []) i)) (report_order xs (read_results ls []))) = Some st"
    by (rule exE)
  then show ?thesis unfolding cmd_report_def Let_def c(1) i bind.bind_lunit by (rule bind_total)
qed

text \<open>Two mutants, one of them new and equivalent; the first was run twice.\<close>

definition report_sample :: report_mod where
  "report_sample =
     \<lparr>RMUTANTS = [sample_mutant\<lparr>m_id := Some ''A01''\<rparr>, sample_mutant\<lparr>m_id := Some ''B01''\<rparr>],
      RNEW = [sample_mutant\<lparr>m_id := Some ''B01''\<rparr>], REASONS = [(''B01'', ''no change'')]\<rparr>"

definition sample_result :: "string \<Rightarrow> status \<Rightarrow> result" where
  "sample_result i st =
     (let a = analyse Test 0 [] False 0 in
      \<lparr>r_id = i, r_status = st, r_test = a, r_test_all = a, killed_by_test = False, r_desc = ''a bug'', r_edits = edits_of sample_mutant\<rparr>)"

definition sample_lines :: "report_line list" where
  "sample_lines = [ResultLine (sample_result ''A01'' SURVIVED), OtherLine, ResultLine (sample_result ''B01'' SURVIVED),
     ResultLine (sample_result ''A01'' KILLED)]"

lemma sample_report: "\<exists>rp s. cmd_report report_sample sample_lines = Some rp \<and> rp_all rp = Some s \<and> s_denom s = 1 \<and> s_killed s = 1"
  "distinct (map m_id (RMUTANTS report_sample))"
proof -
  have a: "r_id (sample_result i st) = i" "r_status (sample_result i st) = st" for i st by (simp_all add: sample_result_def Let_def)
  have b: "ids_of (RMUTANTS report_sample) = Some [''A01'', ''B01'']" "ids_of (RNEW report_sample) = Some [''B01'']" by code_simp+
  have c: "read_results sample_lines [] = [(''A01'', sample_result ''A01'' KILLED), (''B01'', sample_result ''B01'' SURVIVED)]"
    by (simp add: sample_lines_def a)
  show "distinct (map m_id (RMUTANTS report_sample))" by code_simp
  show "\<exists>rp s. cmd_report report_sample sample_lines = Some rp \<and> rp_all rp = Some s \<and> s_denom s = 1 \<and> s_killed s = 1"
  proof -
    let ?d = "[(''A01'', sample_result ''A01'' KILLED), (''B01'', sample_result ''B01'' SURVIVED)]"
    have o: "report_order [''A01'', ''B01''] ?d = [''A01'', ''B01'']"
      by (simp add: report_order_def has_def)
    have cat: "catalogue_dict (RMUTANTS report_sample) [] =
        Some [(''A01'', sample_mutant\<lparr>m_id := Some ''A01''\<rparr>), (''B01'', sample_mutant\<lparr>m_id := Some ''B01''\<rparr>)]"
      by (simp add: report_sample_def)
    have st: "\<exists>b. stale [(''A01'', sample_mutant\<lparr>m_id := Some ''A01''\<rparr>), (''B01'', sample_mutant\<lparr>m_id := Some ''B01''\<rparr>)] ?d i = Some b" for i
      by (simp add: stale_def sample_mutant_def) (metis (full_types))
    obtain b1 where s1: "stale [(''A01'', sample_mutant\<lparr>m_id := Some ''A01''\<rparr>), (''B01'', sample_mutant\<lparr>m_id := Some ''B01''\<rparr>)] ?d ''A01'' = Some b1"
      using st by blast
    obtain b2 where s2: "stale [(''A01'', sample_mutant\<lparr>m_id := Some ''A01''\<rparr>), (''B01'', sample_mutant\<lparr>m_id := Some ''B01''\<rparr>)] ?d ''B01'' = Some b2"
      using st by blast
    have "summarize ?d (REASONS report_sample) [''A01'', ''B01''] = Some \<lparr>s_total = 2, s_counts = [(KILLED, 1), (SURVIVED, 1)],
        s_equivalent = 1, s_killed = 1, s_timeouts = 0, s_denom = 1\<rparr>"
      by (simp add: summarize_def by_status_def status_of_def status_counts_def STATUSES_def has_def report_sample_def a)
    then show ?thesis using b o cat s1 s2 by (cases b1; cases b2; simp add: cmd_report_def c Let_def)
  qed
qed

theorem report_score_witness: "\<not> (\<exists>i. lowers_score report_sample sample_lines i)"
proof -
  obtain rp s where r: "cmd_report report_sample sample_lines = Some rp" "rp_all rp = Some s" "s_denom s = 1" "s_killed s = 1"
    using sample_report(1) by blast
  have "s_denom s = int (s_killed s)" using r(3,4) by simp
  then show ?thesis using report_score [OF r(1) sample_report(2) r(2)] by blast
qed


end
