(* ===== verification/Driver.thy ===== *)
theory Driver
  imports Report
begin

text \<open>
  The outer layer of \<^verbatim>\<open>mutate.py\<close>: the child process of a build and its group (\<open>run_cmd\<close>, \<open>kill_group\<close>), and \<open>main\<close>, which
  picks the command. The operating system is a parameter, and so is the text the decoder makes of a build's output, which never raises
  with \<open>errors="replace"\<close>.
\<close>

section \<open>The child process\<close>

text \<open>\<open>proc.communicate\<close> returns the output, times out, or is left by an exception such as an interrupt.\<close>

datatype comm = Output bytes | Expired | Left

text \<open>\<open>popen\<close> is \<open>None\<close> when there is no such program, \<open>killpg\<close> when the group has no process.\<close>

record 'w os =
  popen :: "string list \<Rightarrow> 'w \<Rightarrow> 'w option"
  communicate :: "nat option \<Rightarrow> 'w \<Rightarrow> 'w \<times> comm"
  killpg :: "'w \<Rightarrow> 'w option"
  returncode :: "'w \<Rightarrow> int"
  elapsed :: "'w \<Rightarrow> nat"
  decoded :: "bytes \<Rightarrow> string"

definition kill_group :: "'w os \<Rightarrow> 'w \<Rightarrow> 'w" where
  "kill_group os w = (case killpg os w of None \<Rightarrow> w | Some w' \<Rightarrow> w')"

definition run_cmd :: "'w os \<Rightarrow> string list \<Rightarrow> nat \<Rightarrow> 'w \<Rightarrow> 'w \<times> (int \<times> string \<times> bool \<times> nat) option" where
  "run_cmd os cmd timeout w =
     (case popen os cmd w of
        None \<Rightarrow> (w, None)
      | Some w0 \<Rightarrow>
          (case communicate os (Some timeout) w0 of
             (w1, Output out) \<Rightarrow> (w1, Some (returncode os w1, decoded os out, False, elapsed os w1))
           | (w1, Expired) \<Rightarrow>
               (case communicate os None (kill_group os w1) of
                  (w2, Output out) \<Rightarrow> (w2, Some (returncode os w2, decoded os out, True, elapsed os w2))
                | (w2, _) \<Rightarrow> (w2, None))
           | (w1, Left) \<Rightarrow> (fst (communicate os None (kill_group os w1)), None)))"

text \<open>
  What the system promises of a process group, with \<open>live\<close> its processes: a kill of the group leaves none, and so does the
  refusal to kill an empty one; waiting starts none when there is none.
\<close>

definition group_law :: "'w os \<Rightarrow> ('w \<Rightarrow> nat set) \<Rightarrow> bool" where
  "group_law os live \<longleftrightarrow>
     (\<forall>w. case killpg os w of None \<Rightarrow> live w = {} | Some w' \<Rightarrow> live w' = {})
     \<and> (\<forall>t w. live w = {} \<longrightarrow> live (fst (communicate os t w)) = {})"

lemma kill_group_empty:
  assumes "group_law os live"
  shows "live (kill_group os w) = {}"
proof -
  have "case killpg os w of None \<Rightarrow> live w = {} | Some w' \<Rightarrow> live w' = {}" using assms unfolding group_law_def by (rule conjunct1 [THEN spec])
  then show ?thesis by (simp add: kill_group_def split: option.splits)
qed


text \<open>A build in its time reports what it wrote, and is not reported as late.\<close>

theorem run_cmd_in_time:
  assumes "popen os cmd w = Some w0" and "communicate os (Some timeout) w0 = (w1, Output out)"
  shows "run_cmd os cmd timeout w = (w1, Some (returncode os w1, decoded os out, False, elapsed os w1))"
  using assms by (simp add: run_cmd_def)

section \<open>The command line\<close>

record main_args =
  g_tree :: "string option"
  g_results :: "string option"
  g_report :: "string option"
  g_check :: bool
  g_options :: run_options
  g_build :: run_args

text \<open>How the script ends: the report, an error of usage, the problems of \<open>--check\<close>, what stopped a run, or an exception
  that left a build (for an interrupt the script says so instead of a traceback).\<close>

datatype main_end = Reported "report option" | Usage string | Checked "stop + mutant list" | RunEnded "stop option"
  | BuildLeft

definition given :: "string option \<Rightarrow> bool" where
  "given x \<longleftrightarrow> (case x of None \<Rightarrow> False | Some s \<Rightarrow> s \<noteq> [])"

text \<open>The results file is given as its lines, for the run and for the report; \<open>absp\<close> (\<open>os.path.abspath\<close>) resolves the tree.\<close>

definition mutate_main :: "main_args \<Rightarrow> catalogue \<Rightarrow> report_mod \<Rightarrow> report_line list \<Rightarrow> (string \<Rightarrow> string) \<Rightarrow> bool \<Rightarrow> bool \<Rightarrow> 'i option \<Rightarrow> 'i
    \<Rightarrow> world os \<Rightarrow> string \<Rightarrow> world \<Rightarrow> result_line list \<Rightarrow> world \<times> result_line list \<times> main_end" where
  "mutate_main a c rm lines absp git isdir mark identity os tmp w results =
     (if given (g_report a) then (w, results, Reported (cmd_report rm lines))
      else if \<not> given (g_tree a) then (w, results, Usage ''--tree is required'')
      else
        let tree = absp (the (g_tree a)) in
        if g_check a then (w, results, Checked (cmd_check c (ids (g_options a)) tree (files w)))
        else if \<not> given (g_results a) then (w, results, Usage ''--results is required to run mutants'')
        else
          case cmd_run c (g_options a) git isdir mark identity (run_cmd os) tmp (g_build a) tree w results of
            (w', results', Some (Stopped Interrupted)) \<Rightarrow> (w', results', BuildLeft)
          | (w', results', st) \<Rightarrow> (w', results', RunEnded st))"

fun exit_status :: "main_end \<Rightarrow> nat" where
  "exit_status (Reported r) = (if r = None then 1 else 0)"
| "exit_status (Usage _) = 2"
| "exit_status (Checked (Inl _)) = 1"
| "exit_status (Checked (Inr _)) = 0"
| "exit_status (RunEnded st) = (if st = None then 0 else 1)"
| "exit_status BuildLeft = 1"

text \<open>A system whose processes leave the files of the tree alone, the cache apart.\<close>

definition tame :: "world os \<Rightarrow> bool" where
  "tame os \<longleftrightarrow> (\<forall>cmd w w'. popen os cmd w = Some w' \<longrightarrow> files w' = files w)
     \<and> (\<forall>t w. files (fst (communicate os t w)) = files w) \<and> (\<forall>w w'. killpg os w = Some w' \<longrightarrow> files w' = files w)"

lemma run_cmd_keeps: "tame os \<Longrightarrow> keeps_files (run_cmd os)"
proof -
  assume t: "tame os"
  have k: "files (kill_group os w) = files w" for w using t by (auto simp: tame_def kill_group_def split: option.split)
  have c: "files w' = files w" if "communicate os x w = (w', y)" for x w w' y using t that by (metis fst_conv tame_def)
  show ?thesis
    using t k c by (auto simp: keeps_files_def run_cmd_def tame_def split: option.split prod.split comm.split)
qed

lemma cmd_run_keeps:
  assumes "keeps_files b" and "files w (marker_path tree) = None"
  shows "files (fst (cmd_run c opt git isdir mark identity b tmp a tree w results)) = files w"
proof -
  obtain fs r where p: "prepare_run c (ids opt) git (allow_git opt) (resume opt) tree results (files w) = (fs, r)" by fastforce
  have rec: "recover_in_progress tree (files w) = (files w, True)" using assms(2) by (simp add: recover_in_progress_def)
  have fs: "fs = files w"
  proof (cases "check_tree (files w) git (allow_git opt) tree")
    case None
    from prepare_run_files [OF this, of c "ids opt" "resume opt" results] show ?thesis by (simp add: p rec)
  next
    case (Some e)
    then show ?thesis using p by (simp add: prepare_run_def)
  qed
  have loop: "files (fst (run_loop b tmp a tree snap ms w1 rs)) = files w" if "files w1 = files w" for snap ms w1 rs
    using run_loop_keeps [OF assms(1), of w1 tree] that assms(2) by simp
  obtain w2 br where br: "run_baseline b a w = (w2, br)" by fastforce
  have w2: "files w2 = files w" using run_baseline_keeps [OF assms(1), of a w] br by simp
  have w: "w\<lparr>files := files w\<rparr> = w" by simp
  show ?thesis
    by (cases r; cases br) (simp_all add: cmd_run_def p fs w Let_def loop br w2)
qed


text \<open>A system whose builds are interrupted, and a tree with one mutant.\<close>

definition interrupting :: "'w os" where
  "interrupting = \<lparr>popen = (\<lambda>_ w. Some w), communicate = (\<lambda>_ w. (w, Left)), killpg = Some, returncode = (\<lambda>_. 0), elapsed = (\<lambda>_. 0),
     decoded = (\<lambda>_. [])\<rparr>"

definition sample_main :: main_args where
  "sample_main = \<lparr>g_tree = Some ''/t'', g_results = Some ''r'', g_report = None, g_check = False, g_options = sample_options,
     g_build = sample_run_args\<rparr>"


text \<open>A group that is killed by \<open>killpg\<close>; the state is its processes.\<close>

definition stuck :: "nat set os" where
  "stuck = \<lparr>popen = (\<lambda>_ _. Some {1, 2}), communicate = (\<lambda>t w. (w, if t = None then Output [] else Expired)), killpg = (\<lambda>_. Some {}),
     returncode = (\<lambda>_. - 9), elapsed = (\<lambda>_. 3000), decoded = (\<lambda>_. [])\<rparr>"


theorem run_cmd_in_time_witness:
  "run_cmd (stuck\<lparr>communicate := \<lambda>_ w. ({}, Output [65])\<rparr>) [''zig''] 300 {} = ({}, Some (- 9, [], False, 3000))"
  using run_cmd_in_time [of "stuck\<lparr>communicate := \<lambda>_ w. ({}, Output [65])\<rparr>" "[''zig'']" "{}" "{1, 2}" 300 "{}" "[65]"]
  by (simp add: stuck_def)

end
