(* ===== verification/Catalogue.thy ===== *)
theory Catalogue
  imports Report
begin

text \<open>
  The mutants of \<^verbatim>\<open>tools/mutation/mutants.py\<close>, with that file's names and groups, and that the driver of
  \<^verbatim>\<open>mutate.py\<close> accepts them. The texts are ASCII but for an arrow in seven anchors; an edit is a pair of sequences of
  code points.
\<close>

section \<open>Mutants and edits\<close>

definition tx :: "string \<Rightarrow> codepoints" where
  "tx s = map of_char s"

definition sub :: "string \<Rightarrow> string \<Rightarrow> edit" where
  "sub orig repl = [tx orig, tx repl]"

text \<open>An edit in front of an arrow and the rest of a comment.\<close>

definition sub_arrow :: "string \<Rightarrow> string \<Rightarrow> string \<Rightarrow> edit" where
  "sub_arrow orig repl rest = [tx orig @ [0x2192] @ tx rest, tx repl @ [0x2192] @ tx rest]"

definition mk :: "string \<Rightarrow> string \<Rightarrow> string \<Rightarrow> edit list \<Rightarrow> mutant" where
  "mk i path desc edits = \<lparr>m_id = Some i, m_file = Some path, m_desc = Some desc, m_edits = Some edits\<rparr>"

section \<open>The table\<close>

definition EXEC_ZIG :: string where "EXEC_ZIG = ''src/cpu/exec_i.zig''"

definition CPU_ZIG :: string where "CPU_ZIG = ''src/cpu.zig''"

definition STATE_ZIG :: string where "STATE_ZIG = ''src/cpu/state.zig''"

definition CSR_ZIG :: string where "CSR_ZIG = ''src/instructions/zicsr.zig''"

definition M_ZIG :: string where "M_ZIG = ''src/instructions/rv32m.zig''"

definition A_ZIG :: string where "A_ZIG = ''src/instructions/rv32a.zig''"

definition ZBA_ZIG :: string where "ZBA_ZIG = ''src/instructions/zba.zig''"

definition ZBB_ZIG :: string where "ZBB_ZIG = ''src/instructions/zbb.zig''"

definition ZBS_ZIG :: string where "ZBS_ZIG = ''src/instructions/zbs.zig''"

definition REG_ZIG :: string where "REG_ZIG = ''src/decoders/registry.zig''"

definition BF_ZIG :: string where "BF_ZIG = ''src/decoders/bitfields.zig''"

definition BR_ZIG :: string where "BR_ZIG = ''src/decoders/branch.zig''"

definition IMM_ZIG :: string where "IMM_ZIG = ''src/instructions/rv32i/rv32c/imm.zig''"

definition EXP_ZIG :: string where "EXP_ZIG = ''src/instructions/rv32i/rv32c/expand.zig''"

definition RVC_ZIG :: string where "RVC_ZIG = ''src/instructions/rv32i/rv32c.zig''"

definition MAIN_ZIG :: string where "MAIN_ZIG = ''src/main.zig''"

definition ARGS_ZIG :: string where "ARGS_ZIG = ''src/main/args.zig''"

definition LOADC_ZIG :: string where "LOADC_ZIG = ''src/main/load.zig''"

definition REPORT_ZIG :: string where "REPORT_ZIG = ''src/main/report.zig''"

definition DISASM_ZIG :: string where "DISASM_ZIG = ''src/main/disasm.zig''"

definition DUMP_ZIG :: string where "DUMP_ZIG = ''src/main/dump.zig''"

definition UNITS_ZIG :: string where "UNITS_ZIG = ''src/main/units.zig''"

definition HC_ZIG :: string where "HC_ZIG = ''src/hostcall.zig''"

definition LD_ZIG :: string where "LD_ZIG = ''src/loader.zig''"

definition S32_L :: string where "S32_L = ''@as(i32, @bitCast(rs1_val))''"
definition S32_R :: string where "S32_R = ''@as(i32, @bitCast(rs2_val))''"

definition S32 :: string where "S32 = S32_L @ '' < '' @ S32_R"
definition S32_LE :: string where "S32_LE = S32_L @ '' <= '' @ S32_R"

definition SC_CHECK :: string where "SC_CHECK = ''try self.checkWordAccess(addr);'' @ [CHR 0x0A] @ ''                    // reservation is guaranteed''"

definition STEP_ZERO :: string where "STEP_ZERO = ''self.regs[0] = 0;'' @ [CHR 0x0A] @ ''            const rs1_val''"

definition WRITE_REG :: string where "WRITE_REG = ''self.regs[reg] = value;'' @ [CHR 0x0A] @ ''            self.regs[0] = 0;''"

definition NEXT_PC :: string where "NEXT_PC = ''var next_pc: u32 = self.pc +% inst_size;''"

definition READ_WORD :: string where "READ_WORD = ''try self.checkWordAccess(addr);'' @ [CHR 0x0A] @ ''            return std.mem.readInt(u32''"

definition WRITE_WORD :: string where "WRITE_WORD = ''try self.checkWordAccess(addr);'' @ [CHR 0x0A] @ ''            std.mem.writeInt(u32''"

definition DECODE_CACHED :: string where "DECODE_CACHED = ''if (slot.raw != raw) slot.* = try decodeFn(raw);''"

text \<open>A private copy of \<open>checkWordAccess()\<close> for one method, with a faulty check.\<close>

definition inline_word_check :: "nat \<Rightarrow> string \<Rightarrow> string \<Rightarrow> string" where
  \<open>inline_word_check align bound_op tail =
     ''if (addr % '' @ dec_nat align @ '' != 0) return error.MisalignedAccess;'' @ [CHR 0x0A]
     @ ''            if (addr '' @ bound_op @ '' self.memSize() - 4) return error.AddressOutOfBounds;'' @ [CHR 0x0A]
     @ ''            '' @ tail\<close>

text \<open>Exec_i.zig (RV32I execute)\<close>

definition PORTED_1 :: "mutant list" where
  \<open>PORTED_1 =
    [mk ''I01'' EXEC_ZIG ''SRA -> logical shift''
       [sub ''@bitCast(@as(i32, @bitCast(rs1_val)) >> @truncate(rs2_val & 0x1F))'' ''rs1_val >> @truncate(rs2_val & 0x1F)''],
     mk ''I02'' EXEC_ZIG ''SRAI -> logical shift''
       [sub ''@bitCast(@as(i32, @bitCast(rs1_val)) >> @truncate(imm_u & 0x1F))'' ''rs1_val >> @truncate(imm_u & 0x1F)''],
     mk ''I03'' EXEC_ZIG ''SLT signed -> unsigned compare''
       [sub (''.SLT => cpu.writeReg(rd, if ('' @ S32) ''.SLT => cpu.writeReg(rd, if (rs1_val < rs2_val''],
     mk ''I04'' EXEC_ZIG ''SLTI signed -> unsigned compare''
       [sub ''if (@as(i32, @bitCast(rs1_val)) < imm)'' ''if (rs1_val < imm_u)''],
     mk ''I05'' EXEC_ZIG ''SLTIU compares against imm without sign-extension''
       [sub ''.SLTIU => cpu.writeReg(rd, if (rs1_val < imm_u)'' ''.SLTIU => cpu.writeReg(rd, if (rs1_val < (imm_u & 0xFFF))''],
     mk ''I06'' EXEC_ZIG ''SLL shift mask 0x1F -> 0x3F''
       [sub ''.SLL => cpu.writeReg(rd, rs1_val << @truncate(rs2_val & 0x1F))'' ''.SLL => cpu.writeReg(rd, rs1_val << @truncate(rs2_val & 0x3F))''],
     mk ''I07'' EXEC_ZIG ''SRL shift mask 0x1F -> 0x0F''
       [sub ''.SRL => cpu.writeReg(rd, rs1_val >> @truncate(rs2_val & 0x1F))'' ''.SRL => cpu.writeReg(rd, rs1_val >> @truncate(rs2_val & 0x0F))''],
     mk ''I08'' EXEC_ZIG ''BGE >= -> >''
       [sub ''>= @as(i32'' ''> @as(i32''],
     mk ''I09'' EXEC_ZIG ''BLTU unsigned -> signed''
       [sub ''if (rs1_val < rs2_val) next_pc'' (''if ('' @ S32 @ '') next_pc'')],
     mk ''I10'' EXEC_ZIG ''BGEU >= -> >''
       [sub ''rs1_val >= rs2_val'' ''rs1_val > rs2_val''],
     mk ''I11'' EXEC_ZIG ''BLT < -> <=''
       [sub (''if ('' @ S32 @ '') next_pc'') (''if ('' @ S32_LE @ '') next_pc'')],
     mk ''I12'' EXEC_ZIG ''BGE signed -> unsigned''
       [sub ''@as(i32, @bitCast(rs1_val)) >= @as(i32, @bitCast(rs2_val))'' ''rs1_val >= rs2_val''],
     mk ''I13'' EXEC_ZIG ''BNE target relative to next_pc instead of pc''
       [sub ''if (rs1_val != rs2_val) next_pc.* = cpu.pc +% imm_u'' ''if (rs1_val != rs2_val) next_pc.* = next_pc.* +% imm_u''],
     mk ''I14'' EXEC_ZIG ''JALR missing & 0xFFFFFFFE''
       [sub ''(rs1_val +% imm_u) & 0xFFFFFFFE'' ''(rs1_val +% imm_u)''],
     mk ''I15'' EXEC_ZIG ''JALR writes rd before computing target (rd==rs1 case)''
       [sub ''const return_addr = cpu.pc +% inst_size;'' (''const return_addr = cpu.pc +% inst_size;'' @ [CHR 0x0A] @ ''            cpu.writeReg(rd, return_addr);'')],
     mk ''I16'' EXEC_ZIG ''JAL link = pc+4 instead of pc+inst_size''
       [sub ''cpu.writeReg(rd, cpu.pc +% inst_size);'' ''cpu.writeReg(rd, cpu.pc +% 4);'']]\<close>

text \<open>Exec_i.zig (RV32I execute)\<close>

definition PORTED_2 :: "mutant list" where
  \<open>PORTED_2 =
    [mk ''I17'' EXEC_ZIG ''JALR link = pc+4 instead of pc+inst_size''
       [sub ''const return_addr = cpu.pc +% inst_size;'' ''const return_addr = cpu.pc +% 4;''],
     mk ''I18'' EXEC_ZIG ''AUIPC uses next_pc instead of pc''
       [sub ''.AUIPC => cpu.writeReg(rd, cpu.pc +% imm_u)'' ''.AUIPC => cpu.writeReg(rd, next_pc.* +% imm_u)''],
     mk ''I19'' EXEC_ZIG ''LB zero-extends''
       [sub ''@bitCast(@as(i32, @as(i8, @bitCast(byte))))'' ''@as(u32, byte)''],
     mk ''I20'' EXEC_ZIG ''LH zero-extends''
       [sub ''@bitCast(@as(i32, @as(i16, @bitCast(half))))'' ''@as(u32, half)''],
     mk ''I21'' EXEC_ZIG ''LBU sign-extends''
       [sub ''cpu.writeReg(rd, @as(u32, byte));'' ''cpu.writeReg(rd, @bitCast(@as(i32, @as(i8, @bitCast(byte)))));''],
     mk ''I22'' EXEC_ZIG ''LHU sign-extends''
       [sub ''cpu.writeReg(rd, @as(u32, half));'' ''cpu.writeReg(rd, @bitCast(@as(i32, @as(i16, @bitCast(half)))));''],
     mk ''I23'' EXEC_ZIG ''SB stores a halfword (clobbers neighbour byte)''
       [sub ''try cpu.writeByte(addr, @truncate(rs2_val));'' ''try cpu.writeHalfword(addr, @truncate(rs2_val));''],
     mk ''I24'' EXEC_ZIG ''SH truncates to a byte (upper byte stored as 0)''
       [sub ''try cpu.writeHalfword(addr, @truncate(rs2_val));'' ''try cpu.writeHalfword(addr, @as(u8, @truncate(rs2_val)));''],
     mk ''I25'' EXEC_ZIG ''ADD non-wrapping (+% -> +)''
       [sub ''.ADD => cpu.writeReg(rd, rs1_val +% rs2_val)'' ''.ADD => cpu.writeReg(rd, rs1_val + rs2_val)''],
     mk ''I26'' EXEC_ZIG ''ANDI uses zero-extended 12-bit imm''
       [sub ''.ANDI => cpu.writeReg(rd, rs1_val & imm_u)'' ''.ANDI => cpu.writeReg(rd, rs1_val & (imm_u & 0xFFF))''],
     mk ''I27'' EXEC_ZIG ''ECALL returns .ebreak''
       [sub ''.ECALL => return .ecall,'' ''.ECALL => return .ebreak,''],
     mk ''I28'' EXEC_ZIG ''SLTU < -> <=''
       [sub ''.SLTU => cpu.writeReg(rd, if (rs1_val < rs2_val)'' ''.SLTU => cpu.writeReg(rd, if (rs1_val <= rs2_val)'']]\<close>

text \<open>Cpu.zig\<close>

definition PORTED_3 :: "mutant list" where
  \<open>PORTED_3 =
    [mk ''C01'' CPU_ZIG ''writeByte does not invalidate reservation''
       [sub (''self.memory[addr] = value;'' @ [CHR 0x0A] @ ''            self.invalidateReservation(addr);'') (''self.memory[addr] = value;'' @ [CHR 0x0A] @ ''            {}'')],
     mk ''C02'' CPU_ZIG ''writeHalfword does not invalidate reservation''
       [sub (''std.mem.writeInt(u16, self.memory[addr..][0..2], value, .little);'' @ [CHR 0x0A] @ ''            self.invalidateReservation(addr);'') (''std.mem.writeInt(u16, self.memory[addr..][0..2], value, .little);'' @ [CHR 0x0A] @ ''            {}'')],
     mk ''C03'' CPU_ZIG ''writeWord does not invalidate reservation''
       [sub (''std.mem.writeInt(u32, self.memory[addr..][0..4], value, .little);'' @ [CHR 0x0A] @ ''            self.invalidateReservation(addr);'') (''std.mem.writeInt(u32, self.memory[addr..][0..4], value, .little);'' @ [CHR 0x0A] @ ''            {}'')],
     mk ''C04'' CPU_ZIG ''invalidateReservation exact-address match instead of word match''
       [sub ''if ((addr & 0xFFFFFFFC) == res_addr) {'' ''if (addr == res_addr) {''],
     mk ''C05'' CPU_ZIG ''SC.W does not clear reservation (failure path; success path cleared by writeWord)''
       [sub (''self.writeReg(rd, 1); // failure'' @ [CHR 0x0A] @ ''                    }'' @ [CHR 0x0A] @ ''                    self.reservation = null;'') (''self.writeReg(rd, 1); // failure'' @ [CHR 0x0A] @ ''                    }'' @ [CHR 0x0A] @ ''                    {}'')],
     mk ''C06'' CPU_ZIG ''SC.W success path skips explicit reservation clear (early return)''
       [sub ''self.writeReg(rd, 0); // success'' (''self.writeReg(rd, 0);'' @ [CHR 0x0A] @ ''                        return; // success'')],
     mk ''C07'' CPU_ZIG ''LR.W does not set reservation''
       [sub ''self.reservation = addr;'' ''{}''],
     mk ''C08'' CPU_ZIG ''SC.W success/failure codes swapped''
       [sub ''self.writeReg(rd, 0); // success'' ''self.writeReg(rd, 1); // success'',
        sub ''self.writeReg(rd, 1); // failure'' ''self.writeReg(rd, 0); // failure''],
     mk ''C09'' CPU_ZIG ''AMO writes rd before memory write''
       [sub ''const old = try self.readWord(addr);'' (''const old = try self.readWord(addr);'' @ [CHR 0x0A] @ ''                    self.writeReg(rd, old);'')],
     mk ''C10'' CPU_ZIG ''AMO returns new value in rd''
       [sub ''self.writeReg(rd, old);'' ''self.writeReg(rd, rv32a.execute(op, old, rs2_val));''],
     mk ''C11'' CPU_ZIG ''fetch bound mem_size-2 -> mem_size-1''
       [sub ''if (self.pc > self.memSize() - 2) return error.PCOutOfBounds;'' ''if (self.pc > self.memSize() - 1) return error.PCOutOfBounds;''],
     mk ''C12'' CPU_ZIG ''fetch bound mem_size-4 -> mem_size-3''
       [sub ''if (self.pc > self.memSize() - 4) return error.PCOutOfBounds;'' ''if (self.pc > self.memSize() - 3) return error.PCOutOfBounds;''],
     mk ''C13'' CPU_ZIG ''fetch bound mem_size-4 -> mem_size-2 (32-bit fetch can overrun)''
       [sub ''if (self.pc > self.memSize() - 4) return error.PCOutOfBounds;'' ''if (self.pc > self.memSize() - 2) return error.PCOutOfBounds;''],
     mk ''C14'' CPU_ZIG ''fetch misaligned-PC check removed''
       [sub ''if (self.pc % 2 != 0) return error.MisalignedPC;'' ''{}''],
     mk ''C15'' CPU_ZIG ''readHalfword bound > -> >= (rejects last halfword)''
       [sub (''if (addr > self.memSize() - 2) return error.AddressOutOfBounds;'' @ [CHR 0x0A] @ ''            return std.mem.readInt(u16'') (''if (addr >= self.memSize() - 2) return error.AddressOutOfBounds;'' @ [CHR 0x0A] @ ''            return std.mem.readInt(u16'')],
     mk ''C16'' CPU_ZIG ''readHalfword alignment check removed''
       [sub (''pub fn readHalfword(self: *const Self, addr: u32) !u16 {'' @ [CHR 0x0A] @ ''            if (addr % 2 != 0) return error.MisalignedAccess;'') (''pub fn readHalfword(self: *const Self, addr: u32) !u16 {'' @ [CHR 0x0A] @ ''            {}'')]]\<close>

text \<open>Cpu.zig\<close>

definition PORTED_4 :: "mutant list" where
  \<open>PORTED_4 =
    [mk ''C17'' CPU_ZIG ''readWord alignment %4 -> %2 (re-targeted: private copy of the word check in readWord)''
       [sub READ_WORD (inline_word_check 2 ''>'' ''return std.mem.readInt(u32'')],
     mk ''C18'' CPU_ZIG ''readWord bound > -> >= (rejects last word; re-targeted: private copy in readWord)''
       [sub READ_WORD (inline_word_check 4 ''>='' ''return std.mem.readInt(u32'')],
     mk ''C19'' CPU_ZIG ''readByte bound >= -> > (off-by-one)''
       [sub (''pub fn readByte(self: *const Self, addr: u32) !u8 {'' @ [CHR 0x0A] @ ''            if (addr >= self.memSize())'') (''pub fn readByte(self: *const Self, addr: u32) !u8 {'' @ [CHR 0x0A] @ ''            if (addr > self.memSize())'')],
     mk ''C20'' CPU_ZIG ''writeByte bound >= -> > (off-by-one)''
       [sub (''pub fn writeByte(self: *Self, addr: u32, value: u8) !void {'' @ [CHR 0x0A] @ ''            if (addr >= self.memSize())'') (''pub fn writeByte(self: *Self, addr: u32, value: u8) !void {'' @ [CHR 0x0A] @ ''            if (addr > self.memSize())'')],
     mk ''C21'' CPU_ZIG ''writeHalfword alignment check removed''
       [sub (''pub fn writeHalfword(self: *Self, addr: u32, value: u16) !void {'' @ [CHR 0x0A] @ ''            if (addr % 2 != 0) return error.MisalignedAccess;'') (''pub fn writeHalfword(self: *Self, addr: u32, value: u16) !void {'' @ [CHR 0x0A] @ ''            {}'')],
     mk ''C22'' CPU_ZIG ''writeWord alignment %4 -> %2 (re-targeted: private copy of the word check in writeWord)''
       [sub WRITE_WORD (inline_word_check 2 ''>'' ''std.mem.writeInt(u32'')],
     mk ''C23'' CPU_ZIG ''writeWord bound > -> >= (rejects last word; re-targeted: private copy in writeWord)''
       [sub WRITE_WORD (inline_word_check 4 ''>='' ''std.mem.writeInt(u32'')],
     mk ''C24'' CPU_ZIG ''cycle_count incremented before execute''
       [sub NEXT_PC (NEXT_PC @ [CHR 0x0A] @ ''            self.cycle_count +%= 1;''),
        sub ''self.cycle_count +%= 1; // INVARIANT'' ''// INVARIANT''],
     mk ''C25'' CPU_ZIG ''PC advanced on execute-error path (errdefer)''
       [sub NEXT_PC (NEXT_PC @ [CHR 0x0A] @ ''            errdefer self.pc = next_pc;'')],
     mk ''C26'' CPU_ZIG ''cycle_count incremented on execute-error path (errdefer)''
       [sub NEXT_PC (NEXT_PC @ [CHR 0x0A] @ ''            errdefer self.cycle_count +%= 1;'')],
     mk ''C27'' CPU_ZIG ''writeReg x0 protection removed (re-targeted: no regs[0] restore in writeReg)''
       [sub WRITE_REG ''self.regs[reg] = value;''],
     mk ''C28'' CPU_ZIG ''readReg(0) not forced to 0''
       [sub (''if (reg == 0) return 0;'' @ [CHR 0x0A] @ ''            return self.regs[reg];'') ''return self.regs[reg];''],
     mk ''C29'' CPU_ZIG ''x0 hardwiring removed everywhere (readReg branch, writeReg restore, step() zeroing)''
       [sub (''if (reg == 0) return 0;'' @ [CHR 0x0A] @ ''            return self.regs[reg];'') ''return self.regs[reg];'',
        sub WRITE_REG ''self.regs[reg] = value;'',
        sub STEP_ZERO ''const rs1_val''],
     mk ''C30'' CPU_ZIG ''inst_size always 4''
       [sub ''const inst_size: u32 = if (instructions.isCompressed(raw)) 2 else 4;'' ''const inst_size: u32 = 4;''],
     mk ''C31'' CPU_ZIG ''SC.W succeeds with any reservation (address not compared)''
       [sub ''if (self.reservation == addr) {'' ''if (self.reservation != null) {''],
     mk ''C32'' CPU_ZIG ''run(): limit check >= -> > (one extra step)''
       [sub ''if (self.cycle_count >= limit) return result;'' ''if (self.cycle_count > limit) return result;'']]\<close>

text \<open>Cpu.zig\<close>

definition PORTED_5 :: "mutant list" where
  \<open>PORTED_5 =
    [mk ''C33'' CPU_ZIG ''CSR immediate variants use rs1 register value instead of zimm''
       [sub ''.CSRRWI, .CSRRSI, .CSRRCI => @intCast(rs1_field),'' ''.CSRRWI, .CSRRSI, .CSRRCI => rs1_val,''],
     mk ''C34'' CPU_ZIG ''executeZbb src2 selection inverted (R uses imm, I uses rs2)''
       [sub (''if (op.format() == .R) rs2_val else imm;'' @ [CHR 0x0A] @ ''            self.writeReg(rd, zbb.execute('') (''if (op.format() == .I) rs2_val else imm;'' @ [CHR 0x0A] @ ''            self.writeReg(rd, zbb.execute('')],
     mk ''C35'' CPU_ZIG ''CSR write-suppression keyed on rs1 VALUE instead of rs1 FIELD''
       [sub ''rd != 0, rs1_field != 0);'' ''rd != 0, src_val != 0);'']]\<close>

text \<open>Zicsr.zig\<close>

definition PORTED_6 :: "mutant list" where
  \<open>PORTED_6 =
    [mk ''Z01'' CSR_ZIG ''CSRRS/CSRRSI writes even when src field is zero''
       [sub (''if (src_nonzero) {'' @ [CHR 0x0A] @ ''                    try self.write(csr_addr, old | src_val);'') (''if (src_nonzero or true) {'' @ [CHR 0x0A] @ ''                    try self.write(csr_addr, old | src_val);'')],
     mk ''Z02'' CSR_ZIG ''CSRRC/CSRRCI writes even when src field is zero''
       [sub (''if (src_nonzero) {'' @ [CHR 0x0A] @ ''                    try self.write(csr_addr, old & ~src_val);'') (''if (src_nonzero or true) {'' @ [CHR 0x0A] @ ''                    try self.write(csr_addr, old & ~src_val);'')],
     mk ''Z03'' CSR_ZIG ''CSRRW/CSRRWI reads even when rd == x0''
       [sub ''if (rd_nonzero) {'' ''if (rd_nonzero or true) {''],
     mk ''Z04'' CSR_ZIG ''read-only CSR check removed from write()''
       [sub ''if ((addr >> 10) & 0b11 == 0b11) return error.IllegalInstruction;'' ''{}''],
     mk ''Z05'' CSR_ZIG ''cycleh/instreth return low word''
       [sub ''0xC80, 0xC82 => @truncate(cycle_count >> 32),'' ''0xC80, 0xC82 => @truncate(cycle_count),''],
     mk ''Z06'' CSR_ZIG ''instret (0xC02) not aliased to cycle''
       [sub ''0xC00, 0xC02 =>'' ''0xC00 =>''],
     mk ''Z07'' CSR_ZIG ''CSRRC/CSRRCI use | instead of & ~''
       [sub ''old & ~src_val'' ''old | src_val''],
     mk ''Z08'' CSR_ZIG ''CSRRS/CSRRSI use ^ instead of |''
       [sub ''old | src_val'' ''old ^ src_val''],
     mk ''Z09'' CSR_ZIG ''CSRRW returns the NEW value (write before read)''
       [sub ''result.rd_val = try self.read(cycle_count, csr_addr);'' (''try self.write(csr_addr, src_val);'' @ [CHR 0x0A] @ ''                    result.rd_val = try self.read(cycle_count, csr_addr);'')],
     mk ''Z10'' CSR_ZIG ''decodeSystem maps funct3=110 to CSRRCI''
       [sub ''0b110 => .CSRRSI,'' ''0b110 => .CSRRCI,'']]\<close>

text \<open>Rv32m.zig\<close>

definition PORTED_7 :: "mutant list" where
  \<open>PORTED_7 =
    [mk ''M01'' M_ZIG ''MULH treats rs2 as unsigned''
       [sub ''const b: i64 = @as(i32, @bitCast(rs2_val));'' ''const b: i64 = @as(u32, rs2_val);''],
     mk ''M02'' M_ZIG ''MULHSU treats rs2 as signed''
       [sub ''const b: i64 = @as(u32, rs2_val);'' ''const b: i64 = @as(i32, @bitCast(rs2_val));''],
     mk ''M03'' M_ZIG ''MULHU sign-extends rs1''
       [sub ''const a: u64 = rs1_val;'' ''const a: u64 = @bitCast(@as(i64, @as(i32, @bitCast(rs1_val))));''],
     mk ''M04'' M_ZIG ''MULHSU treats rs1 as unsigned''
       [sub (''.MULHSU => blk: {'' @ [CHR 0x0A] @ ''            const a: i64 = @as(i32, @bitCast(rs1_val));'') (''.MULHSU => blk: {'' @ [CHR 0x0A] @ ''            const a: i64 = @as(u32, rs1_val);'')],
     mk ''M05'' M_ZIG ''DIV by zero returns 0 instead of -1''
       [sub (''if (b == 0)'' @ [CHR 0x0A] @ ''                -1'') (''if (b == 0)'' @ [CHR 0x0A] @ ''                0'')],
     mk ''M06'' M_ZIG ''DIV overflow returns maxInt instead of minInt''
       [sub (''and b == -1)'' @ [CHR 0x0A] @ ''                std.math.minInt(i32)'') (''and b == -1)'' @ [CHR 0x0A] @ ''                std.math.maxInt(i32)'')],
     mk ''M07'' M_ZIG ''REM uses @mod instead of @rem''
       [sub ''@rem(a, b)'' ''@mod(a, b)''],
     mk ''M08'' M_ZIG ''REMU by zero returns 0 instead of rs1''
       [sub ''if (rs2_val == 0) rs1_val else'' ''if (rs2_val == 0) 0 else''],
     mk ''M09'' M_ZIG ''DIVU by zero returns 0 instead of 0xFFFFFFFF''
       [sub ''if (rs2_val == 0) 0xFFFFFFFF else'' ''if (rs2_val == 0) 0 else''],
     mk ''M10'' M_ZIG ''REM overflow (minInt % -1) returns dividend instead of 0''
       [sub (''and b == -1)'' @ [CHR 0x0A] @ ''                0'' @ [CHR 0x0A]) (''and b == -1)'' @ [CHR 0x0A] @ ''                a'' @ [CHR 0x0A])],
     mk ''M11'' M_ZIG ''REM by zero returns 0 instead of dividend''
       [sub (''if (b == 0)'' @ [CHR 0x0A] @ ''                a'' @ [CHR 0x0A]) (''if (b == 0)'' @ [CHR 0x0A] @ ''                0'' @ [CHR 0x0A])]]\<close>

text \<open>Rv32a.zig\<close>

definition PORTED_8 :: "mutant list" where
  \<open>PORTED_8 =
    [mk ''A01'' A_ZIG ''AMOMIN signed -> unsigned''
       [sub ''@bitCast(@min(@as(i32, @bitCast(old)), @as(i32, @bitCast(rs2_val))))'' ''@min(old, rs2_val)''],
     mk ''A02'' A_ZIG ''AMOMAX signed -> unsigned''
       [sub ''@bitCast(@max(@as(i32, @bitCast(old)), @as(i32, @bitCast(rs2_val))))'' ''@max(old, rs2_val)''],
     mk ''A03'' A_ZIG ''AMOMINU computes max''
       [sub ''.AMOMINU_W => @min(old, rs2_val),'' ''.AMOMINU_W => @max(old, rs2_val),''],
     mk ''A04'' A_ZIG ''AMOMAXU computes min''
       [sub ''.AMOMAXU_W => @max(old, rs2_val),'' ''.AMOMAXU_W => @min(old, rs2_val),''],
     mk ''A05'' A_ZIG ''AMOADD -> wrapping sub''
       [sub ''old +% rs2_val'' ''old -% rs2_val''],
     mk ''A06'' A_ZIG ''AMOXOR -> OR''
       [sub ''old ^ rs2_val'' ''old | rs2_val''],
     mk ''A07'' A_ZIG ''AMOMINU unsigned -> signed''
       [sub ''.AMOMINU_W => @min(old, rs2_val),'' ''.AMOMINU_W => @bitCast(@min(@as(i32, @bitCast(old)), @as(i32, @bitCast(rs2_val)))),''],
     mk ''A08'' A_ZIG ''AMOSWAP stores old value (no-op)''
       [sub ''.AMOSWAP_W => rs2_val,'' ''.AMOSWAP_W => old,''],
     mk ''A09'' A_ZIG ''decodeR maps AMOMAX f5 to AMOMAXU''
       [sub ''0b10100 => .AMOMAX_W,'' ''0b10100 => .AMOMAXU_W,'']]\<close>

text \<open>Zba / zbb / zbs\<close>

definition PORTED_9 :: "mutant list" where
  \<open>PORTED_9 =
    [mk ''B01'' ZBA_ZIG ''SH1ADD shifts by 2''
       [sub ''.SH1ADD => (rs1_val << 1)'' ''.SH1ADD => (rs1_val << 2)''],
     mk ''B02'' ZBA_ZIG ''SH2ADD operands swapped (rs2<<2 + rs1)''
       [sub ''(rs1_val << 2) +% rs2_val'' ''(rs2_val << 2) +% rs1_val''],
     mk ''B03'' ZBB_ZIG ''ROL computes ROR''
       [sub ''(rs1_val << shamt) | (rs1_val >> compl)'' ''(rs1_val >> shamt) | (rs1_val << compl)''],
     mk ''B04'' ZBB_ZIG ''RORI dispatched to ROL''
       [sub ''.ROL => blk: {'' ''.ROL, .RORI => blk: {'',
        sub ''.ROR, .RORI => blk: {'' ''.ROR => blk: {''],
     mk ''B05'' ZBB_ZIG ''CLZ computes CTZ''
       [sub ''.CLZ => @clz(rs1_val),'' ''.CLZ => @ctz(rs1_val),''],
     mk ''B06'' ZBB_ZIG ''CPOP ignores bit 31''
       [sub ''@popCount(rs1_val)'' ''@popCount(rs1_val & 0x7FFFFFFF)''],
     mk ''B07'' ZBB_ZIG ''ORC.B byte-lane 2 test mask typo (0x00FF0000 -> 0x00FF000)''
       [sub ''(rs1_val & 0x00FF0000)'' ''(rs1_val & 0x00FF000)''],
     mk ''B08'' ZBB_ZIG ''REV8 -> bitReverse''
       [sub ''@byteSwap(rs1_val)'' ''@bitReverse(rs1_val)''],
     mk ''B09'' ZBB_ZIG ''SEXT.B zero-extends''
       [sub ''@bitCast(@as(i32, @as(i8, @bitCast(byte))))'' ''@as(u32, byte)''],
     mk ''B10'' ZBB_ZIG ''SEXT.H zero-extends''
       [sub ''@bitCast(@as(i32, @as(i16, @bitCast(half))))'' ''@as(u32, half)''],
     mk ''B11'' ZBB_ZIG ''ZEXT.H masks 0xFF''
       [sub ''.ZEXT_H => rs1_val & 0xFFFF,'' ''.ZEXT_H => rs1_val & 0xFF,''],
     mk ''B12'' ZBB_ZIG ''MIN signed -> unsigned''
       [sub ''@bitCast(@min(@as(i32, @bitCast(rs1_val)), @as(i32, @bitCast(src2))))'' ''@min(rs1_val, src2)''],
     mk ''B13'' ZBB_ZIG ''MAXU unsigned -> signed''
       [sub ''.MAXU => @max(rs1_val, src2),'' ''.MAXU => @bitCast(@max(@as(i32, @bitCast(rs1_val)), @as(i32, @bitCast(src2)))),''],
     mk ''B14'' ZBB_ZIG ''MAX signed -> unsigned''
       [sub ''@bitCast(@max(@as(i32, @bitCast(rs1_val)), @as(i32, @bitCast(src2))))'' ''@max(rs1_val, src2)''],
     mk ''B15'' ZBB_ZIG ''MINU unsigned -> signed''
       [sub ''.MINU => @min(rs1_val, src2),'' ''.MINU => @bitCast(@min(@as(i32, @bitCast(rs1_val)), @as(i32, @bitCast(src2)))),''],
     mk ''B16'' ZBB_ZIG ''ANDN negation dropped''
       [sub ''rs1_val & ~src2'' ''rs1_val & src2'']]\<close>

text \<open>Zba / zbb / zbs\<close>

definition PORTED_10 :: "mutant list" where
  \<open>PORTED_10 =
    [mk ''B17'' ZBB_ZIG ''ORN negation dropped''
       [sub ''rs1_val | ~src2'' ''rs1_val | src2''],
     mk ''B18'' ZBB_ZIG ''XNOR negation dropped''
       [sub ''rs1_val ^ ~src2'' ''rs1_val ^ src2''],
     mk ''B19'' ZBB_ZIG ''ROR/RORI complement 0-s -> 31-s''
       [sub (''.ROR, .RORI => blk: {'' @ [CHR 0x0A] @ ''            const shamt: u5 = @truncate(src2);'' @ [CHR 0x0A] @ ''            const compl: u5 = 0 -% shamt;'') (''.ROR, .RORI => blk: {'' @ [CHR 0x0A] @ ''            const shamt: u5 = @truncate(src2);'' @ [CHR 0x0A] @ ''            const compl: u5 = 31 -% shamt;'')],
     mk ''B20'' ZBB_ZIG ''decodeIAlu maps rs2=4 to SEXT_H''
       [sub ''4 => .SEXT_B,'' ''4 => .SEXT_H,''],
     mk ''B21'' ZBS_ZIG ''BEXT returns the bit unshifted''
       [sub ''(rs1_val >> shamt) & 1'' ''rs1_val & (@as(u32, 1) << shamt)''],
     mk ''B22'' ZBS_ZIG ''BINV computes BSET''
       [sub ''rs1_val ^ (@as(u32, 1) << shamt)'' ''rs1_val | (@as(u32, 1) << shamt)'']]\<close>

text \<open>Decoders: registry (the specification), bit fields, decoder\<close>

definition PORTED_11 :: "mutant list" where
  \<open>PORTED_11 =
    [mk ''D01'' REG_ZIG ''registry SRA f7 0100000 -> 0100001''
       [sub ''.{ .op = .{ .i = .SRA }, .opcode7 = 0b0110011, .f3 = 0b101, .f7 = 0b0100000 }'' ''.{ .op = .{ .i = .SRA }, .opcode7 = 0b0110011, .f3 = 0b101, .f7 = 0b0100001 }''],
     mk ''D02'' REG_ZIG ''registry SH2ADD f3 100 -> 101''
       [sub ''.{ .op = .{ .zba = .SH2ADD }, .opcode7 = 0b0110011, .f3 = 0b100,'' ''.{ .op = .{ .zba = .SH2ADD }, .opcode7 = 0b0110011, .f3 = 0b101,''],
     mk ''D03'' REG_ZIG ''registry ZEXT_H rs2_eq 0 -> 1''
       [sub ''.f7 = 0b0000100, .rs2_eq = 0 }'' ''.f7 = 0b0000100, .rs2_eq = 1 }''],
     mk ''D04'' REG_ZIG ''registry ORC_B rs2_eq 7 -> 6''
       [sub ''.rs2_eq = 7 }'' ''.rs2_eq = 6 }''],
     mk ''D05'' REG_ZIG ''registry REV8 f7 0110100 -> 0110101''
       [sub ''.{ .op = .{ .zbb = .REV8 }, .opcode7 = 0b0010011, .f3 = 0b101, .f7 = 0b0110100,'' ''.{ .op = .{ .zbb = .REV8 }, .opcode7 = 0b0010011, .f3 = 0b101, .f7 = 0b0110101,''],
     mk ''D06'' REG_ZIG ''registry AMOMIN/AMOMINU f5 swapped''
       [sub ''.{ .op = .{ .a = .AMOMIN_W }, .opcode7 = 0b0101111, .f3 = 0b010, .f5 = 0b10000 }'' ''.{ .op = .{ .a = .AMOMIN_W }, .opcode7 = 0b0101111, .f3 = 0b010, .f5 = 0b11000 }'',
        sub ''.{ .op = .{ .a = .AMOMINU_W }, .opcode7 = 0b0101111, .f3 = 0b010, .f5 = 0b11000 }'' ''.{ .op = .{ .a = .AMOMINU_W }, .opcode7 = 0b0101111, .f3 = 0b010, .f5 = 0b10000 }''],
     mk ''D07'' REG_ZIG ''registry ECALL/EBREAK f12 swapped''
       [sub ''.{ .op = .{ .i = .ECALL }, .opcode7 = 0b1110011, .f3 = 0b000, .f12 = 0x000,'' ''.{ .op = .{ .i = .ECALL }, .opcode7 = 0b1110011, .f3 = 0b000, .f12 = 0x001,'',
        sub ''.{ .op = .{ .i = .EBREAK }, .opcode7 = 0b1110011, .f3 = 0b000, .f12 = 0x001,'' ''.{ .op = .{ .i = .EBREAK }, .opcode7 = 0b1110011, .f3 = 0b000, .f12 = 0x000,''],
     mk ''D09'' REG_ZIG ''registry LHU f3 101 -> 110''
       [sub ''.{ .op = .{ .i = .LHU }, .opcode7 = 0b0000011, .f3 = 0b101 }'' ''.{ .op = .{ .i = .LHU }, .opcode7 = 0b0000011, .f3 = 0b110 }''],
     mk ''D10'' REG_ZIG ''registry BLTU/BGEU f3 swapped''
       [sub ''.{ .op = .{ .i = .BLTU }, .opcode7 = 0b1100011, .f3 = 0b110 }'' ''.{ .op = .{ .i = .BLTU }, .opcode7 = 0b1100011, .f3 = 0b111 }'',
        sub ''.{ .op = .{ .i = .BGEU }, .opcode7 = 0b1100011, .f3 = 0b111 }'' ''.{ .op = .{ .i = .BGEU }, .opcode7 = 0b1100011, .f3 = 0b110 }''],
     mk ''D11'' REG_ZIG ''registry CSRRSI/CSRRCI f3 swapped''
       [sub ''.{ .op = .{ .csr = .CSRRSI }, .opcode7 = 0b1110011, .f3 = 0b110 }'' ''.{ .op = .{ .csr = .CSRRSI }, .opcode7 = 0b1110011, .f3 = 0b111 }'',
        sub ''.{ .op = .{ .csr = .CSRRCI }, .opcode7 = 0b1110011, .f3 = 0b111 }'' ''.{ .op = .{ .csr = .CSRRCI }, .opcode7 = 0b1110011, .f3 = 0b110 }''],
     mk ''D15'' BF_ZIG ''immB imm[11] taken from raw bit 8 instead of 7''
       [sub ''(raw >> 7) & 1'' ''(raw >> 8) & 1''],
     mk ''D16'' BF_ZIG ''immJ imm[11] taken from raw bit 21 instead of 20''
       [sub ''(raw >> 20) & 1'' ''(raw >> 21) & 1''],
     mk ''D17'' BF_ZIG ''immS drops imm[4] (mask 0x1F -> 0x0F)''
       [sub ''(raw >> 7) & 0x1F'' ''(raw >> 7) & 0x0F''],
     mk ''D18'' BF_ZIG ''immI uses logical shift (no sign extension)''
       [sub ''return bits >> 20;'' ''return @bitCast(@as(u32, @bitCast(bits)) >> 20);''],
     mk ''D19'' BF_ZIG ''immU mask typo 0xFFFFF000 -> 0x0FFFF000''
       [sub ''raw & 0xFFFFF000'' ''raw & 0x0FFFF000''],
     mk ''D20'' BR_ZIG ''decodeR: Zbb checked before RV32I''
       [sub (''    // RV32I base'' @ [CHR 0x0A] @ ''    if (rv32i.decodeR(f3, f7))'') (''    if (zbb.decodeR(f3, f7, rs2(raw))) |zop| {'' @ [CHR 0x0A] @ ''        return .{ .op = .{ .zbb = zop }, .rd = rd(raw), .rs1 = rs1(raw), .rs2 = rs2(raw), .raw = raw };'' @ [CHR 0x0A] @ ''    }'' @ [CHR 0x0A] @ ''    // RV32I base'' @ [CHR 0x0A] @ ''    if (rv32i.decodeR(f3, f7))'')]]\<close>

text \<open>Decoders: registry (the specification), bit fields, decoder\<close>

definition PORTED_12 :: "mutant list" where
  \<open>PORTED_12 =
    [mk ''D21'' BR_ZIG ''decodeR: M-ext funct7 guard as bit test (f7 & 1)''
       [sub ''if (f7 == 0b0000001) {'' ''if (f7 & 0b0000001 != 0) {''],
     mk ''D22'' BR_ZIG ''decodeR: RV32I checked before M-ext''
       [sub ''if (f7 == 0b0000001) {'' (''if (rv32i.decodeR(f3, f7)) |i_op0| {'' @ [CHR 0x0A] @ ''        return .{ .op = .{ .i = i_op0 }, .rd = rd(raw), .rs1 = rs1(raw), .rs2 = rs2(raw), .raw = raw };'' @ [CHR 0x0A] @ ''    }'' @ [CHR 0x0A] @ ''    if (f7 == 0b0000001) {'')],
     mk ''D23'' BR_ZIG ''decodeIAlu: shamt rule only for funct3=001''
       [sub ''const imm_val: i32 = if (f3 == 0b001 or f3 == 0b101)'' ''const imm_val: i32 = if (f3 == 0b001)'']]\<close>

text \<open>RV32C\<close>

definition PORTED_13 :: "mutant list" where
  \<open>PORTED_13 =
    [mk ''R01'' IMM_ZIG ''ciw_nzuimm: nzuimm[2] from bit 5 instead of 6''
       [sub_arrow ''((b >> 4) & 0x4) | // bit [6] '' ''((b >> 3) & 0x4) | // bit [6] '' '' nzuimm[2]''],
     mk ''R02'' IMM_ZIG ''clsw_offset: offset[2] from bit 5 instead of 6''
       [sub_arrow ''((b >> 4) & 0x4) | // bit [6] '' ''((b >> 3) & 0x4) | // bit [6] '' '' offset[2]''],
     mk ''R03'' IMM_ZIG ''ci_imm: sign bit from bit 11 instead of 12''
       [sub (''pub fn ci_imm(half: u16) i32 {'' @ [CHR 0x0A] @ ''    const lo: u32 = (half >> 2) & 0x1F;'' @ [CHR 0x0A] @ ''    const hi: u32 = (half >> 12) & 1;'') (''pub fn ci_imm(half: u16) i32 {'' @ [CHR 0x0A] @ ''    const lo: u32 = (half >> 2) & 0x1F;'' @ [CHR 0x0A] @ ''    const hi: u32 = (half >> 11) & 1;'')],
     mk ''R04'' IMM_ZIG ''ci_addi16sp_imm: imm[6] from bit 4 instead of 5''
       [sub_arrow ''((b << 1) & 0x40) | // bit[5] '' ''((b << 2) & 0x40) | // bit[5] '' '' imm[6]''],
     mk ''R05'' IMM_ZIG ''ci_lui_imm: imm[17] placed at bit 4 (sign lost)''
       [sub (''const raw: u6 = @truncate((hi << 5) | lo);'' @ [CHR 0x0A] @ ''    const sign_ext: i32'') (''const raw: u6 = @truncate((hi << 4) | lo);'' @ [CHR 0x0A] @ ''    const sign_ext: i32'')],
     mk ''R06'' IMM_ZIG ''cj_offset: offset[7] from bit 5 instead of 6''
       [sub_arrow ''((b << 1) & 0x80) | // bit[6] '' ''((b << 2) & 0x80) | // bit[6] '' '' offset[7]''],
     mk ''R07'' IMM_ZIG ''cb_offset: offset[5] from bit 1 instead of 2''
       [sub_arrow ''((b << 3) & 0x20) | // bit[2] '' ''((b << 4) & 0x20) | // bit[2] '' '' offset[5]''],
     mk ''R08'' IMM_ZIG ''ci_lwsp_offset: offset[7:6] from bits [4:3] instead of [3:2]''
       [sub_arrow ''((b << 4) & 0xC0); // bits[3:2] '' ''((b << 3) & 0xC0); // bits[3:2] '' '' offset[7:6]''],
     mk ''R09'' IMM_ZIG ''css_swsp_offset: offset[7:6] from bits [9:8] instead of [8:7]''
       [sub_arrow ''((b >> 1) & 0xC0); // bits[8:7] '' ''((b >> 2) & 0xC0); // bits[8:7] '' '' offset[7:6]''],
     mk ''R10'' IMM_ZIG ''cReg offset 8 -> 0''
       [sub ''return @as(u5, r) + 8;'' ''return @as(u5, r);''],
     mk ''R11'' EXP_ZIG ''C.ADDI4SPN nzuimm==0 reserved check removed''
       [sub ''if (nzu == 0) return error.IllegalInstruction;'' ''{}''],
     mk ''R12'' EXP_ZIG ''C.ADDI16SP imm==0 reserved check removed''
       [sub ''if (ci_imm_val == 0) return error.IllegalInstruction;'' ''{}''],
     mk ''R13'' EXP_ZIG ''C.LUI imm==0 reserved check removed''
       [sub ''if (lui_imm == 0) return error.IllegalInstruction;'' ''{}''],
     mk ''R14'' EXP_ZIG ''C.LWSP rd==0 reserved check removed''
       [sub ''if (rd_val == 0) return error.IllegalInstruction;'' ''{}''],
     mk ''R15'' EXP_ZIG ''C.JR rs1==0 reserved check removed''
       [sub ''if (rd_rs1 == 0) return error.IllegalInstruction;'' ''{}''],
     mk ''R16'' EXP_ZIG ''C.SLLI shamt[5] check removed''
       [sub (''const rd_val: u5 = @truncate(half >> 7);'' @ [CHR 0x0A] @ ''            const shamt = imm.ci_shamt(half);'' @ [CHR 0x0A] @ ''            if (shamt & 0x20 != 0) return error.IllegalInstruction;'') (''const rd_val: u5 = @truncate(half >> 7);'' @ [CHR 0x0A] @ ''            const shamt = imm.ci_shamt(half);'' @ [CHR 0x0A] @ ''            {}'')]]\<close>

text \<open>RV32C\<close>

definition PORTED_14 :: "mutant list" where
  \<open>PORTED_14 =
    [mk ''R17'' EXP_ZIG ''C.SRLI shamt[5] check removed''
       [sub (''.C_SRLI => {'' @ [CHR 0x0A] @ ''            const shamt = imm.ci_shamt(half);'' @ [CHR 0x0A] @ ''            if (shamt & 0x20 != 0) return error.IllegalInstruction;'') (''.C_SRLI => {'' @ [CHR 0x0A] @ ''            const shamt = imm.ci_shamt(half);'' @ [CHR 0x0A] @ ''            {}'')],
     mk ''R18'' EXP_ZIG ''C.SRAI shamt[5] check removed''
       [sub (''.C_SRAI => {'' @ [CHR 0x0A] @ ''            const shamt = imm.ci_shamt(half);'' @ [CHR 0x0A] @ ''            if (shamt & 0x20 != 0) return error.IllegalInstruction;'') (''.C_SRAI => {'' @ [CHR 0x0A] @ ''            const shamt = imm.ci_shamt(half);'' @ [CHR 0x0A] @ ''            {}'')],
     mk ''R19'' EXP_ZIG ''C.JALR links x0 instead of ra''
       [sub (''.rd = 1, // ra'' @ [CHR 0x0A] @ ''                .rs1 = rd_rs1,'') (''.rd = 0, // ra'' @ [CHR 0x0A] @ ''                .rs1 = rd_rs1,'')],
     mk ''R20'' EXP_ZIG ''C.MV uses rs1=rd instead of x0''
       [sub (''.rs1 = 0,'' @ [CHR 0x0A] @ ''                .rs2 = rs2_val,'') (''.rs1 = rd_rs1,'' @ [CHR 0x0A] @ ''                .rs2 = rs2_val,'')],
     mk ''R21'' RVC_ZIG ''C.ADD decoded as C.MV''
       [sub ''return .C_ADD;'' ''return .C_MV;''],
     mk ''R22'' RVC_ZIG ''Q1 ALU funct2b: C.XOR <-> C.OR swapped''
       [sub ''0b01 => .C_XOR,'' ''0b01 => .C_OR,'',
        sub ''0b10 => .C_OR,'' ''0b10 => .C_XOR,''],
     mk ''R23'' RVC_ZIG ''bit-12 RV64C guard (C.SUBW/C.ADDW space) removed''
       [sub ''if (funct1 != 0) return error.IllegalInstruction;'' ''_ = funct1;''],
     mk ''R24'' EXP_ZIG ''C.J links ra (rd=1) like C.JAL''
       [sub (''.op = .JAL,'' @ [CHR 0x0A] @ ''            .rd = 0,'') (''.op = .JAL,'' @ [CHR 0x0A] @ ''            .rd = 1,'')],
     mk ''R25'' EXP_ZIG ''C.SRAI expands to SRLI''
       [sub ''.op = .SRAI,'' ''.op = .SRLI,''],
     mk ''R26'' EXP_ZIG ''C.LI uses rs1=rd instead of x0''
       [sub (''.rs1 = 0,'' @ [CHR 0x0A] @ ''                .imm = imm.ci_imm(half),'') (''.rs1 = rd_val,'' @ [CHR 0x0A] @ ''                .imm = imm.ci_imm(half),'')],
     mk ''R27'' EXP_ZIG ''C.SWSP rs2 mapped through cReg''
       [sub ''.rs2 = @truncate(half >> 2),'' ''.rs2 = imm.cReg(@truncate(half >> 2)),''],
     mk ''R28'' EXP_ZIG ''C.ANDI uses unsigned shamt-style imm (no sign extension)''
       [sub (''.op = .ANDI,'' @ [CHR 0x0A] @ ''                .rd = rd_rs1,'' @ [CHR 0x0A] @ ''                .rs1 = rd_rs1,'' @ [CHR 0x0A] @ ''                .imm = imm.ci_imm(half),'') (''.op = .ANDI,'' @ [CHR 0x0A] @ ''                .rd = rd_rs1,'' @ [CHR 0x0A] @ ''                .rs1 = rd_rs1,'' @ [CHR 0x0A] @ ''                .imm = @intCast(imm.ci_shamt(half)),'')]]\<close>

text \<open>Wave 2: positive control + reservation edge cases\<close>

definition PORTED_15 :: "mutant list" where
  \<open>PORTED_15 =
    [mk ''P01'' EXEC_ZIG ''POSITIVE CONTROL: ADD computes SUB''
       [sub ''.ADD => cpu.writeReg(rd, rs1_val +% rs2_val)'' ''.ADD => cpu.writeReg(rd, rs1_val -% rs2_val)''],
     mk ''C36'' CPU_ZIG ''invalidateReservation clears reservation on EVERY write''
       [sub ''if ((addr & 0xFFFFFFFC) == res_addr) {'' ''if (true or (addr & 0xFFFFFFFC) == res_addr) {''],
     mk ''C37'' CPU_ZIG ''SC.W skips its address check: misaligned SC.W fails softly, out-of-bounds faults only on success (re-targeted: removes the check C37 used to inject)''
       [sub SC_CHECK ''// reservation is guaranteed'']]\<close>

definition PORTED :: "mutant list" where
  "PORTED = PORTED_1 @ PORTED_2 @ PORTED_3 @ PORTED_4 @ PORTED_5 @ PORTED_6 @ PORTED_7 @ PORTED_8 @ PORTED_9 @ PORTED_10 @ PORTED_11 @ PORTED_12 @ PORTED_13 @ PORTED_14 @ PORTED_15"

text \<open>Decode cache (cpu.zig decodeCached/reset)\<close>

definition NEW_1 :: "mutant list" where
  \<open>NEW_1 =
    [mk ''DC01'' CPU_ZIG ''decode cache hit on any filled slot: the fetched bits are not compared''
       [sub DECODE_CACHED ''if (slot.raw == empty_slot.raw) slot.* = try decodeFn(raw);''],
     mk ''DC02'' CPU_ZIG ''decode cache index mask is cache_entries instead of cache_entries - 1 (slot index out of range)''
       [sub ''(self.pc >> 1) & (cache_entries - 1)'' ''(self.pc >> 1) & cache_entries''],
     mk ''DC03'' CPU_ZIG ''decode cache stores raw before decoding, so a decode error leaves a stale slot that later hits''
       [sub DECODE_CACHED (''if (slot.raw != raw) {'' @ [CHR 0x0A] @ ''                slot.raw = raw;'' @ [CHR 0x0A] @ ''                slot.* = try decodeFn(raw);'' @ [CHR 0x0A] @ ''            }'')],
     mk ''DC04'' CPU_ZIG ''reset() leaves the decode cache uninitialized (zeroed memory: the all-zero halfword hits a zero slot)''
       [sub (''self.csrs = .{};'' @ [CHR 0x0A] @ ''            @memset(&self.decode_cache, empty_slot);'') ''self.csrs = .{};'']]\<close>

text \<open>State encoding (cpu/state.zig)\<close>

definition NEW_2 :: "mutant list" where
  \<open>NEW_2 =
    [mk ''ST01'' STATE_ZIG ''mscratch not encoded (written as 0)''
       [sub ''std.mem.writeInt(u32, buf[160..164], cpu.csrs.mscratch, .little);'' ''std.mem.writeInt(u32, buf[160..164], 0, .little);''],
     mk ''ST02'' STATE_ZIG ''cycle_count encoded as its low 32 bits only''
       [sub ''std.mem.writeInt(u64, buf[144..152], cpu.cycle_count, .little);'' ''std.mem.writeInt(u64, buf[144..152], cpu.cycle_count & 0xFFFFFFFF, .little);''],
     mk ''ST03'' STATE_ZIG ''pc encoded big-endian''
       [sub ''std.mem.writeInt(u32, buf[12..16], cpu.pc, .little);'' ''std.mem.writeInt(u32, buf[12..16], cpu.pc, .big);''],
     mk ''ST04'' STATE_ZIG (''reservation valid flag and address written at each other'' @ [CHR 0x27] @ ''s offsets'')
       [sub ''std.mem.writeInt(u32, buf[152..156], @intFromBool(cpu.reservation != null), .little);'' ''std.mem.writeInt(u32, buf[156..160], @intFromBool(cpu.reservation != null), .little);'',
        sub ''std.mem.writeInt(u32, buf[156..160], cpu.reservation orelse 0, .little);'' ''std.mem.writeInt(u32, buf[152..156], cpu.reservation orelse 0, .little);''],
     mk ''ST05'' STATE_ZIG ''reservation valid flag dropped (a reservation at 0 encodes like none)''
       [sub ''@intFromBool(cpu.reservation != null)'' ''0''],
     mk ''ST06'' STATE_ZIG ''last memory byte not hashed''
       [sub ''hasher.update(cpu.memory[0..]);'' ''hasher.update(cpu.memory[0 .. cpu.memory.len - 1]);''],
     mk ''ST07'' STATE_ZIG ''regs[0] encoded as 0 instead of its stored value''
       [sub ''std.mem.writeInt(u32, buf[16 + 4 * i ..][0..4], r, .little);'' ''std.mem.writeInt(u32, buf[16 + 4 * i ..][0..4], if (i == 0) 0 else r, .little);'']]\<close>

text \<open>Registry: the decoder's specification\<close>

definition NEW_3 :: "mutant list" where
  \<open>NEW_3 =
    [mk ''RG01'' REG_ZIG ''Entry.mask: rd_eq constrains 4 bits (0x0F << 7), so ECALL/EBREAK with rd = 16 match''
       [sub ''if (e.rd_eq != null) m |= 0x1F << 7;'' ''if (e.rd_eq != null) m |= 0x0F << 7;''],
     mk ''RG02'' REG_ZIG ''lookup() gives up after the first entry of the opcode''
       [sub ''if (raw & e.mask() == e.match()) return e;'' ''return if (raw & e.mask() == e.match()) e else null;''],
     mk ''RG03'' REG_ZIG ''instruction(): shamt operand rule only for funct3=001 (SRLI/SRAI/RORI/... get immI)''
       [sub ''(bf.funct3(raw) == 0b001 or bf.funct3(raw) == 0b101)'' ''(bf.funct3(raw) == 0b001)''],
     mk ''RG04'' REG_ZIG ''instruction(): shamt operand rule keyed on the R-type opcode instead of I-ALU''
       [sub ''if (e.opcode7 == 0b0010011 and'' ''if (e.opcode7 == 0b0110011 and''],
     mk ''RG05'' REG_ZIG ''instruction(): FENCE and FENCE.I carry I-format operands''
       [sub ''.ECALL, .EBREAK, .FENCE, .FENCE_I => return .{ .op = op, .raw = raw },'' ''.ECALL, .EBREAK => return .{ .op = op, .raw = raw },''],
     mk ''RG06'' REG_ZIG ''registry SLLI entry loses its f7 constraint''
       [sub ''.{ .op = .{ .i = .SLLI }, .opcode7 = 0b0010011, .f3 = 0b001, .f7 = 0b0000000 },'' ''.{ .op = .{ .i = .SLLI }, .opcode7 = 0b0010011, .f3 = 0b001 },''],
     mk ''RG07'' REG_ZIG ''registry FENCE.I gains rd_eq = 0 (spec rejects what the decoder must accept)''
       [sub ''.{ .op = .{ .i = .FENCE_I }, .opcode7 = 0b0001111, .f3 = 0b001 },'' ''.{ .op = .{ .i = .FENCE_I }, .opcode7 = 0b0001111, .f3 = 0b001, .rd_eq = 0 },'']]\<close>

text \<open>CheckWordAccess (shared by readWord, writeWord, SC.W)\<close>

definition NEW_4 :: "mutant list" where
  \<open>NEW_4 =
    [mk ''CW01'' CPU_ZIG ''checkWordAccess alignment %4 -> %2''
       [sub ''if (addr % 4 != 0) return error.MisalignedAccess;'' ''if (addr % 2 != 0) return error.MisalignedAccess;''],
     mk ''CW02'' CPU_ZIG ''checkWordAccess bound > -> >= (rejects the last word)''
       [sub ''if (addr > self.memSize() - 4) return error.AddressOutOfBounds;'' ''if (addr >= self.memSize() - 4) return error.AddressOutOfBounds;''],
     mk ''CW03'' CPU_ZIG ''checkWordAccess checks bounds before alignment''
       [sub (''if (addr % 4 != 0) return error.MisalignedAccess;'' @ [CHR 0x0A] @ ''            if (addr > self.memSize() - 4) return error.AddressOutOfBounds;'') (''if (addr > self.memSize() - 4) return error.AddressOutOfBounds;'' @ [CHR 0x0A] @ ''            if (addr % 4 != 0) return error.MisalignedAccess;'')],
     mk ''CW04'' CPU_ZIG ''checkWordAccess bound written as addr + 4 > mem_size (overflows near 0xFFFFFFFF)''
       [sub ''if (addr > self.memSize() - 4) return error.AddressOutOfBounds;'' ''if (addr + 4 > self.memSize()) return error.AddressOutOfBounds;'']]\<close>

text \<open>SC.W\<close>

definition NEW_5 :: "mutant list" where
  \<open>NEW_5 =
    [mk ''SC01'' CPU_ZIG ''SC.W clears the reservation even when its address check faults''
       [sub SC_CHECK (''errdefer self.reservation = null;'' @ [CHR 0x0A] @ ''                    '' @ SC_CHECK)]]\<close>

text \<open>LoadProgram and the reservation\<close>

definition NEW_6 :: "mutant list" where
  \<open>NEW_6 =
    [mk ''LP01'' CPU_ZIG (''invalidateReservationRange: start < res + 3 (misses a load starting at the reserved word'' @ [CHR 0x27] @ ''s last byte)'')
       [sub ''start < res + 4 and'' ''start < res + 3 and''],
     mk ''LP02'' CPU_ZIG (''invalidateReservationRange: res + 1 < start + len (misses a load ending at the reserved word'' @ [CHR 0x27] @ ''s first byte)'')
       [sub ''res < start + len)'' ''res + 1 < start + len)''],
     mk ''LP03'' CPU_ZIG ''invalidateReservationRange: start <= res + 4 (clears for a load starting right after the word)''
       [sub ''start < res + 4 and'' ''start <= res + 4 and''],
     mk ''LP04'' CPU_ZIG ''invalidateReservationRange: res <= start + len (clears for a load ending right before the word)''
       [sub ''res < start + len)'' ''res <= start + len)''],
     mk ''LP05'' CPU_ZIG ''invalidateReservationRange: len != 0 guard dropped (an empty load inside the word clears it)''
       [sub ''if (len != 0 and start < res + 4'' ''if (start < res + 4''],
     mk ''LP06'' CPU_ZIG ''loadProgram does not invalidate the reservation''
       [sub ''self.invalidateReservationRange(off, program.len);'' ''{}'']]\<close>

text \<open>ClearReservation / reset\<close>

definition NEW_7 :: "mutant list" where
  \<open>NEW_7 =
    [mk ''CR01'' CPU_ZIG ''clearReservation() does nothing''
       [sub (''pub fn clearReservation(self: *Self) void {'' @ [CHR 0x0A] @ ''            self.reservation = null;'') (''pub fn clearReservation(self: *Self) void {'' @ [CHR 0x0A] @ ''            _ = self;'')],
     mk ''RS01'' CPU_ZIG ''reset() keeps the reservation''
       [sub (''self.cycle_count = 0;'' @ [CHR 0x0A] @ ''            self.reservation = null;'') ''self.cycle_count = 0;'']]\<close>

text \<open>Decoder (branch.zig): reserved encodings and guards\<close>

definition NEW_8 :: "mutant list" where
  \<open>NEW_8 =
    [mk ''BR01'' BR_ZIG ''ECALL/EBREAK accept rd != 0 or rs1 != 0''
       [sub ''if (rd(raw) != 0 or rs1(raw) != 0) return error.IllegalInstruction;'' ''{}''],
     mk ''BR02'' BR_ZIG ''LR.W accepts rs2 != 0''
       [sub ''if (a_op == .LR_W and rs2(raw) != 0) return error.IllegalInstruction;'' ''{}''],
     mk ''BR03'' BR_ZIG ''the rs2 == 0 rule is applied to SC.W instead of LR.W''
       [sub ''if (a_op == .LR_W and rs2(raw) != 0)'' ''if (a_op == .SC_W and rs2(raw) != 0)''],
     mk ''BR04'' BR_ZIG ''ECALL/EBREAK funct12 mapping swapped (was D08 in the LUT)''
       [sub ''0x000 => .{ .op = .{ .i = .ECALL }, .raw = raw },'' ''0x000 => .{ .op = .{ .i = .EBREAK }, .raw = raw },'',
        sub ''0x001 => .{ .op = .{ .i = .EBREAK }, .raw = raw },'' ''0x001 => .{ .op = .{ .i = .ECALL }, .raw = raw },''],
     mk ''BR05'' BR_ZIG ''FENCE.I decoded as FENCE (was D12 in the LUT)''
       [sub ''0b001 => .{ .op = .{ .i = .FENCE_I }, .raw = raw },'' ''0b001 => .{ .op = .{ .i = .FENCE }, .raw = raw },''],
     mk ''BR06'' BR_ZIG ''JALR funct3 == 000 guard removed (was D25 in the LUT)''
       [sub (''if (funct3(raw) != 0b000) return error.IllegalInstruction;'' @ [CHR 0x0A] @ ''    return .{ .op = .{ .i = .JALR }'') ''return .{ .op = .{ .i = .JALR }''],
     mk ''BR07'' BR_ZIG ''atomic funct3 == 010 guard removed (was D24 in the LUT)''
       [sub (''if (funct3(raw) != 0b010) return error.IllegalInstruction;'' @ [CHR 0x0A] @ ''    const a_op'') ''const a_op'']]\<close>

text \<open>X0: regs[0] zeroing in step()\<close>

definition NEW_9 :: "mutant list" where
  \<open>NEW_9 =
    [mk ''X01'' CPU_ZIG ''step() does not zero regs[0] before reading operands''
       [sub STEP_ZERO ''const rs1_val''],
     mk ''X02'' CPU_ZIG (''neither step() nor writeReg() zero regs[0] (readReg'' @ [CHR 0x27] @ ''s branch kept)'')
       [sub WRITE_REG ''self.regs[reg] = value;'',
        sub STEP_ZERO ''const rs1_val''],
     mk ''X03'' CPU_ZIG ''step() zeroes regs[0] after reading the operands''
       [sub (''self.regs[0] = 0;'' @ [CHR 0x0A] @ ''            const rs1_val = self.regs[inst.rs1];'' @ [CHR 0x0A] @ ''            const rs2_val = self.regs[inst.rs2];'') (''const rs1_val = self.regs[inst.rs1];'' @ [CHR 0x0A] @ ''            const rs2_val = self.regs[inst.rs2];'' @ [CHR 0x0A] @ ''            self.regs[0] = 0;'')]]\<close>

text \<open>CLI (main.zig): exit statuses and output failures\<close>

definition NEW_10 :: "mutant list" where
  \<open>NEW_10 =
    [mk ''MN01'' MAIN_ZIG ''EBREAK stop maps to the cycle-limit exit status''
       [sub ''.ebreak, .ecall => .ok,'' (''.ecall => .ok,'' @ [CHR 0x0A] @ ''                .ebreak => .cycle_limit,'')],
     mk ''MN02'' MAIN_ZIG ''cycle-limit stop maps to exit status 0''
       [sub ''.cycle_limit => .cycle_limit,'' ''.cycle_limit => .ok,''],
     mk ''MN03'' MAIN_ZIG ''a VM fault exits with the usage/I-O status''
       [sub ''break :blk .vm_fault;'' ''break :blk .usage_or_io;''],
     mk ''MN04'' MAIN_ZIG ''a failed final stdout flush is ignored''
       [sub ''cli.stdout.flush() catch return cli.outputFailed();'' ''cli.stdout.flush() catch {};''],
     mk ''MN05'' MAIN_ZIG ''WriteFailed from command() reported as a generic error''
       [sub (''            error.WriteFailed => return cli.outputFailed(),'' @ [CHR 0x0A]) []]]\<close>

text \<open>Host API (describeFault, runFor, stop_pc)\<close>

definition NEW_11 :: "mutant list" where
  \<open>NEW_11 =
    [mk ''HA01'' CPU_ZIG ''runFor wraps the limit instead of saturating''
       [sub ''return self.run(self.cycle_count +| steps);'' ''return self.run(self.cycle_count +% steps);''],
     mk ''HA02'' CPU_ZIG ''stop_pc recorded only for ECALL''
       [sub ''if (result != .@"continue") self.stop_pc = self.pc;'' ''if (result == .ecall) self.stop_pc = self.pc;''],
     mk ''HA03'' CPU_ZIG ''describeFault: load/store address ignores the immediate''
       [sub ''.LB, .LH, .LW, .LBU, .LHU, .SB, .SH, .SW => fault.addr = rs1_val +% inst.immUnsigned(),'' ''.LB, .LH, .LW, .LBU, .LHU, .SB, .SH, .SW => fault.addr = rs1_val,''],
     mk ''HA04'' CPU_ZIG ''describeFault: no address for AMO/LR/SC faults''
       [sub (''.a => fault.addr = rs1_val,'' @ [CHR 0x0A]) []],
     mk ''HA05'' MAIN_ZIG ''a report section is printed without flushing stdout first''
       [sub (''        try self.cli.stdout.flush();'' @ [CHR 0x0A] @ ''        if (self.started)'') ''        if (self.started)'']]\<close>

text \<open>Host calls (hostcall.zig)\<close>

definition NEW_12 :: "mutant list" where
  \<open>NEW_12 =
    [mk ''HC01'' HC_ZIG ''exit_group is not a host call''
       [sub ''.exit, .exit_group => return .{ .exit = a0 },'' (''.exit => return .{ .exit = a0 },'' @ [CHR 0x0A] @ ''        .exit_group => return .{ .unknown = number },'')],
     mk ''HC02'' HC_ZIG ''write to fd 2 goes to stdout''
       [sub ''2 => env.stderr,'' ''2 => env.stdout,''],
     mk ''HC03'' HC_ZIG ''write returns 0 instead of the length''
       [sub ''return setResult(vm, a2);'' ''return setResult(vm, 0);''],
     mk ''HC04'' HC_ZIG ''guestBytes rejects a buffer that ends at the top of memory''
       [sub ''start > vm.memory.len - n'' ''start >= vm.memory.len - n''],
     mk ''HC05'' HC_ZIG ''read accepts any fd''
       [sub (''if (a0 != 0) return setResult(vm, ebadf);'' @ [CHR 0x0A]) []],
     mk ''HC06'' HC_ZIG ''read does not advance the input position''
       [sub (''env.input_pos += n;'' @ [CHR 0x0A]) []],
     mk ''HC07'' HC_ZIG ''read ignores the count and copies all remaining input''
       [sub ''@min(a2, env.input.len - env.input_pos)'' ''env.input.len - env.input_pos''],
     mk ''HC08'' HC_ZIG ''read writes guest memory directly, keeping the LR reservation''
       [sub ''vm.loadProgram(env.input[env.input_pos..][0..n], a1) catch unreachable; // range checked above'' ''@memcpy(vm.memory[a1..][0..n], env.input[env.input_pos..][0..n]);''],
     mk ''HC09'' HC_ZIG ''read does not check the buffer''
       [sub (''if (guestBytes(vm, a1, a2) == null) return setResult(vm, efault);'' @ [CHR 0x0A]) []],
     mk ''HC10'' HC_ZIG ''an unknown call resumes with -EBADF instead of stopping''
       [sub ''_ => return .{ .unknown = number },'' ''_ => return setResult(vm, ebadf),''],
     mk ''HC11'' HC_ZIG ''read checks the buffer against the remaining input instead of the count''
       [sub ''if (guestBytes(vm, a1, a2) == null)'' ''if (guestBytes(vm, a1, @intCast(env.input.len - env.input_pos)) == null)'']]\<close>

text \<open>ELF loading (loader.zig)\<close>

definition NEW_13 :: "mutant list" where
  \<open>NEW_13 =
    [mk ''LD01'' LD_ZIG ''ELF class not checked''
       [sub ''if (image[4] != ELFCLASS32 or image[5] != ELFDATA2LSB'' ''if (image[5] != ELFDATA2LSB''],
     mk ''LD02'' LD_ZIG ''ELF byte order not checked''
       [sub ''image[4] != ELFCLASS32 or image[5] != ELFDATA2LSB or '' ''image[4] != ELFCLASS32 or ''],
     mk ''LD03'' LD_ZIG ''odd entry point accepted''
       [sub (''if (entry % 2 != 0) return error.InvalidElf;'' @ [CHR 0x0A]) []],
     mk ''LD04'' LD_ZIG ''program header entries smaller than 32 bytes accepted''
       [sub (''if (phnum != 0 and phentsize < program_header_len) return error.InvalidElf;'' @ [CHR 0x0A]) []],
     mk ''LD05'' LD_ZIG ''a program header table that ends at the end of the file is rejected''
       [sub ''if (phoff + phentsize * phnum > image.len)'' ''if (phoff + phentsize * phnum >= image.len)''],
     mk ''LD06'' LD_ZIG ''segment file range not checked''
       [sub (''        if (@as(u64, s.offset) + s.filesz > image.len) return error.InvalidElf;'' @ [CHR 0x0A]) []],
     mk ''LD07'' LD_ZIG ''p_filesz > p_memsz accepted''
       [sub (''        if (s.filesz > s.memsz) return error.InvalidElf;'' @ [CHR 0x0A]) []],
     mk ''LD08'' LD_ZIG ''a segment that ends at the top of memory is rejected''
       [sub ''if (@as(u64, s.vaddr) + s.memsz > mem_size)'' ''if (@as(u64, s.vaddr) + s.memsz >= mem_size)''],
     mk ''LD09'' LD_ZIG ''memory bounds checked while writing, so a rejected image is partly loaded''
       [sub (''    var check = elf.segments;'' @ [CHR 0x0A] @ ''    while (check.next()) |s| {'' @ [CHR 0x0A] @ ''        if (@as(u64, s.vaddr) + s.memsz > mem_size) return error.AddressOutOfBounds;'' @ [CHR 0x0A] @ ''    }'' @ [CHR 0x0A]) [],
        sub ''vm.loadProgram(image[s.offset..][0..s.filesz], s.vaddr) catch unreachable; // validated above'' (''try vm.loadProgram(image[s.offset..][0..s.filesz], s.vaddr);'' @ [CHR 0x0A] @ ''        if (@as(u64, s.vaddr) + s.memsz > mem_size) return error.AddressOutOfBounds;'')],
     mk ''LD10'' LD_ZIG ''segments of every type are loaded, not only PT_LOAD''
       [sub (''if (u32At(image, ph) != PT_LOAD) return null;'' @ [CHR 0x0A]) []],
     mk ''LD11'' LD_ZIG ''.bss not zero-filled''
       [sub ''@memset(vm.memory[bss_start..bss_end], 0);'' ''{}''],
     mk ''LD12'' LD_ZIG ''zero-filling .bss keeps the LR reservation''
       [sub ''vm.clearReservation(); // a direct memory write'' ''{}''],
     mk ''LD13'' LD_ZIG ''ELF type not checked (ET_DYN accepted)''
       [sub ''u16At(image, 16) != ET_EXEC or '' []]]\<close>

text \<open>Snapshots (state.zig, restoreSnapshot)\<close>

definition NEW_14 :: "mutant list" where
  \<open>NEW_14 =
    [mk ''SN01'' STATE_ZIG ''snapshot magic not checked''
       [sub (''if (!std.mem.eql(u8, hdr[0..4], &magic)) return error.InvalidSnapshot;'' @ [CHR 0x0A]) []],
     mk ''SN02'' STATE_ZIG ''snapshot version not checked''
       [sub (''if (readU32(&hdr, 4) != version) return error.InvalidSnapshot;'' @ [CHR 0x0A]) []],
     mk ''SN03'' STATE_ZIG ''snapshot memory size not checked''
       [sub (''if (readU32(&hdr, 8) != cpu.memSize()) return error.InvalidSnapshot;'' @ [CHR 0x0A]) []],
     mk ''SN04'' STATE_ZIG ''a snapshot with regs[0] != 0 accepted''
       [sub (''if (readU32(&hdr, 16) != 0) return error.InvalidSnapshot; // regs[0]'' @ [CHR 0x0A]) []],
     mk ''SN05'' STATE_ZIG ''a misaligned reservation accepted''
       [sub ''1 => if (res_addr % 4 != 0 or res_addr > cpu.memSize() - 4)'' ''1 => if (res_addr > cpu.memSize() - 4)''],
     mk ''SN06'' STATE_ZIG ''a reservation on the last word rejected''
       [sub ''res_addr > cpu.memSize() - 4'' ''res_addr >= cpu.memSize() - 4''],
     mk ''SN07'' STATE_ZIG ''no reservation but a nonzero reservation address accepted''
       [sub ''0 => if (res_addr != 0) return error.InvalidSnapshot,'' ''0 => {},''],
     mk ''SN08'' STATE_ZIG ''a reservation flag other than 0 or 1 accepted (as none)''
       [sub (''else => return error.InvalidSnapshot,'' @ [CHR 0x0A] @ ''    }'') (''else => {},'' @ [CHR 0x0A] @ ''    }'')],
     mk ''SN09'' STATE_ZIG ''mscratch not restored''
       [sub ''cpu.csrs = .{ .mscratch = readU32(&hdr, 160) };'' ''cpu.csrs = .{};''],
     mk ''SN10'' STATE_ZIG ''only the low 32 bits of cycle_count restored''
       [sub ''cpu.cycle_count = std.mem.readInt(u64, hdr[144..152], .little);'' ''cpu.cycle_count = std.mem.readInt(u32, hdr[144..148], .little);''],
     mk ''SN11'' STATE_ZIG ''pc restored before the header is validated''
       [sub (''    try r.readSliceAll(&hdr);'' @ [CHR 0x0A]) (''    try r.readSliceAll(&hdr);'' @ [CHR 0x0A] @ ''    cpu.pc = readU32(&hdr, 12);'' @ [CHR 0x0A]),
        sub (''    cpu.pc = readU32(&hdr, 12);'' @ [CHR 0x0A] @ ''    for (&cpu.regs'') ''    for (&cpu.regs''],
     mk ''SN12'' CPU_ZIG ''restoreSnapshot keeps stop_pc''
       [sub (''try state.restoreSnapshot(self, r);'' @ [CHR 0x0A] @ ''            @memset(&self.decode_cache, empty_slot);'' @ [CHR 0x0A] @ ''            self.stop_pc = 0;'') (''try state.restoreSnapshot(self, r);'' @ [CHR 0x0A] @ ''            @memset(&self.decode_cache, empty_slot);'')],
     mk ''SN13'' STATE_ZIG (''the reservation'' @ [CHR 0x27] @ ''s valid flag is not encoded (a reservation is lost on restore)'')
       [sub ''std.mem.writeInt(u32, buf[152..156], @intFromBool(cpu.reservation != null), .little);'' ''std.mem.writeInt(u32, buf[152..156], 0, .little);'']]\<close>

text \<open>CLI loading and exit (main.zig, main/load.zig)\<close>

definition NEW_15 :: "mutant list" where
  \<open>NEW_15 =
    [mk ''CL01'' MAIN_ZIG ''initial sp 16 bytes below the top of memory''
       [sub (''    return memory & ~@as(u32, 15);'' @ [CHR 0x0A]) (''    return (memory & ~@as(u32, 15)) -% 16;'' @ [CHR 0x0A])],
     mk ''CL02'' ARGS_ZIG ''an odd --load-addr accepted''
       [sub (''                if (addr % 2 != 0) return fail(diag, "--load-addr '' @ [CHR 0x27] @ ''{s}'' @ [CHR 0x27] @ '' must be even", .{value.?});'' @ [CHR 0x0A]) []],
     mk ''CL03'' LOADC_ZIG ''a flat binary starts at 0 instead of its load address''
       [sub (''        .entry = addr,'' @ [CHR 0x0A]) (''        .entry = 0,'' @ [CHR 0x0A])],
     mk ''CL04'' MAIN_ZIG ''--input ignored''
       [sub ''.{ .input = input, .stdout = cli.stdout'' ''.{ .input = &.{}, .stdout = cli.stdout''],
     mk ''CL05'' MAIN_ZIG ''exit status saturates at 255 instead of keeping the low 8 bits''
       [sub ''.exit => |s| @fromBackingInt(@as(u8, @truncate(s))),'' ''.exit => |s| @fromBackingInt(@as(u8, @intCast(@min(s, 255)))),''],
     mk ''CL06'' MAIN_ZIG ''a fault skips --dump-memory and --digest''
       [sub ''        if (config.dump) |d| {'' (''        if (status == .vm_fault) return status;'' @ [CHR 0x0A] @ ''        if (config.dump) |d| {'')],
     mk ''CL07'' LOADC_ZIG ''ELF detection checks the magic one byte late, so ELF files load as flat binaries''
       [sub ''if (det.loader.isElf(magic[0..magic_len])) {'' ''if (det.loader.isElf(magic[1..magic_len])) {''],
     mk ''CL08'' LOADC_ZIG ''--load-addr accepted with an ELF file (and ignored)''
       [sub ''        if (load_addr != null) return report.userError(diag, "--load-addr is for flat binaries'' ''        if (false) return report.userError(diag, "--load-addr is for flat binaries''],
     mk ''CL09'' LOADC_ZIG ''an empty file is run instead of rejected''
       [sub (''    if (stat.size == 0) return report.userError(diag, "'' @ [CHR 0x27] @ ''{s}'' @ [CHR 0x27] @ '' is empty", .{path});'' @ [CHR 0x0A]) []]]\<close>

text \<open>CLI arguments (main/args.zig)\<close>

definition NEW_16 :: "mutant list" where
  \<open>NEW_16 =
    [mk ''AR01'' ARGS_ZIG ([CHR 0x27] @ ''--'' @ [CHR 0x27] @ '' does not end the options'')
       [sub (''            options_ended = true;'' @ [CHR 0x0A]) (''            options_ended = options_ended;'' @ [CHR 0x0A])],
     mk ''AR02'' ARGS_ZIG (''the value after '' @ [CHR 0x27] @ ''='' @ [CHR 0x27] @ '' is dropped (the next argument is taken instead)'')
       [sub ''            inline_value = cut[1];'' ''            inline_value = null;''],
     mk ''AR03'' ARGS_ZIG (''the --help/--version scan does not stop at '' @ [CHR 0x27] @ ''--'' @ [CHR 0x27])
       [sub (''        if (std.mem.eql(u8, arg, "--")) break;'' @ [CHR 0x0A]) []],
     mk ''AR04'' ARGS_ZIG ''a second program argument replaces the first''
       [sub (''            if (program) |first| return fail(diag, "unexpected argument '' @ [CHR 0x27] @ ''{s}'' @ [CHR 0x27] @ '' after the program '' @ [CHR 0x27] @ ''{s}'' @ [CHR 0x27] @ '' (programs take no arguments)", .{ arg, first });'' @ [CHR 0x0A]) []],
     mk ''AR05'' ARGS_ZIG ''a negative number is not reported as negative''
       [sub (''    if (std.mem.startsWith(u8, text, "-")) return fail(diag, "{s} '' @ [CHR 0x27] @ ''{s}'' @ [CHR 0x27] @ '' is negative", .{ option, text });'' @ [CHR 0x0A]) []],
     mk ''AR06'' ARGS_ZIG ''a --dump-range that ends at the top of memory is rejected''
       [sub ''if (@as(u64, r.start) + r.len > config.memory)'' ''if (@as(u64, r.start) + r.len >= config.memory)''],
     mk ''AR07'' ARGS_ZIG ''the --dump-range end wraps around 2^32''
       [sub ''if (@as(u64, r.start) + r.len > config.memory)'' ''if (r.start +% r.len > config.memory)''],
     mk ''AR08'' ARGS_ZIG ''--disassemble accepts the options that only apply to a run''
       [sub ''            if (o[1]) return fail(diag, "{s} does not apply to --disassemble'' ''            if (false and o[1]) return fail(diag, "{s} does not apply to --disassemble''],
     mk ''AR09'' ARGS_ZIG ''--load-addr accepted with --demo''
       [sub (''        if (config.load_addr != null) return fail(diag, "--load-addr does not apply to --demo", .{});'' @ [CHR 0x0A]) []],
     mk ''AR10'' ARGS_ZIG (''--input - names a file '' @ [CHR 0x27] @ ''-'' @ [CHR 0x27] @ '' instead of stdin'')
       [sub ''.input => config.input = if (std.mem.eql(u8, value.?, "-")) .stdin else .{ .file = value.? },'' ''.input => config.input = .{ .file = value.? },''],
     mk ''AR11'' ARGS_ZIG ''--dump-range resets the format to hexdump''
       [sub (''                var d = config.dump orelse Dump{};'' @ [CHR 0x0A] @ ''                d.range'') (''                var d: Dump = .{};'' @ [CHR 0x0A] @ ''                d.range'')]]\<close>

text \<open>CLI streams, report, trace and listing\<close>

definition NEW_17 :: "mutant list" where
  \<open>NEW_17 =
    [mk ''SO01'' MAIN_ZIG ''a guest write to stderr does not flush stdout first''
       [sub ''                2 => try cli.stdout.flush(),'' ''                2 => {},''],
     mk ''SO02'' MAIN_ZIG ''a guest write to stdout does not flush stderr first''
       [sub ''                1 => try cli.stderr.flush(),'' ''                1 => {},''],
     mk ''SO03'' MAIN_ZIG ''the preamble is not flushed before the program runs''
       [sub (''            try cli.stderr.flush(); // before the program'' @ [CHR 0x27] @ ''s output'' @ [CHR 0x0A]) []],
     mk ''SO04'' MAIN_ZIG ''-q does not drop the result report''
       [sub (''        const status: ExitStatus = if (cli.execute(vm, config, &env)) |stop| blk: {'' @ [CHR 0x0A] @ ''            if (!config.quiet) {'') (''        const status: ExitStatus = if (cli.execute(vm, config, &env)) |stop| blk: {'' @ [CHR 0x0A] @ ''            if (true) {'')],
     mk ''RP01'' REPORT_ZIG ''the register table leaves out x31''
       [sub ''    for (1..32) |i| {'' ''    for (1..31) |i| {''],
     mk ''RP02'' REPORT_ZIG ''an EBREAK stop shows pc (past it) instead of its own address''
       [sub (''after {f}'' @ [CHR 0x5C] @ ''n", .{ vm.stop_pc, n }),'' @ [CHR 0x0A] @ ''        .ecall'') (''after {f}'' @ [CHR 0x5C] @ ''n", .{ vm.pc, n }),'' @ [CHR 0x0A] @ ''        .ecall'')],
     mk ''RP03'' REPORT_ZIG ''an exit status is printed unsigned''
       [sub ''.{ @as(i32, @bitCast(status)), n }'' ''.{ status, n }''],
     mk ''RP04'' REPORT_ZIG ''no memory hint for a data address outside memory''
       [sub ''if (err == error.AddressOutOfBounds) try w.print'' ''if (false) try w.print''],
     mk ''RP05'' REPORT_ZIG ''the trace shows a byte store with 8 digits''
       [sub (''.SB => try w.print("0x{X:0>2}'' @ [CHR 0x5C] @ ''n", .{@as(u8, @truncate(val))}),'') (''.SB => try w.print("0x{X:0>8}'' @ [CHR 0x5C] @ ''n", .{val}),'')],
     mk ''TR01'' MAIN_ZIG ''--trace runs one instruction past the cycle limit''
       [sub (''                if (vm.cycle_count >= limit) return .@"continue";'' @ [CHR 0x0A] @ ''            }'' @ [CHR 0x0A] @ ''            const cycle'') (''                if (vm.cycle_count > limit) return .@"continue";'' @ [CHR 0x0A] @ ''            }'' @ [CHR 0x0A] @ ''            const cycle'')],
     mk ''TR02'' MAIN_ZIG ''--trace fetches the bits after step(), so a self-overwriting instruction shows its new bits''
       [sub (''            const raw = try vm.fetch(); // before step(): the instruction may overwrite itself'' @ [CHR 0x0A] @ ''            const result = try vm.step();'') (''            const result = try vm.step();'' @ [CHR 0x0A] @ ''            const raw = vm.memory[pc] | @as(u32, vm.memory[pc + 1]) << 8 | @as(u32, vm.memory[pc + 2]) << 16 | @as(u32, vm.memory[pc + 3]) << 24;'')],
     mk ''DS01'' LOADC_ZIG ''--disassemble lists every ELF segment, not only the executable ones''
       [sub ''if (s.flags & det.loader.PF_X != 0) try code.append'' ''if (s.flags != 0xFFFF_FFFF) try code.append''],
     mk ''DS02'' DISASM_ZIG ''the listing steps 4 bytes over a 16-bit instruction''
       [sub ''addr += if (det.instructions.isCompressed(raw)) 2 else 4;'' ''addr += 4;''],
     mk ''DS03'' DISASM_ZIG ''a branch target is relative to the next instruction, not to its own address''
       [sub ''return w.print("0x{X:0>8}", .{pc +% @as(u32, @bitCast(self.offset))});'' ''return w.print("0x{X:0>8}", .{pc +% 4 +% @as(u32, @bitCast(self.offset))});''],
     mk ''DM01'' DUMP_ZIG ''hexdump addresses ignore the base address''
       [sub ''try w.print("{X:0>8}  ", .{base + offset});'' ''try w.print("{X:0>8}  ", .{offset});''],
     mk ''DM02'' MAIN_ZIG ''--dump-range dumps all of memory''
       [sub ''const range = d.range orelse args.Range{ .start = 0, .len = vm.memSize() };'' ''const range = args.Range{ .start = 0, .len = vm.memSize() };'']]\<close>

text \<open>CLI streams, report, trace and listing\<close>

definition NEW_18 :: "mutant list" where
  \<open>NEW_18 =
    [mk ''UN01'' UNITS_ZIG ''0 is counted as singular ("0 cycle")''
       [sub ''if (self.n == 1) "" else "s"'' ''if (self.n <= 1) "" else "s"'']]\<close>

text \<open>The two kinds of memory (docs/design/memory-size.md)\<close>

definition NEW_19 :: "mutant list" where
  \<open>NEW_19 =
    [mk ''MK01'' CPU_ZIG (''a RuntimeCpuType'' @ [CHR 0x27] @ ''s memSize() is 4 bytes short'')
       [sub ''.runtime => @intCast(self.memory.len),'' ''.runtime => @intCast(self.memory.len - 4),''],
     mk ''MK02'' CPU_ZIG ''validMemorySize() accepts a size that is not a multiple of 4''
       [sub ''return len >= 4 and len % 4 == 0 and len <='' ''return len >= 4 and len <=''],
     mk ''MK03'' CPU_ZIG ''validMemorySize() accepts 2^32 bytes''
       [sub ''len <= std.math.maxInt(u32);'' ''len <= @as(usize, std.math.maxInt(u32)) + 1;''],
     mk ''MK04'' CPU_ZIG ''validMemorySize() accepts 0 bytes''
       [sub ''return len >= 4 and len % 4 == 0'' ''return len % 4 == 0''],
     mk ''MK05'' CPU_ZIG (''a RuntimeCpuType'' @ [CHR 0x27] @ ''s init does not check the memory size'')
       [sub (''            if (!validMemorySize(memory.len)) return error.InvalidMemorySize;'' @ [CHR 0x0A] @ ''            self.memory = memory;'') ''            self.memory = memory;''],
     mk ''MK06'' CPU_ZIG ''initInPlace() takes the new memory before it rejects its size''
       [sub (''            if (!validMemorySize(memory.len)) return error.InvalidMemorySize;'' @ [CHR 0x0A] @ ''            self.memory = memory;'') (''            self.memory = memory;'' @ [CHR 0x0A] @ ''            if (!validMemorySize(memory.len)) return error.InvalidMemorySize;'')],
     mk ''MK07'' CPU_ZIG (''reset() leaves a RuntimeCpuType'' @ [CHR 0x27] @ ''s memory as it was'')
       [sub ''            @memset(self.memory[0..], 0);'' ''            if (kind == .fixed) @memset(self.memory[0..], 0);''],
     mk ''MK08'' CPU_ZIG ''snapshotSize() leaves out the header''
       [sub ''return state.header_len + @as(usize, self.memSize());'' ''return @as(usize, self.memSize());''],
     mk ''MK09'' STATE_ZIG ''snapshotMemorySize() does not check the version''
       [sub (''    if (std.mem.readInt(u32, snapshot_start[4..8], .little) != version) return error.InvalidSnapshot;'' @ [CHR 0x0A]) []],
     mk ''MK10'' STATE_ZIG ''snapshotMemorySize() accepts a size that is not a multiple of 4''
       [sub ''if (size < 4 or size % 4 != 0) return error.InvalidSnapshot;'' ''if (size < 4) return error.InvalidSnapshot;''],
     mk ''MK11'' STATE_ZIG ''snapshotMemorySize() does not check the magic''
       [sub (''    if (!std.mem.eql(u8, snapshot_start[0..4], &magic)) return error.InvalidSnapshot;'' @ [CHR 0x0A] @ ''    if (std.mem.readInt(u32, snapshot_start[4..8]'') ''    if (std.mem.readInt(u32, snapshot_start[4..8]''],
     mk ''ME01'' ARGS_ZIG ''--memory is parsed but ignored''
       [sub ''.memory => config.memory = try memorySize(value.?, diag),'' ''.memory => _ = try memorySize(value.?, diag),''],
     mk ''ME02'' ARGS_ZIG ''KiB means 1000 bytes''
       [sub ''.{ "KiB", 1 << 10 }'' ''.{ "KiB", 1000 }''],
     mk ''ME03'' ARGS_ZIG (''--memory '' @ [CHR 0x27] @ ''64 KiB'' @ [CHR 0x27] @ '' (a space before the unit) is rejected'')
       [sub ''digits = std.mem.trimEnd(u8, text[0 .. text.len - suffix[0].len], " ");'' ''digits = text[0 .. text.len - suffix[0].len];''],
     mk ''ME04'' ARGS_ZIG ''a negative --memory is reported as too large''
       [sub (''    if (std.mem.startsWith(u8, digits, "-")) return fail(diag, "--memory '' @ [CHR 0x27] @ ''{s}'' @ [CHR 0x27] @ '' is not a size (bytes, or a number with KiB, MiB or GiB)", .{text});'' @ [CHR 0x0A]) []],
     mk ''ME05'' ARGS_ZIG ''a --memory of 4 GiB or more is not reported as too large''
       [sub (''    if (bytes > std.math.maxInt(u32)) return fail(diag, "--memory '' @ [CHR 0x27] @ ''{s}'' @ [CHR 0x27] @ '' is too large: it must be less than 4 GiB", .{text});'' @ [CHR 0x0A]) []]]\<close>

text \<open>The two kinds of memory (docs/design/memory-size.md)\<close>

definition NEW_20 :: "mutant list" where
  \<open>NEW_20 =
    [mk ''ME06'' ARGS_ZIG ''--load-addr is not checked against the memory size''
       [sub ''    if (config.load_addr) |addr| if (addr >= config.memory)'' ''    if (config.load_addr) |addr| if (addr >= std.math.maxInt(u32))''],
     mk ''ME07'' ARGS_ZIG ''--dump-range is checked against the default memory, not --memory''
       [sub ''if (@as(u64, r.start) + r.len > config.memory)'' ''if (@as(u64, r.start) + r.len > det.default_memory_size)''],
     mk ''ME08'' MAIN_ZIG ''VM memory that cannot be allocated gives the generic out-of-memory error''
       [sub (''        const memory = cli.gpa.alloc(u8, config.memory) catch |err| switch (err) {'' @ [CHR 0x0A] @ ''            error.OutOfMemory => return report.userError(cli.stderr, "cannot allocate {f} of VM memory", .{units.MemSize{ .bytes = config.memory }}),'' @ [CHR 0x0A] @ ''        };'') ''        const memory = try cli.gpa.alloc(u8, config.memory);''],
     mk ''ME09'' MAIN_ZIG (''the CLI'' @ [CHR 0x27] @ ''s VM gets the default memory, not --memory'')
       [sub ''cli.gpa.alloc(u8, config.memory) catch'' ''cli.gpa.alloc(u8, det.default_memory_size) catch''],
     mk ''ME10'' MAIN_ZIG ''the preamble names the default memory size''
       [sub ''units.MemSize{ .bytes = vm.memSize() }, Limit{'' ''units.MemSize{ .bytes = det.default_memory_size }, Limit{''],
     mk ''ME11'' REPORT_ZIG ''a fault outside memory names the default memory size''
       [sub ''const mem_size: units.MemSize = .{ .bytes = vm.memSize() };'' ''const mem_size: units.MemSize = .{ .bytes = det.default_memory_size };''],
     mk ''ME12'' LOADC_ZIG (''a flat binary'' @ [CHR 0x27] @ ''s room is computed from the default memory'')
       [sub ''    const room = vm.memSize() - addr;'' ''    const room = det.default_memory_size - addr;''],
     mk ''ME13'' UNITS_ZIG ''a size in GiB is printed in MiB''
       [sub (''        if (self.bytes != 0 and self.bytes % (1024 * 1024 * 1024) == 0) return w.print("{d} GiB", .{self.bytes / (1024 * 1024 * 1024)});'' @ [CHR 0x0A]) []],
     mk ''LD14'' LD_ZIG ''segments() returns an iterator that the checks already ran to the end''
       [sub ''return .{ .entry = entry, .segments = all };'' ''return .{ .entry = entry, .segments = it };'']]\<close>

definition NEW :: "mutant list" where
  "NEW = NEW_1 @ NEW_2 @ NEW_3 @ NEW_4 @ NEW_5 @ NEW_6 @ NEW_7 @ NEW_8 @ NEW_9 @ NEW_10 @ NEW_11 @ NEW_12 @ NEW_13 @ NEW_14 @ NEW_15 @ NEW_16 @ NEW_17 @ NEW_18 @ NEW_19 @ NEW_20"

definition EQUIVALENT_REASONS :: "(string \<times> string) list" where
  \<open>EQUIVALENT_REASONS =
    [(''I06'', ''the shift amount is @truncate'' @ [CHR 0x27] @ ''d to u5, which drops bit 5 whether the mask is 0x1F or 0x3F''),
     (''I15'', ''rs1 was read before execute, so writing rd early cannot change the JALR target; rd gets the same value again''),
     (''C06'', ''the successful SC.W'' @ [CHR 0x27] @ ''s writeWord() already cleared the reservation, so the skipped `reservation = null` was a no-op''),
     (''C09'', ''writeWord() repeats the checkWordAccess() that readWord() just passed, so it cannot fault after the early rd write; rs2 was read before execute''),
     (''C11'', ''fetch() rejects an odd pc first and mem_size is a multiple of 4, so pc > mem_size - 2 and pc > mem_size - 1 reject the same even pcs''),
     (''C12'', ''pc is even and mem_size - 4 is even, so pc > mem_size - 4 and pc > mem_size - 3 reject the same pcs''),
     (''Z03'', ''CSR reads have no side effects, and every CSR whose read fails also fails the write that follows (only mscratch is writable) with the same IllegalInstruction''),
     (''Z04'', ''write()'' @ [CHR 0x27] @ ''s switch rejects every CSR but mscratch anyway; the read-only check only guards writable CSRs added later''),
     (''D20'', ''no two registry entries overlap (registry_test), so the order in which decodeR asks the extensions cannot change its result''),
     (''D22'', ''no two registry entries overlap (registry_test), so the order in which decodeR asks the extensions cannot change its result'')]\<close>

text \<open>The module as the driver loads it.\<close>

definition SHIPPED :: report_mod where
  "SHIPPED = \<lparr>RMUTANTS = PORTED @ NEW, RNEW = NEW, REASONS = EQUIVALENT_REASONS\<rparr>"

definition SHIPPED_CATALOGUE :: catalogue where
  "SHIPPED_CATALOGUE = \<lparr>MUTANTS = PORTED @ NEW, EQUIVALENT = map fst EQUIVALENT_REASONS\<rparr>"

end
