(* ===== verification/Catalogue_Facts.thy ===== *)
theory Catalogue_Facts
  imports Catalogue
begin

text \<open>
  Facts about the mutants of \<^verbatim>\<open>tools/mutation/mutants.py\<close>: group by group, every mutant is complete; the ids are
  different; so the checks of \<^verbatim>\<open>mutate.py\<close> accept the table.
\<close>

section \<open>Complete mutants\<close>

lemma tx_inj: "tx a = tx b \<longleftrightarrow> a = b" "tx a = [] \<longleftrightarrow> a = []"
  by (auto simp: tx_def inj_def dest!: map_injective [OF _ injI])

lemma sub_ok: "bad_edit (sub a b) \<longleftrightarrow> a = [] \<or> a = b"
  by (simp add: bad_edit_def sub_def tx_inj)

lemma sub_arrow_ok: "bad_edit (sub_arrow a b s) \<longleftrightarrow> a = b"
  by (simp add: bad_edit_def sub_arrow_def tx_inj)

lemma complete_mk: "complete (mk i f d es) \<longleftrightarrow> es \<noteq> [] \<and> list_all (\<lambda>e. \<not> bad_edit e) es"
  by (simp add: complete_def mk_def edits_of_def bad_edit_iff)

lemma mid_mk: "mid (mk i f d es) = i"
  by (simp add: mid_def mk_def)

lemmas text_defs = S32_def S32_L_def S32_R_def S32_LE_def SC_CHECK_def STEP_ZERO_def WRITE_REG_def NEXT_PC_def READ_WORD_def WRITE_WORD_def
  DECODE_CACHED_def inline_word_check_def

lemma complete_PORTED_1: "list_all complete PORTED_1"
  unfolding PORTED_1_def list.pred_inject complete_mk sub_ok sub_arrow_ok text_defs append.simps by simp

lemma complete_PORTED_2: "list_all complete PORTED_2"
  unfolding PORTED_2_def list.pred_inject complete_mk sub_ok sub_arrow_ok text_defs append.simps by simp

lemma complete_PORTED_3: "list_all complete PORTED_3"
  unfolding PORTED_3_def list.pred_inject complete_mk sub_ok sub_arrow_ok text_defs append.simps by simp

lemma complete_PORTED_4: "list_all complete PORTED_4"
  unfolding PORTED_4_def list.pred_inject complete_mk sub_ok sub_arrow_ok text_defs append.simps by simp

lemma complete_PORTED_5: "list_all complete PORTED_5"
  unfolding PORTED_5_def list.pred_inject complete_mk sub_ok sub_arrow_ok text_defs append.simps by simp

lemma complete_PORTED_6: "list_all complete PORTED_6"
  unfolding PORTED_6_def list.pred_inject complete_mk sub_ok sub_arrow_ok text_defs append.simps by simp

lemma complete_PORTED_7: "list_all complete PORTED_7"
  unfolding PORTED_7_def list.pred_inject complete_mk sub_ok sub_arrow_ok text_defs append.simps by simp

lemma complete_PORTED_8: "list_all complete PORTED_8"
  unfolding PORTED_8_def list.pred_inject complete_mk sub_ok sub_arrow_ok text_defs append.simps by simp

lemma complete_PORTED_9: "list_all complete PORTED_9"
  unfolding PORTED_9_def list.pred_inject complete_mk sub_ok sub_arrow_ok text_defs append.simps by simp

lemma complete_PORTED_10: "list_all complete PORTED_10"
  unfolding PORTED_10_def list.pred_inject complete_mk sub_ok sub_arrow_ok text_defs append.simps by simp

lemma complete_PORTED_11: "list_all complete PORTED_11"
  unfolding PORTED_11_def list.pred_inject complete_mk sub_ok sub_arrow_ok text_defs append.simps by simp

lemma complete_PORTED_12: "list_all complete PORTED_12"
  unfolding PORTED_12_def list.pred_inject complete_mk sub_ok sub_arrow_ok text_defs append.simps by simp

lemma complete_PORTED_13: "list_all complete PORTED_13"
  unfolding PORTED_13_def list.pred_inject complete_mk sub_ok sub_arrow_ok text_defs append.simps by simp

lemma complete_PORTED_14: "list_all complete PORTED_14"
  unfolding PORTED_14_def list.pred_inject complete_mk sub_ok sub_arrow_ok text_defs append.simps by simp

lemma complete_PORTED_15: "list_all complete PORTED_15"
  unfolding PORTED_15_def list.pred_inject complete_mk sub_ok sub_arrow_ok text_defs append.simps by simp

lemma complete_NEW_1: "list_all complete NEW_1"
  unfolding NEW_1_def list.pred_inject complete_mk sub_ok sub_arrow_ok text_defs append.simps by simp

lemma complete_NEW_2: "list_all complete NEW_2"
  unfolding NEW_2_def list.pred_inject complete_mk sub_ok sub_arrow_ok text_defs append.simps by simp

lemma complete_NEW_3: "list_all complete NEW_3"
  unfolding NEW_3_def list.pred_inject complete_mk sub_ok sub_arrow_ok text_defs append.simps by simp

lemma complete_NEW_4: "list_all complete NEW_4"
  unfolding NEW_4_def list.pred_inject complete_mk sub_ok sub_arrow_ok text_defs append.simps by simp

lemma complete_NEW_5: "list_all complete NEW_5"
  unfolding NEW_5_def list.pred_inject complete_mk sub_ok sub_arrow_ok text_defs append.simps by simp

lemma complete_NEW_6: "list_all complete NEW_6"
  unfolding NEW_6_def list.pred_inject complete_mk sub_ok sub_arrow_ok text_defs append.simps by simp

lemma complete_NEW_7: "list_all complete NEW_7"
  unfolding NEW_7_def list.pred_inject complete_mk sub_ok sub_arrow_ok text_defs append.simps by simp

lemma complete_NEW_8: "list_all complete NEW_8"
  unfolding NEW_8_def list.pred_inject complete_mk sub_ok sub_arrow_ok text_defs append.simps by simp

lemma complete_NEW_9: "list_all complete NEW_9"
  unfolding NEW_9_def list.pred_inject complete_mk sub_ok sub_arrow_ok text_defs append.simps by simp

lemma complete_NEW_10: "list_all complete NEW_10"
  unfolding NEW_10_def list.pred_inject complete_mk sub_ok sub_arrow_ok text_defs append.simps by simp

lemma complete_NEW_11: "list_all complete NEW_11"
  unfolding NEW_11_def list.pred_inject complete_mk sub_ok sub_arrow_ok text_defs append.simps by simp

lemma complete_NEW_12: "list_all complete NEW_12"
  unfolding NEW_12_def list.pred_inject complete_mk sub_ok sub_arrow_ok text_defs append.simps by simp

lemma complete_NEW_13: "list_all complete NEW_13"
  unfolding NEW_13_def list.pred_inject complete_mk sub_ok sub_arrow_ok text_defs append.simps by simp

lemma complete_NEW_14: "list_all complete NEW_14"
  unfolding NEW_14_def list.pred_inject complete_mk sub_ok sub_arrow_ok text_defs append.simps by simp

lemma complete_NEW_15: "list_all complete NEW_15"
  unfolding NEW_15_def list.pred_inject complete_mk sub_ok sub_arrow_ok text_defs append.simps by simp

lemma complete_NEW_16: "list_all complete NEW_16"
  unfolding NEW_16_def list.pred_inject complete_mk sub_ok sub_arrow_ok text_defs append.simps by simp

lemma complete_NEW_17: "list_all complete NEW_17"
  unfolding NEW_17_def list.pred_inject complete_mk sub_ok sub_arrow_ok text_defs append.simps by simp

lemma complete_NEW_18: "list_all complete NEW_18"
  unfolding NEW_18_def list.pred_inject complete_mk sub_ok sub_arrow_ok text_defs append.simps by simp

lemma complete_NEW_19: "list_all complete NEW_19"
  unfolding NEW_19_def list.pred_inject complete_mk sub_ok sub_arrow_ok text_defs append.simps by simp

lemma complete_NEW_20: "list_all complete NEW_20"
  unfolding NEW_20_def list.pred_inject complete_mk sub_ok sub_arrow_ok text_defs append.simps by simp

lemmas groups_complete = complete_PORTED_1 complete_PORTED_2 complete_PORTED_3 complete_PORTED_4 complete_PORTED_5 complete_PORTED_6 complete_PORTED_7 complete_PORTED_8 complete_PORTED_9 complete_PORTED_10 complete_PORTED_11 complete_PORTED_12 complete_PORTED_13 complete_PORTED_14 complete_PORTED_15 complete_NEW_1 complete_NEW_2 complete_NEW_3 complete_NEW_4 complete_NEW_5 complete_NEW_6 complete_NEW_7 complete_NEW_8 complete_NEW_9 complete_NEW_10 complete_NEW_11 complete_NEW_12 complete_NEW_13 complete_NEW_14 complete_NEW_15 complete_NEW_16 complete_NEW_17 complete_NEW_18 complete_NEW_19 complete_NEW_20

lemma shipped_complete: "list_all complete (PORTED @ NEW)"
  unfolding PORTED_def NEW_def list_all_append by (intro conjI groups_complete)

lemmas group_defs = PORTED_1_def PORTED_2_def PORTED_3_def PORTED_4_def PORTED_5_def PORTED_6_def PORTED_7_def PORTED_8_def PORTED_9_def PORTED_10_def PORTED_11_def PORTED_12_def PORTED_13_def PORTED_14_def PORTED_15_def NEW_1_def NEW_2_def NEW_3_def NEW_4_def NEW_5_def NEW_6_def NEW_7_def NEW_8_def NEW_9_def NEW_10_def NEW_11_def NEW_12_def NEW_13_def NEW_14_def NEW_15_def NEW_16_def NEW_17_def NEW_18_def NEW_19_def NEW_20_def

section \<open>Ids\<close>

text \<open>The ids are different: distinct keys, compared in 64 classes by their lowest bits.\<close>

definition id_key :: "string \<Rightarrow> int" where
  "id_key s = foldl (\<lambda>h c. 29 * h + of_char c) 0 s"

fun distinct_ints :: "nat \<Rightarrow> int list \<Rightarrow> bool" where
  "distinct_ints 0 xs = distinct xs"
| "distinct_ints (Suc n) xs =
     (distinct_ints n (map (\<lambda>x. x div 2) (filter (\<lambda>x. x mod 2 = 0) xs)) \<and> distinct_ints n (map (\<lambda>x. x div 2) (filter (\<lambda>x. x mod 2 \<noteq> 0) xs)))"

lemma distinct_parts: "distinct (filter P xs) \<Longrightarrow> distinct (filter (\<lambda>x. \<not> P x) xs) \<Longrightarrow> distinct xs"
  by (induction xs) (auto split: if_splits)

lemma distinct_ints_sound: "distinct_ints n xs \<Longrightarrow> distinct xs"
proof (induction n xs rule: distinct_ints.induct)
  case (2 n xs)
  then have "distinct (map (\<lambda>x. x div 2) (filter (\<lambda>x. x mod 2 = 0) xs))" "distinct (map (\<lambda>x. x div 2) (filter (\<lambda>x. x mod 2 \<noteq> 0) xs))" by simp_all
  then show ?case using distinct_parts [of "\<lambda>x. x mod 2 = 0" xs] by (simp add: distinct_map)
qed simp

lemma shipped_keys: "distinct_ints 6 (map id_key (map mid (PORTED @ NEW)))"
  unfolding PORTED_def NEW_def group_defs append.simps list.map mid_mk by code_simp

lemma shipped_distinct: "distinct (map mid (PORTED @ NEW))"
  using distinct_ints_sound [OF shipped_keys] distinct_map by blast

lemma shipped_length: "length PORTED = 165 \<and> length NEW = 150"
  unfolding PORTED_def NEW_def group_defs by simp

lemma shipped_equivalent: "list_all (\<lambda>i. i \<in> set (map mid PORTED)) (map fst EQUIVALENT_REASONS)"
  unfolding PORTED_def group_defs EQUIVALENT_REASONS_def append.simps list.map mid_mk fst_conv by simp



end
