(* ===== verification/Spec2Isabelle.thy ===== *)
theory Spec2Isabelle
  imports Gen_Program Mkdtb Protocol Trace Setup Endtoend Directed Cov_Main Driver Catalogue_Facts
begin

text \<open>
  Verification library for the Python tools of the Determinant virtual machine (\<^verbatim>\<open>src/tools\<close>).

  Determinant is a RISC-V interpreter written in Zig. Its Python tools test it. The scripts of
  \<^verbatim>\<open>tools/spike_diff\<close> generate programs, run each on Determinant and on the reference simulator Spike and
  compare the final states. The scripts of \<^verbatim>\<open>tools/mutation\<close> inject a bug into a copy of the sources, run the
  test suites and record which suite catches it. A wrong tool hides bugs of the interpreter, or reports
  bugs it does not have; the theorems say when the tools are right.

  \<^bold>\<open>Conventions.\<close> A Python exception is \<open>None\<close> (or the left side of a sum, where the code tells
  exceptions apart). \<open>random.Random\<close> is an infinite tape of numbers with a read position (theory
  \<open>Rng\<close>), so a theorem for all tapes holds for all seeds. Processes (assembler, linker, Spike, the
  runner, the Zig build), the file system around the files a script uses, PATH lookup and time are arguments of the
  definitions. Python's ints are \<open>int\<close> or, where they are not negative, \<open>nat\<close>; Zig's integers are words.

  \<^bold>\<open>Foundations.\<close>
  \<^item> \<open>Prelude\<close>: total-correctness postconditions \<open>ok\<close> of state-passing code that may raise, with the
    introduction rules \<open>wp_intro\<close>, and the locale \<open>codec\<close> for prefix-free encodings.
  \<^item> \<open>PyText\<close>, \<open>PyBytes\<close>, \<open>PyCodec\<close>: the string, number, byte, UTF-8, base64 and JSON
    operations of the standard library the scripts call. The locale \<open>notation_base\<close> states what a positional
    notation promises, with interpretations for decimal, hexadecimal and base 64.
  \<^item> \<open>Rng\<close>: the methods of \<open>random.Random\<close>.

  \<^bold>\<open>Generating programs.\<close>
  \<^item> \<open>Asm\<close>, \<open>Template\<close>: instructions as the generator writes them with their sizes and effects, and
    \<^verbatim>\<open>template.py\<close> (the skeleton of a program).
  \<^item> \<open>Gen\<close>: \<^verbatim>\<open>gen.py\<close>, one definition for each method of the class \<open>Gen\<close>, \<open>resolve\<close> and
    \<open>program\<close>. The recursion of loops in blocks has depth 2 in the source (a loop body draws no loop), so the
    model unfolds it twice instead of using fuel.
  \<^item> \<open>Flow\<close>, \<open>Gen_Contract\<close>, \<open>Gen_Mem\<close>, \<open>Gen_Flow\<close>, \<open>Gen_Resolve\<close>, \<open>Gen_Blocks\<close>,
    \<open>Gen_Program\<close>: what the generator promises. The locales \<open>generator\<close> and \<open>loop_body\<close> are the contracts of an
    item generator and of a loop; the theories prove them for every category and compose them. The
    properties: every memory access along every path is aligned and inside the data region, every jump is in reach and
    has a target, nothing disturbs an LR/SC pair, the base register is never written, counters leave only differences, the
    generator always returns.

  \<^bold>\<open>Running and comparing.\<close>
  \<^item> \<open>Mkdtb\<close>: \<^verbatim>\<open>mkdtb.py\<close>, the device tree blob, with a reader and the round trip through the locale
    \<open>string_table\<close>.
  \<^item> \<open>Pipeline\<close>: \<^verbatim>\<open>pipeline.py\<close>, building and running programs, reading both machines' states and
    \<open>compare\<close>, which is silent exactly when the machines agree.
  \<^item> \<open>Setup\<close>: \<open>setup\<close> and \<open>build_runner\<close> of \<^verbatim>\<open>pipeline.py\<close>, as the list of the actions they take.
  \<^item> \<open>Protocol\<close>: the text protocol with \<^verbatim>\<open>runner.zig\<close>, both sides, and that they fit.
  \<^item> \<open>Dump\<close>: Spike's trap handler of \<^verbatim>\<open>template.py\<close> as instructions with their effect, and that
    \<open>spike_state\<close> reads the trapped machine back.
  \<^item> \<open>Fuzz\<close>: a program of \<^verbatim>\<open>fuzz.py\<close>, from its seed to its judgement. \<open>Encsweep\<close> and \<open>Encrun\<close>: a program of
    \<^verbatim>\<open>encsweep.py\<close>, from the drawn word to the known classes of divergences.
  \<^item> \<open>Batches\<close>: \<open>main\<close> of both scripts, with batches, manifests, removed files and totals. The locale
    \<open>batch_loop\<close> states what a batch promises; no seed is left out, and exit status 0 means that all programs are good.
  \<^item> \<open>Endtoend\<close>: the parts above composed. For any state in which Spike's hart traps and any ends that the runner prints, the
    judgement read from the signature and the printed records is the comparison of the machines themselves.
  \<^item> \<open>Directed_Tests\<close>: the table of \<^verbatim>\<open>directed.py\<close>, the 114 edge-case programs and the encoders they use.
    \<open>Directed_Facts\<close>: the encoders' fields, where the loop-built tests store their results, which outcomes are
    expected. \<open>Directed\<close>: how the tests are built and judged, and what exit status 0 means.
  \<^item> \<open>Coverage\<close>: the log parser and the counters of \<^verbatim>\<open>coverage.py\<close>. \<open>Cov_Main\<close>: its \<open>main\<close>, with the report over all
    programs, and that it deletes them.
  \<^item> \<open>Trace\<close>: \<^verbatim>\<open>trace.py\<close>, both trace readers and the alignment that finds the first step at which the machines
    differ, with the printer of \<^verbatim>\<open>runner.zig\<close>'s step trace.

  \<^bold>\<open>Mutation testing\<close> (\<^verbatim>\<open>mutate.py\<close>).
  \<^item> \<open>Edits\<close>: the checks of the catalogue and the edits, refined from the relation \<open>edited\<close>.
  \<^item> \<open>Cache\<close>: the snapshot of the build cache and its restoration.
  \<^item> \<open>Analysis\<close>: what the output of a build says; the regular expressions are parsers of lines.
  \<^item> \<open>Mutate\<close>: the marker, one mutant, and the commands \<open>--check\<close> and run. The locale \<open>journal\<close> states what
    the marker promises; the step relation \<open>mstep\<close> has a state for every moment at which the process can be killed,
    and its reachable states are the ones recovery is proved for.
  \<^item> \<open>Driver\<close>: the child process of a build, whose group is killed on a timeout or an interrupt, and \<open>main\<close>, after which the tree
    is as it was.
  \<^item> \<open>Report\<close>: \<open>cmd_report\<close>, as the value the text is printed from; which results count and what the score means.
  \<^item> \<open>Catalogue\<close>: the table of \<^verbatim>\<open>mutants.py\<close>, all 315 mutants. \<open>Catalogue_Facts\<close>: the driver accepts it, and the
    report of any results file is right for it.

  \<^bold>\<open>Loops and bounds.\<close> Every loop of the scripts is structural recursion or a function with a proved
  measure, but one: the rejection loop of \<open>rand_word\<close> is a \<open>partial_function\<close>, and \<open>rand_word_returns\<close> states when it
  ends. Nothing has fuel.

  \<^bold>\<open>Not modelled.\<close> The interpreter itself, the linker script and the Zig side apart from the protocol are not part of the
  Python tools. Option parsers, progress output, and the text of log and
  summary files and of what is printed (the values it is made from are modelled) are input and output. The workers of a batch run in parallel in the code and
  one after the other in the model; they write different files. Exceptions that reach \<open>main\<close> of the mutation driver outside a
  build are covered by the step relation of \<open>Mutate\<close>, which can be cut off at every moment. The JSON reader covers what the
  scripts write themselves: one object of strings.
\<close>

end
